(* ===== verification/Prelude.thy ===== *)
theory Prelude
  imports Main "HOL-Library.Sublist"
begin

text \<open>
  The shared vocabulary of the development: the collections of rewrite rules the component
  theories fill, the result type of fallible Go functions, and the facts on lists, options and
  sums that more than one component uses. Nothing here models a line of the hub.

  A Go function that returns \<open>(T, error)\<close> is modelled with \<open>'a res = string + 'a\<close>:
  \<open>Inl msg\<close> is the error with its text, \<open>Inr v\<close> the value. A function that returns
  only \<open>error\<close> is an \<open>err = string option\<close>, \<open>None\<close> being \<open>nil\<close>.
\<close>

named_theorems go_str \<open>rewrite rules for the Go string functions\<close>
named_theorems db_ops \<open>definitions of the SQL statements of the platform database\<close>
named_theorems handler_defs \<open>definitions of HTTP and gRPC handlers\<close>
named_theorems inv_rules \<open>operations keep the invariant of their component\<close>

type_synonym 'a res = "string + 'a"
type_synonym err = "string option"
type_synonym go_int = int

abbreviation ok :: "'a res \<Rightarrow> bool" where
  "ok r \<equiv> \<exists>v. r = Inr v"

section \<open>Lists\<close>

lemma take_while_split: "takeWhile P xs @ dropWhile P xs = xs"
  by simp

lemma distinct_map_filter: "distinct (map f xs) \<Longrightarrow> distinct (map f (filter P xs))"
  by (induction xs) auto

lemma distinct_map_upd:
  assumes "\<And>x. f (g x) = f x"
  shows "map f (map (\<lambda>x. if P x then g x else x) xs) = map f xs"
  using assms by (induction xs) auto

lemma comp_upd:
  assumes "\<And>x. f (g x) = f x"
  shows "f \<circ> (\<lambda>x. if P x then g x else x) = f"
  using assms by auto

lemma distinct_map_eq: "distinct (map f xs) \<Longrightarrow> x \<in> set xs \<Longrightarrow> y \<in> set xs \<Longrightarrow> f x = f y \<Longrightarrow> x = y"
  by (auto simp: distinct_map dest: inj_onD)

lemma list_all_map_upd:
  assumes "list_all Q xs" and "\<And>x. Q x \<Longrightarrow> P x \<Longrightarrow> Q (g x)"
  shows "list_all Q (map (\<lambda>x. if P x then g x else x) xs)"
  using assms by (induction xs) auto

lemma filter_map_upd_other:
  assumes "\<And>x. P x \<Longrightarrow> \<not> Q x" and "\<And>x. P x \<Longrightarrow> \<not> Q (g x)"
  shows "filter Q (map (\<lambda>x. if P x then g x else x) xs) = filter Q xs"
  using assms by (induction xs) auto

lemma find_eq_hd_filter: "List.find P xs = (case filter P xs of [] \<Rightarrow> None | x # _ \<Rightarrow> Some x)"
  by (induction xs) auto

lemma filter_eq_ConsD: "filter P xs = y # ys \<Longrightarrow> y \<in> set xs \<and> P y"
  by (auto simp: filter_eq_Cons_iff)

lemma prefix_drop_length: "prefix p s \<Longrightarrow> s = p @ drop (length p) s"
  by (auto simp: prefix_def)

lemma set_drop_takeD: "x \<in> set (take n xs) \<Longrightarrow> x \<in> set xs"
  by (rule in_set_takeD)

section \<open>Options and sums\<close>

lemma case_sum_Inr_iff: "(case r of Inl e \<Rightarrow> Inl e | Inr v \<Rightarrow> f v) = Inr w \<longleftrightarrow> (\<exists>v. r = Inr v \<and> f v = Inr w)"
  by (cases r) auto

lemma case_option_None_iff:
  "(case x of None \<Rightarrow> y | Some e \<Rightarrow> Some (f e)) = None \<longleftrightarrow> x = None \<and> y = None"
  by (cases x) auto

end
