(* ===== verification/Go_Strings.thy ===== *)
theory Go_Strings
  imports Prelude Unicode_Case
begin

text \<open>
  The functions of Go's \<open>strings\<close>, \<open>unicode/utf8\<close> and \<open>strconv\<close> packages that
  the hub calls. A Go string is a sequence of bytes; HOL's \<open>string\<close> is a list of 8-bit
  characters, so indices and lengths agree. \<open>ToUpper\<close>, \<open>ToLower\<close> and
  \<open>TrimSpace\<close> work on runes: on strings with a byte above 127 the model decodes UTF-8,
  maps each rune with the tables of \<open>Unicode_Case\<close> and encodes again, invalid bytes
  becoming U+FFFD as \<open>strings.Map\<close> makes them. \<open>strings.Index\<close> is an option,
  \<open>None\<close> standing for -1.
\<close>

section \<open>Bytes\<close>

definition byte :: "char \<Rightarrow> nat" where
  "byte c = of_char c"

definition in_range :: "char \<Rightarrow> char \<Rightarrow> char \<Rightarrow> bool" where
  "in_range lo hi c \<longleftrightarrow> byte lo \<le> byte c \<and> byte c \<le> byte hi"

definition is_ascii :: "string \<Rightarrow> bool" where
  "is_ascii s \<longleftrightarrow> list_all (\<lambda>c. byte c < 128) s"

definition ascii_up :: "char \<Rightarrow> char" where
  "ascii_up c = (if in_range CHR ''a'' CHR ''z'' c then char_of (byte c - 32) else c)"

definition ascii_low :: "char \<Rightarrow> char" where
  "ascii_low c = (if in_range CHR ''A'' CHR ''Z'' c then char_of (byte c + 32) else c)"

section \<open>UTF-8\<close>

definition cont_byte :: "nat \<Rightarrow> bool" where
  "cont_byte b \<longleftrightarrow> 128 \<le> b \<and> b \<le> 191"

text \<open>The rune that starts with the byte \<open>b\<close>, and how many of the following bytes it takes.\<close>

definition utf8_multi :: "nat \<Rightarrow> nat list \<Rightarrow> (nat \<times> nat) option" where
  "utf8_multi b bs =
     (case bs of
        [] \<Rightarrow> None
      | b1 # bs1 \<Rightarrow>
          if 194 \<le> b \<and> b \<le> 223 then
            (if cont_byte b1 then Some ((b - 192) * 64 + (b1 - 128), 1) else None)
          else (case bs1 of
             [] \<Rightarrow> None
           | b2 # bs2 \<Rightarrow>
               if 224 \<le> b \<and> b \<le> 239 then
                 (if (if b = 224 then 160 else 128) \<le> b1 \<and> b1 \<le> (if b = 237 then 159 else 191)
                     \<and> cont_byte b2
                  then Some ((b - 224) * 4096 + (b1 - 128) * 64 + (b2 - 128), 2) else None)
               else (case bs2 of
                  [] \<Rightarrow> None
                | b3 # _ \<Rightarrow>
                    if 240 \<le> b \<and> b \<le> 244
                       \<and> (if b = 240 then 144 else 128) \<le> b1 \<and> b1 \<le> (if b = 244 then 143 else 191)
                       \<and> cont_byte b2 \<and> cont_byte b3
                    then Some ((b - 240) * 262144 + (b1 - 128) * 4096 + (b2 - 128) * 64 + (b3 - 128), 3)
                    else None)))"

definition RuneError :: nat where
  "RuneError = 65533"

function decode_runes :: "nat list \<Rightarrow> nat list" where
  "decode_runes [] = []"
| "decode_runes (b # bs) =
     (if b < 128 then b # decode_runes bs
      else case utf8_multi b bs of
             None \<Rightarrow> RuneError # decode_runes bs
           | Some (r, n) \<Rightarrow> r # decode_runes (drop n bs))"
  by pat_completeness auto
termination by (relation "measure length") auto

definition encode_rune :: "nat \<Rightarrow> nat list" where
  "encode_rune r =
     (if r < 128 then [r]
      else if r < 2048 then [192 + r div 64, 128 + r mod 64]
      else if (55296 \<le> r \<and> r \<le> 57343) \<or> 1114111 < r then [239, 191, 189]
      else if r < 65536 then [224 + r div 4096, 128 + (r div 64) mod 64, 128 + r mod 64]
      else [240 + r div 262144, 128 + (r div 4096) mod 64, 128 + (r div 64) mod 64, 128 + r mod 64])"

definition strings_Map :: "(nat \<Rightarrow> nat) \<Rightarrow> string \<Rightarrow> string" where
  "strings_Map f s = map char_of (concat (map (\<lambda>r. encode_rune (f r)) (decode_runes (map byte s))))"

section \<open>Package strings\<close>

definition ToUpper :: "string \<Rightarrow> string" where
  "ToUpper s = (if is_ascii s then map ascii_up s else strings_Map unicode_ToUpper s)"

definition ToLower :: "string \<Rightarrow> string" where
  "ToLower s = (if is_ascii s then map ascii_low s else strings_Map unicode_ToLower s)"

definition HasPrefix :: "string \<Rightarrow> string \<Rightarrow> bool" where
  "HasPrefix s p \<longleftrightarrow> prefix p s"

definition HasSuffix :: "string \<Rightarrow> string \<Rightarrow> bool" where
  "HasSuffix s p \<longleftrightarrow> suffix p s"

definition TrimSuffix :: "string \<Rightarrow> string \<Rightarrow> string" where
  "TrimSuffix s p = (if suffix p s then take (length s - length p) s else s)"

fun Index :: "string \<Rightarrow> string \<Rightarrow> nat option" where
  "Index [] sub = (if sub = [] then Some 0 else None)"
| "Index (c # s) sub = (if prefix sub (c # s) then Some 0 else map_option Suc (Index s sub))"

definition Contains :: "string \<Rightarrow> string \<Rightarrow> bool" where
  "Contains s sub \<longleftrightarrow> Index s sub \<noteq> None"

text \<open>\<open>strings.Split\<close> for a separator of one byte.\<close>

fun Split :: "string \<Rightarrow> char \<Rightarrow> string list" where
  "Split [] sep = [[]]"
| "Split (c # s) sep =
     (if c = sep then [] # Split s sep
      else (case Split s sep of [] \<Rightarrow> [[c]] | w # ws \<Rightarrow> (c # w) # ws))"

fun Join :: "string list \<Rightarrow> string \<Rightarrow> string" where
  "Join [] sep = []"
| "Join [x] sep = x"
| "Join (x # y # ys) sep = x @ sep @ Join (y # ys) sep"

text \<open>
  \<open>unicode.IsSpace\<close>: the UTF-8 encodings of the white space runes. No encoding is a prefix
  or a suffix of another one, and UTF-8 synchronises itself, so stripping these byte sequences
  from the ends is what \<open>strings.TrimSpace\<close> does, on invalid UTF-8 too.
\<close>

definition space_seqs :: "string list" where
  "space_seqs =
     [[CHR 0x20], [CHR 0x09], [CHR 0x0A], [CHR 0x0B], [CHR 0x0C], [CHR 0x0D],
      [CHR 0xC2, CHR 0x85], [CHR 0xC2, CHR 0xA0], [CHR 0xE1, CHR 0x9A, CHR 0x80]]
     @ map (\<lambda>b. [CHR 0xE2, CHR 0x80, b])
         [CHR 0x80, CHR 0x81, CHR 0x82, CHR 0x83, CHR 0x84, CHR 0x85, CHR 0x86, CHR 0x87,
          CHR 0x88, CHR 0x89, CHR 0x8A, CHR 0xA8, CHR 0xA9, CHR 0xAF]
     @ [[CHR 0xE2, CHR 0x81, CHR 0x9F], [CHR 0xE3, CHR 0x80, CHR 0x80]]"

function strip_seqs :: "string list \<Rightarrow> string \<Rightarrow> string" where
  "strip_seqs ws s =
     (case List.find (\<lambda>w. w \<noteq> [] \<and> prefix w s) ws of
        None \<Rightarrow> s
      | Some w \<Rightarrow> strip_seqs ws (drop (length w) s))"
  by pat_completeness auto
termination
  by (relation "measure (\<lambda>(ws, s). length s)") (auto simp: find_Some_iff prefix_def)

declare strip_seqs.simps [simp del]

definition TrimLeftSpace :: "string \<Rightarrow> string" where
  "TrimLeftSpace s = strip_seqs space_seqs s"

definition TrimRightSpace :: "string \<Rightarrow> string" where
  "TrimRightSpace s = rev (strip_seqs (map rev space_seqs) (rev s))"

definition TrimSpace :: "string \<Rightarrow> string" where
  "TrimSpace s = TrimRightSpace (TrimLeftSpace s)"

text \<open>\<open>strings.ReplaceAll(s, c, "")\<close> for a pattern of one byte.\<close>

definition RemoveAll :: "char \<Rightarrow> string \<Rightarrow> string" where
  "RemoveAll c s = filter (\<lambda>x. x \<noteq> c) s"

section \<open>Formatting\<close>

text \<open>The verb \<open>%d\<close>.\<close>

fun nat_dec :: "nat \<Rightarrow> string" where
  "nat_dec n = (if n < 10 then [char_of (48 + n)] else nat_dec (n div 10) @ [char_of (48 + n mod 10)])"

declare nat_dec.simps [simp del]

definition int_dec :: "int \<Rightarrow> string" where
  "int_dec i = (if i < 0 then CHR ''-'' # nat_dec (nat (- i)) else nat_dec (nat i))"

abbreviation newline :: char where
  "newline \<equiv> CHR 0x0A"

section \<open>Facts\<close>

lemma HasPrefix_append [simp, go_str]: "HasPrefix (p @ s) p"
  by (simp add: HasPrefix_def)

lemma Index_SomeD:
  "Index s sub = Some i \<Longrightarrow>
     prefix sub (drop i s) \<and> i + length sub \<le> length s \<and> (\<forall>j<i. \<not> prefix sub (drop j s))"
proof (induction s arbitrary: i)
  case Nil
  then show ?case by (auto split: if_splits)
next
  case (Cons c s)
  show ?case
  proof (cases "prefix sub (c # s)")
    case True
    with Cons.prems show ?thesis by (auto dest: prefix_length_le)
  next
    case False
    with Cons.prems obtain k where k: "Index s sub = Some k" "i = Suc k" by auto
    from Cons.IH [OF k(1)] False k(2) show ?thesis
      by (auto simp: less_Suc_eq_0_disj)
  qed
qed

lemma Index_None_iff: "Index s sub = None \<longleftrightarrow> \<not> sublist sub s"
  by (induction s) (auto simp: sublist_Cons_right)

lemma Contains_iff: "Contains s sub \<longleftrightarrow> sublist sub s"
  by (simp add: Contains_def Index_None_iff)

lemma Index_Some_split:
  assumes "Index s sub = Some i"
  shows "s = take i s @ sub @ drop (i + length sub) s"
proof -
  from Index_SomeD [OF assms] have p: "prefix sub (drop i s)" by simp
  then have "drop i s = sub @ drop (length sub) (drop i s)"
    by (rule prefix_drop_length)
  then show ?thesis by (metis append_take_drop_id drop_drop add.commute)
qed

lemma strip_seqs_suffix: "suffix (strip_seqs ws s) s"
proof (induction ws s rule: strip_seqs.induct)
  case (1 ws s)
  show ?case
  proof (cases "List.find (\<lambda>w. w \<noteq> [] \<and> prefix w s) ws")
    case None
    then show ?thesis by (simp add: strip_seqs.simps [of ws s])
  next
    case (Some w)
    from "1.IH" [OF Some] have "suffix (strip_seqs ws (drop (length w) s)) s"
      by (rule suffix_order.trans) (rule suffix_drop)
    with Some show ?thesis by (simp add: strip_seqs.simps [of ws s])
  qed
qed

lemma strip_seqs_clean: "w \<in> set ws \<Longrightarrow> w \<noteq> [] \<Longrightarrow> \<not> prefix w (strip_seqs ws s)"
proof (induction ws s rule: strip_seqs.induct)
  case (1 ws s)
  show ?case
  proof (cases "List.find (\<lambda>w. w \<noteq> [] \<and> prefix w s) ws")
    case None
    then have "\<not> prefix w s" using "1.prems" by (auto simp: find_None_iff)
    with None show ?thesis by (simp add: strip_seqs.simps [of ws s])
  next
    case (Some v)
    from "1.IH" [OF Some] "1.prems" Some show ?thesis by (simp add: strip_seqs.simps [of ws s])
  qed
qed

lemma strip_seqs_id:
  assumes "\<And>w. w \<in> set ws \<Longrightarrow> w \<noteq> [] \<Longrightarrow> \<not> prefix w s"
  shows "strip_seqs ws s = s"
proof -
  have "List.find (\<lambda>w. w \<noteq> [] \<and> prefix w s) ws = None"
    using assms by (auto simp: find_None_iff)
  then show ?thesis by (simp add: strip_seqs.simps)
qed

lemma strip_seqs_step:
  assumes "w \<in> set ws" and "w \<noteq> []"
    and "\<And>u. u \<in> set ws \<Longrightarrow> prefix u (w @ s) \<Longrightarrow> u \<noteq> [] \<Longrightarrow> u = w"
  shows "strip_seqs ws (w @ s) = strip_seqs ws s"
proof -
  have "List.find (\<lambda>u. u \<noteq> [] \<and> prefix u (w @ s)) ws \<noteq> None"
    using assms(1,2) by (auto simp: find_None_iff)
  then obtain u where u: "List.find (\<lambda>u. u \<noteq> [] \<and> prefix u (w @ s)) ws = Some u" by auto
  then have "u \<in> set ws" "u \<noteq> []" "prefix u (w @ s)"
    by (auto simp: find_Some_iff)
  then have "u = w" using assms(3) by blast
  with u show ?thesis by (simp add: strip_seqs.simps [of ws "w @ s"])
qed

lemma length_strip_seqs: "length (strip_seqs ws s) \<le> length s"
  by (rule suffix_length_le) (rule strip_seqs_suffix)

lemma length_TrimSpace [simp]: "length (TrimSpace s) \<le> length s"
  unfolding TrimSpace_def TrimRightSpace_def TrimLeftSpace_def
  using length_strip_seqs [of "map rev space_seqs" "rev (strip_seqs space_seqs s)"]
    length_strip_seqs [of space_seqs s]
  by simp

lemma TrimRightSpace_prefix: "prefix (TrimRightSpace s) s"
  unfolding TrimRightSpace_def
  using strip_seqs_suffix [of "map rev space_seqs" "rev s"]
  by (simp add: suffix_to_prefix)

lemma space_seqs_nonempty: "w \<in> set space_seqs \<Longrightarrow> w \<noteq> []"
  by (auto simp: space_seqs_def)

lemma TrimLeftSpace_clean:
  "w \<in> set space_seqs \<Longrightarrow> \<not> prefix w (TrimLeftSpace s)"
  unfolding TrimLeftSpace_def by (rule strip_seqs_clean) (simp_all add: space_seqs_nonempty)

lemma TrimSpace_clean_left: "w \<in> set space_seqs \<Longrightarrow> \<not> prefix w (TrimSpace s)"
  unfolding TrimSpace_def
  using TrimLeftSpace_clean TrimRightSpace_prefix prefix_order.trans by blast

lemma TrimSpace_clean_right: "w \<in> set space_seqs \<Longrightarrow> \<not> suffix w (TrimSpace s)"
  unfolding TrimSpace_def TrimRightSpace_def
  using strip_seqs_clean [of "rev w" "map rev space_seqs"] space_seqs_nonempty [of w]
  by (simp add: suffix_to_prefix)

lemma TrimSpace_id:
  assumes "\<And>w. w \<in> set space_seqs \<Longrightarrow> \<not> prefix w s \<and> \<not> suffix w s"
  shows "TrimSpace s = s"
proof -
  have "strip_seqs space_seqs s = s" using assms by (intro strip_seqs_id) auto
  moreover have "strip_seqs (map rev space_seqs) (rev s) = rev s"
    using assms by (intro strip_seqs_id) (auto simp: suffix_to_prefix)
  ultimately show ?thesis
    by (simp add: TrimSpace_def TrimLeftSpace_def TrimRightSpace_def)
qed

lemma TrimSpace_idem [simp]: "TrimSpace (TrimSpace s) = TrimSpace s"
  by (rule TrimSpace_id) (simp add: TrimSpace_clean_left TrimSpace_clean_right)

text \<open>One leading white space rune more does not change the result.\<close>

lemma space_seqs_prefix_free:
  assumes "u \<in> set space_seqs" and "w \<in> set space_seqs" and "prefix u (w @ s)"
  shows "u = w"
proof -
  have "prefix u w \<or> prefix w u"
    using assms(3) prefix_same_cases [of u "w @ s" w] by simp
  moreover have "list_all (\<lambda>u. list_all (\<lambda>w. (prefix u w \<or> prefix w u) \<longrightarrow> u = w) space_seqs) space_seqs"
    by code_simp
  ultimately show ?thesis using assms(1,2) by (auto simp: list_all_iff)
qed

lemma TrimSpace_space: "w \<in> set space_seqs \<Longrightarrow> TrimSpace (w @ s) = TrimSpace s"
  unfolding TrimSpace_def TrimLeftSpace_def
  by (subst strip_seqs_step) (auto intro: space_seqs_prefix_free dest: space_seqs_nonempty)

lemma TrimSpace_blank [simp]: "TrimSpace (CHR '' '' # s) = TrimSpace s"
  using TrimSpace_space [of "[CHR '' '']" s] by (simp add: space_seqs_def)

lemma Split_nonempty [simp]: "Split s sep \<noteq> []"
  by (induction s) (auto split: list.splits)

lemma Split_no_sep: "w \<in> set (Split s sep) \<Longrightarrow> sep \<notin> set w"
  by (induction s arbitrary: w) (auto split: list.splits if_splits)

lemma Split_Join: "Join (Split s sep) [sep] = s"
proof (induction s)
  case Nil
  then show ?case by simp
next
  case (Cons c s)
  then show ?case
    by (cases "Split s sep") (auto, (cases "tl (Split s sep)"; auto)+)
qed

section \<open>Evaluation by the simplifier\<close>

text \<open>The letters, so that concrete strings are computed without arithmetic on characters.\<close>

lemma ascii_up_letters [go_str]:
  "ascii_up CHR ''a'' = CHR ''A''" "ascii_up CHR ''b'' = CHR ''B''"
  "ascii_up CHR ''c'' = CHR ''C''" "ascii_up CHR ''d'' = CHR ''D''"
  "ascii_up CHR ''e'' = CHR ''E''" "ascii_up CHR ''f'' = CHR ''F''"
  "ascii_up CHR ''g'' = CHR ''G''" "ascii_up CHR ''h'' = CHR ''H''"
  "ascii_up CHR ''i'' = CHR ''I''" "ascii_up CHR ''j'' = CHR ''J''"
  "ascii_up CHR ''k'' = CHR ''K''" "ascii_up CHR ''l'' = CHR ''L''"
  "ascii_up CHR ''m'' = CHR ''M''" "ascii_up CHR ''n'' = CHR ''N''"
  "ascii_up CHR ''o'' = CHR ''O''" "ascii_up CHR ''p'' = CHR ''P''"
  "ascii_up CHR ''q'' = CHR ''Q''" "ascii_up CHR ''r'' = CHR ''R''"
  "ascii_up CHR ''s'' = CHR ''S''" "ascii_up CHR ''t'' = CHR ''T''"
  "ascii_up CHR ''u'' = CHR ''U''" "ascii_up CHR ''v'' = CHR ''V''"
  "ascii_up CHR ''w'' = CHR ''W''" "ascii_up CHR ''x'' = CHR ''X''"
  "ascii_up CHR ''y'' = CHR ''Y''" "ascii_up CHR ''z'' = CHR ''Z''"
  by (simp_all add: ascii_up_def in_range_def byte_def char_of_def bit_0)

lemma ascii_low_letters [go_str]:
  "ascii_low CHR ''A'' = CHR ''a''" "ascii_low CHR ''B'' = CHR ''b''"
  "ascii_low CHR ''C'' = CHR ''c''" "ascii_low CHR ''D'' = CHR ''d''"
  "ascii_low CHR ''E'' = CHR ''e''" "ascii_low CHR ''F'' = CHR ''f''"
  "ascii_low CHR ''G'' = CHR ''g''" "ascii_low CHR ''H'' = CHR ''h''"
  "ascii_low CHR ''I'' = CHR ''i''" "ascii_low CHR ''J'' = CHR ''j''"
  "ascii_low CHR ''K'' = CHR ''k''" "ascii_low CHR ''L'' = CHR ''l''"
  "ascii_low CHR ''M'' = CHR ''m''" "ascii_low CHR ''N'' = CHR ''n''"
  "ascii_low CHR ''O'' = CHR ''o''" "ascii_low CHR ''P'' = CHR ''p''"
  "ascii_low CHR ''Q'' = CHR ''q''" "ascii_low CHR ''R'' = CHR ''r''"
  "ascii_low CHR ''S'' = CHR ''s''" "ascii_low CHR ''T'' = CHR ''t''"
  "ascii_low CHR ''U'' = CHR ''u''" "ascii_low CHR ''V'' = CHR ''v''"
  "ascii_low CHR ''W'' = CHR ''w''" "ascii_low CHR ''X'' = CHR ''x''"
  "ascii_low CHR ''Y'' = CHR ''y''" "ascii_low CHR ''Z'' = CHR ''z''"
  by (simp_all add: ascii_low_def in_range_def byte_def char_of_def bit_0)

lemma ascii_case_other [go_str]:
  "\<not> in_range CHR ''a'' CHR ''z'' c \<Longrightarrow> ascii_up c = c"
  "\<not> in_range CHR ''A'' CHR ''Z'' c \<Longrightarrow> ascii_low c = c"
  by (simp_all add: ascii_up_def ascii_low_def)

lemma in_range_code [go_str]: "in_range lo hi c \<longleftrightarrow> (of_char lo :: nat) \<le> of_char c \<and> (of_char c :: nat) \<le> of_char hi"
  by (simp add: in_range_def byte_def)

lemma is_ascii_code [go_str]: "is_ascii [] = True" "is_ascii (c # s) \<longleftrightarrow> (of_char c :: nat) < 128 \<and> is_ascii s"
  by (simp_all add: is_ascii_def byte_def)

lemma ToUpper_ascii [go_str]: "is_ascii s \<Longrightarrow> ToUpper s = map ascii_up s"
  by (simp add: ToUpper_def)

lemma ToLower_ascii [go_str]: "is_ascii s \<Longrightarrow> ToLower s = map ascii_low s"
  by (simp add: ToLower_def)

lemmas trim_eval = TrimSpace_def TrimLeftSpace_def TrimRightSpace_def space_seqs_def strip_seqs.simps

lemmas dec_eval = int_dec_def nat_dec.simps char_of_def bit_0

section \<open>Decimal numerals read back\<close>

definition is_digit :: "char \<Rightarrow> bool" where
  "is_digit c \<longleftrightarrow> 48 \<le> byte c \<and> byte c \<le> 57"

definition dec_val :: "string \<Rightarrow> nat" where
  "dec_val s = foldl (\<lambda>a c. 10 * a + (byte c - 48)) 0 s"

lemma byte_lt: "byte c < 256"
  by (simp add: byte_def)

lemma char_of_byte: "char_of (byte c) = c"
  by (simp add: byte_def)

lemma byte_char_of: "n < 256 \<Longrightarrow> byte (char_of (n :: nat)) = n"
  by (simp add: byte_def of_char_of)

lemma byte_digit: "n < 10 \<Longrightarrow> byte (char_of (48 + n :: nat)) = 48 + n"
  by (simp add: byte_char_of)

lemma is_digit_char: "n < 10 \<Longrightarrow> is_digit (char_of (48 + n :: nat))"
  by (simp add: is_digit_def byte_digit)

lemma nat_dec_digits: "list_all is_digit (nat_dec n)"
proof (induction n rule: nat_dec.induct)
  case (1 n)
  have "n mod 10 < 10" by simp
  then show ?case
    using 1 by (subst nat_dec.simps) (auto simp: is_digit_char)
qed

lemma nat_dec_nonempty [simp]: "nat_dec n \<noteq> []"
  by (subst nat_dec.simps) simp

lemma dec_val_nat_dec [simp]: "dec_val (nat_dec n) = n"
proof (induction n rule: nat_dec.induct)
  case (1 n)
  have d: "n mod 10 < 10" by simp
  show ?case
    using 1 byte_digit [of n] byte_digit [OF d]
    by (subst nat_dec.simps) (auto simp: dec_val_def)
qed

lemma nat_dec_inj: "nat_dec m = nat_dec n \<longleftrightarrow> m = n"
  by (metis dec_val_nat_dec)

lemma minus_not_digit: "\<not> is_digit CHR ''-''"
  by (simp add: is_digit_def byte_def)

lemma int_dec_inj: "int_dec i = int_dec j \<longleftrightarrow> i = j"
proof -
  have "CHR ''-'' # xs \<noteq> nat_dec n" for xs n
    using nat_dec_digits [of n] minus_not_digit by (cases "nat_dec n") auto
  then show ?thesis by (auto simp: int_dec_def nat_dec_inj split: if_splits dest: sym)
qed

end
