(* ===== verification/Rbac.thy ===== *)
theory Rbac
  imports Go_Strings
begin

text \<open>
  The role lattice of \<open>internal/rbac/roles.go\<close>: the level of each role name, the check
  \<open>MinRole\<close> and the four role predicates. A role is the string the token carries; a
  string outside \<open>RoleOrder\<close> has no level.
\<close>

definition RoleOrder :: "string \<Rightarrow> nat option" where
  "RoleOrder r =
     (if r = ''read_only_visitor'' then Some 1
      else if r = ''normal_user'' then Some 2
      else if r = ''data_admin'' then Some 3
      else if r = ''super_admin'' then Some 4
      else None)"

text \<open>A map read without the second result: Go returns the zero value for a missing key.\<close>

definition role_level :: "string \<Rightarrow> nat" where
  "role_level r = (case RoleOrder r of None \<Rightarrow> 0 | Some l \<Rightarrow> l)"

definition MinRole :: "string \<Rightarrow> string \<Rightarrow> bool" where
  "MinRole required userRole =
     (case RoleOrder required of
        None \<Rightarrow> False
      | Some requiredLevel \<Rightarrow>
          (case RoleOrder userRole of
             None \<Rightarrow> False
           | Some userLevel \<Rightarrow> requiredLevel \<le> userLevel))"

definition IsSuperAdmin :: "string \<Rightarrow> bool" where
  "IsSuperAdmin role \<longleftrightarrow> role = ''super_admin''"

definition IsDataAdmin :: "string \<Rightarrow> bool" where
  "IsDataAdmin role \<longleftrightarrow> role = ''data_admin''"

definition IsNormalUser :: "string \<Rightarrow> bool" where
  "IsNormalUser role \<longleftrightarrow> role = ''normal_user''"

definition IsReadOnlyVisitor :: "string \<Rightarrow> bool" where
  "IsReadOnlyVisitor role \<longleftrightarrow> role = ''read_only_visitor''"

lemma RoleOrder_simps [simp]:
  "RoleOrder ''read_only_visitor'' = Some 1"
  "RoleOrder ''normal_user'' = Some 2"
  "RoleOrder ''data_admin'' = Some 3"
  "RoleOrder ''super_admin'' = Some 4"
  by (simp_all add: RoleOrder_def)

lemma role_level_simps [simp]:
  "role_level ''read_only_visitor'' = 1"
  "role_level ''normal_user'' = 2"
  "role_level ''data_admin'' = 3"
  "role_level ''super_admin'' = 4"
  "role_level '''' = 0"
  by (simp_all add: role_level_def) (simp add: RoleOrder_def)

lemma RoleOrder_range: "RoleOrder r = Some l \<Longrightarrow> 1 \<le> l \<and> l \<le> 4"
  by (auto simp: RoleOrder_def split: if_splits)

lemma RoleOrder_inj: "RoleOrder r = Some l \<Longrightarrow> RoleOrder r' = Some l \<Longrightarrow> r = r'"
  by (auto simp: RoleOrder_def split: if_splits)

lemma MinRole_level:
  "MinRole required r \<longleftrightarrow> RoleOrder required \<noteq> None \<and> role_level required \<le> role_level r"
  by (auto simp: MinRole_def role_level_def split: option.splits dest: RoleOrder_range)

lemma MinRole_mono: "MinRole required r \<Longrightarrow> role_level r \<le> role_level r' \<Longrightarrow> MinRole required r'"
  by (auto simp: MinRole_level)

lemma MinRole_super_admin: "MinRole ''super_admin'' r \<longleftrightarrow> r = ''super_admin''"
  by (auto simp: MinRole_def RoleOrder_def split: option.splits if_splits)

lemma MinRole_data_admin: "MinRole ''data_admin'' r \<longleftrightarrow> IsDataAdmin r \<or> IsSuperAdmin r"
  by (auto simp: MinRole_def IsDataAdmin_def IsSuperAdmin_def RoleOrder_def split: option.splits if_splits)

end
