(* ===== verification/Http.thy ===== *)
theory Http
  imports Go_Strings
begin

text \<open>
  HTTP responses and JSON values. \<open>JSON\<close> and \<open>errJSON\<close> are the two functions every
  handler answers with (\<open>internal/handlers/handlers.go\<close>). A Go \<open>map[string]any\<close> is
  the list of its entries; \<open>encoding/json\<close> sorts the keys when it writes it, so the order of
  the list carries no meaning.
\<close>

datatype json =
    JNull
  | JBool bool
  | JInt int
  | JStr string
  | JArr "json list"
  | JObj "(string \<times> json) list"
  | JRaw string

record response =
  status :: nat
  body :: json

definition JSON :: "nat \<Rightarrow> json \<Rightarrow> response" where
  "JSON st v = \<lparr>status = st, body = v\<rparr>"

definition errJSON :: "nat \<Rightarrow> string \<Rightarrow> response" where
  "errJSON st msg = JSON st (JObj [(''error'', JStr msg)])"

text \<open>A slice that was never appended to is \<open>nil\<close>, which is written as \<open>null\<close>.\<close>

definition json_slice :: "json list \<Rightarrow> json" where
  "json_slice xs = (if xs = [] then JNull else JArr xs)"

abbreviation "StatusOK \<equiv> (200 :: nat)"
abbreviation "StatusCreated \<equiv> (201 :: nat)"
abbreviation "StatusAccepted \<equiv> (202 :: nat)"
abbreviation "StatusBadRequest \<equiv> (400 :: nat)"
abbreviation "StatusUnauthorized \<equiv> (401 :: nat)"
abbreviation "StatusForbidden \<equiv> (403 :: nat)"
abbreviation "StatusNotFound \<equiv> (404 :: nat)"
abbreviation "StatusConflict \<equiv> (409 :: nat)"
abbreviation "StatusTooManyRequests \<equiv> (429 :: nat)"
abbreviation "StatusInternalServerError \<equiv> (500 :: nat)"
abbreviation "StatusBadGateway \<equiv> (502 :: nat)"
abbreviation "StatusServiceUnavailable \<equiv> (503 :: nat)"

lemma status_JSON [simp]: "status (JSON st v) = st" "body (JSON st v) = v"
  by (simp_all add: JSON_def)

lemma status_errJSON [simp]: "status (errJSON st msg) = st"
  by (simp add: errJSON_def)

lemma JSON_eq [simp]: "JSON st v = JSON st' v' \<longleftrightarrow> st = st' \<and> v = v'"
  by (auto simp: JSON_def)

lemma errJSON_eq [simp]: "errJSON st msg = errJSON st' msg' \<longleftrightarrow> st = st' \<and> msg = msg'"
  by (auto simp: errJSON_def)

text \<open>\<open>encoding/json\<close> writes a \<open>[]byte\<close> in standard base64.\<close>

definition base64_char :: "nat \<Rightarrow> char" where
  "base64_char n =
     (if n < 26 then char_of (65 + n) else if n < 52 then char_of (71 + n)
      else if n < 62 then char_of (n - 4) else if n = 62 then CHR ''+'' else CHR ''/'')"

fun base64 :: "string \<Rightarrow> string" where
  "base64 [] = []"
| "base64 [a] = [base64_char (byte a div 4), base64_char (byte a mod 4 * 16), CHR ''='', CHR ''='']"
| "base64 [a, b] =
     [base64_char (byte a div 4), base64_char (byte a mod 4 * 16 + byte b div 16), base64_char (byte b mod 16 * 4), CHR ''='']"
| "base64 (a # b # c # s) =
     base64_char (byte a div 4) # base64_char (byte a mod 4 * 16 + byte b div 16)
     # base64_char (byte b mod 16 * 4 + byte c div 64) # base64_char (byte c mod 64) # base64 s"

section \<open>Times\<close>

text \<open>
  \<open>t.UTC().Format(time.RFC3339)\<close> of a time given in seconds since 1970, for the years 0 to
  9999, which are those MySQL's \<open>DATETIME\<close> holds.
\<close>

definition civil_from_days :: "int \<Rightarrow> int \<times> int \<times> int" where
  "civil_from_days z0 =
     (let z = z0 + 719468;
          era = z div 146097;
          doe = z mod 146097;
          yoe = (doe - doe div 1460 + doe div 36524 - doe div 146096) div 365;
          doy = doe - (365 * yoe + yoe div 4 - yoe div 100);
          mp = (5 * doy + 2) div 153;
          d = doy - (153 * mp + 2) div 5 + 1;
          m = (if mp < 10 then mp + 3 else mp - 9)
      in (yoe + era * 400 + (if m \<le> 2 then 1 else 0), m, d))"

definition pad_dec :: "nat \<Rightarrow> int \<Rightarrow> string" where
  "pad_dec w n = (let s = int_dec n in replicate (w - length s) CHR ''0'' @ s)"

definition rfc3339 :: "int \<Rightarrow> string" where
  "rfc3339 t =
     (case civil_from_days (t div 86400) of
        (y, m, d) \<Rightarrow>
          pad_dec 4 y @ ''-'' @ pad_dec 2 m @ ''-'' @ pad_dec 2 d @ ''T''
          @ pad_dec 2 (t mod 86400 div 3600) @ '':'' @ pad_dec 2 (t mod 3600 div 60) @ '':''
          @ pad_dec 2 (t mod 60) @ ''Z'')"

end
