(* ===== verification/Auth.thy ===== *)
theory Auth
  imports Rbac Http
begin

text \<open>
  Tokens and the authentication middleware: \<open>internal/auth/jwt.go\<close>,
  \<open>internal/auth/revoke.go\<close>, \<open>internal/middleware/middleware.go\<close>,
  \<open>internal/middleware/requestlog.go\<close> and \<open>internal/llm/redact.go\<close>.

  The packages \<open>golang-jwt\<close> and \<open>go-redis\<close> are parameters. \<open>jwtlib\<close> has
  the three services \<open>jwt.go\<close> uses: signing a payload with HS256, splitting a token into its
  method and payload, and checking the signature. What the library then does with the decoded
  claims (\<open>exp\<close> and \<open>nbf\<close> are compared with the clock, in this order after the
  signature) is written out. The clock counts nanoseconds, as \<open>time.Now\<close> does; the times in
  a token are seconds.
\<close>

record Claims =
  UserID :: string
  WorkspaceID :: string
  Role :: string
  ExpiresAt :: "int option"
  NotBefore :: "int option"
  IssuedAt :: "int option"
  ID :: string
  Subject :: string

abbreviation "Second \<equiv> (1000000000 :: int)"
abbreviation "Hour \<equiv> 3600 * Second"

definition NewNumericDate :: "int \<Rightarrow> int" where
  "NewNumericDate t = t div Second"

section \<open>Claims as JSON\<close>

text \<open>
  \<open>encoding/json\<close> on \<open>Claims\<close>. The field \<open>UserID\<close> and the embedded
  \<open>RegisteredClaims.Subject\<close> both carry the key \<open>sub\<close>; the shallower one wins, so
  \<open>Subject\<close> is neither written nor read. The embedded fields are \<open>omitempty\<close>; \<open>iss\<close> and \<open>aud\<close>,
  which the hub neither sets nor looks at, are only checked for their types.
\<close>

definition opt_field :: "string \<Rightarrow> int option \<Rightarrow> (string \<times> json) list" where
  "opt_field k v = (case v of None \<Rightarrow> [] | Some n \<Rightarrow> [(k, JInt n)])"

definition claims_json :: "Claims \<Rightarrow> json" where
  "claims_json c =
     JObj ([(''sub'', JStr (UserID c)), (''wid'', JStr (WorkspaceID c)), (''role'', JStr (Role c))]
           @ opt_field ''exp'' (ExpiresAt c) @ opt_field ''nbf'' (NotBefore c)
           @ opt_field ''iat'' (IssuedAt c)
           @ (if ID c = [] then [] else [(''jti'', JStr (ID c))]))"

text \<open>
  Reading: a key is compared with a field's name without regard to case, the values of a repeated
  key are assigned one after the other, \<open>null\<close> leaves a string as it is and makes a date absent, and
  a value of another type is an error. Dates are whole seconds here; the library also takes fractions.
\<close>

definition fold_name :: "string \<Rightarrow> string" where
  "fold_name k = ToUpper (ToLower k)"

definition field_values :: "(string \<times> json) list \<Rightarrow> string \<Rightarrow> json list" where
  "field_values kvs k = map snd (filter (\<lambda>kv. fold_name (fst kv) = fold_name k) kvs)"

definition claims_type_error :: string where
  "claims_type_error = ''token is malformed: could not JSON decode claim: json: cannot unmarshal into Go struct field Claims''"

fun read_strs :: "string \<Rightarrow> json list \<Rightarrow> string res" where
  "read_strs s [] = Inr s"
| "read_strs s (JNull # vs) = read_strs s vs"
| "read_strs s (JStr s' # vs) = read_strs s' vs"
| "read_strs s (v # vs) = Inl claims_type_error"

fun read_dates :: "int option \<Rightarrow> json list \<Rightarrow> int option res" where
  "read_dates d [] = Inr d"
| "read_dates d (JNull # vs) = read_dates None vs"
| "read_dates d (JInt n # vs) = read_dates (Some n) vs"
| "read_dates d (v # vs) = Inl claims_type_error"

definition audience_ok :: "json \<Rightarrow> bool" where
  "audience_ok v =
     (case v of JNull \<Rightarrow> True | JStr _ \<Rightarrow> True
      | JArr vs \<Rightarrow> list_all (\<lambda>x. case x of JStr _ \<Rightarrow> True | _ \<Rightarrow> False) vs
      | _ \<Rightarrow> False)"

definition claims_of_json :: "json \<Rightarrow> Claims res" where
  "claims_of_json j =
     (case j of
        JObj kvs \<Rightarrow>
          (case (read_strs [] (field_values kvs ''sub''), read_strs [] (field_values kvs ''wid''), read_strs [] (field_values kvs ''role''),
                 read_strs [] (field_values kvs ''jti''), read_strs [] (field_values kvs ''iss''),
                 read_dates None (field_values kvs ''exp''), read_dates None (field_values kvs ''nbf''), read_dates None (field_values kvs ''iat'')) of
             (Inr u, Inr w, Inr r, Inr i, Inr _, Inr ex, Inr nb, Inr ia) \<Rightarrow>
               if \<not> list_all audience_ok (field_values kvs ''aud'') then Inl claims_type_error
               else Inr \<lparr>UserID = u, WorkspaceID = w, Role = r, ExpiresAt = ex, NotBefore = nb, IssuedAt = ia,
                         ID = i, Subject = []\<rparr>
           | _ \<Rightarrow> Inl claims_type_error)
      | _ \<Rightarrow> Inl claims_type_error)"

section \<open>Signing and parsing\<close>

datatype jwt_method = SigningMethodHMAC | OtherMethod string

record jwtlib =
  jl_sign :: "string \<Rightarrow> json \<Rightarrow> string res"
  jl_decode :: "string \<Rightarrow> (jwt_method \<times> json) res"
  jl_verify :: "string \<Rightarrow> string \<Rightarrow> bool"

text \<open>What \<open>jwt.go\<close> relies on: a signed token decodes to its payload and verifies.\<close>

definition jwt_law :: "jwtlib \<Rightarrow> bool" where
  "jwt_law L \<longleftrightarrow>
     (\<forall>key payload tok. jl_sign L key payload = Inr tok \<longrightarrow>
        jl_decode L tok = Inr (SigningMethodHMAC, payload) \<and> jl_verify L key tok)"

definition Sign :: "jwtlib \<Rightarrow> int \<Rightarrow> string \<Rightarrow> string \<Rightarrow> string \<Rightarrow> string \<Rightarrow> string \<Rightarrow> int \<Rightarrow> string res" where
  "Sign L now newID secret userID workspaceID role ttl =
     jl_sign L secret (claims_json
       \<lparr>UserID = userID, WorkspaceID = workspaceID, Role = role,
        ExpiresAt = Some (NewNumericDate (now + ttl)), NotBefore = None,
        IssuedAt = Some (NewNumericDate now), ID = newID, Subject = []\<rparr>)"

definition SignSSEToken :: "jwtlib \<Rightarrow> int \<Rightarrow> string \<Rightarrow> string \<Rightarrow> string \<Rightarrow> string \<Rightarrow> string \<Rightarrow> string res" where
  "SignSSEToken L now newID secret userID workspaceID sessionID =
     jl_sign L secret (claims_json
       \<lparr>UserID = userID, WorkspaceID = workspaceID, Role = ''viewer'',
        ExpiresAt = Some (NewNumericDate (now + 1 * Hour)), NotBefore = None,
        IssuedAt = Some (NewNumericDate now), ID = newID, Subject = sessionID\<rparr>)"

text \<open>The library joins the complaints about the times and wraps each kind of error.\<close>

definition time_errors :: "int \<Rightarrow> Claims \<Rightarrow> string list" where
  "time_errors now c =
     (case ExpiresAt c of None \<Rightarrow> [] | Some ex \<Rightarrow> if now < ex * Second then [] else [''token is expired''])
     @ (case NotBefore c of None \<Rightarrow> [] | Some nb \<Rightarrow> if now < nb * Second then [''token is not valid yet''] else [])"

definition validate_times :: "int \<Rightarrow> Claims \<Rightarrow> err" where
  "validate_times now c =
     (if time_errors now c = [] then None else Some (''token has invalid claims: '' @ Join (time_errors now c) '', ''))"

definition Parse :: "jwtlib \<Rightarrow> int \<Rightarrow> string \<Rightarrow> string \<Rightarrow> Claims res" where
  "Parse L now secret token =
     (case jl_decode L token of
        Inl e \<Rightarrow> Inl e
      | Inr (meth, payload) \<Rightarrow>
          (case claims_of_json payload of
             Inl e \<Rightarrow> Inl e
           | Inr c \<Rightarrow>
               if meth \<noteq> SigningMethodHMAC
               then Inl ''token is unverifiable: error while executing keyfunc: unexpected signing method''
               else if \<not> jl_verify L secret token then Inl ''token signature is invalid: signature is invalid''
               else (case validate_times now c of Some e \<Rightarrow> Inl e | None \<Rightarrow> Inr c)))"

section \<open>Revocation\<close>

text \<open>
  The Redis commands \<open>SET key value EX ttl\<close> and \<open>EXISTS key\<close> are the parameters
  \<open>rset\<close> and \<open>rexists\<close>; \<open>'r\<close> is the state of Redis. A \<open>nil\<close> client is
  \<open>None\<close>. The second result of \<open>IsRevoked\<close> is the error.
\<close>

definition revoked_key :: "string \<Rightarrow> string" where
  "revoked_key jti = ''jwt:revoked:'' @ jti"

definition RevokeJWT :: "(string \<Rightarrow> string \<Rightarrow> int \<Rightarrow> 'r \<Rightarrow> err \<times> 'r) \<Rightarrow> string \<Rightarrow> int \<Rightarrow> 'r \<Rightarrow> err \<times> 'r" where
  "RevokeJWT rset jti ttl rdb = rset (revoked_key jti) ''1'' ttl rdb"

definition IsRevoked :: "(string \<Rightarrow> 'r \<Rightarrow> nat res) \<Rightarrow> 'r option \<Rightarrow> string \<Rightarrow> bool \<times> err" where
  "IsRevoked rexists rdb jti =
     (case rdb of
        None \<Rightarrow> (False, None)
      | Some rd \<Rightarrow>
          (case rexists (revoked_key jti) rd of
             Inl e \<Rightarrow> (False, Some e)
           | Inr n \<Rightarrow> (0 < n, None)))"

section \<open>Middleware\<close>

record http_auth =
  hdr_authorization :: string
  query_token :: string

text \<open>\<open>http.Error\<close> writes its text and a newline.\<close>

definition http_Error :: "string \<Rightarrow> nat \<Rightarrow> response" where
  "http_Error msg code = \<lparr>status = code, body = JRaw (msg @ [newline])\<rparr>"

definition bearer_token :: "http_auth \<Rightarrow> string" where
  "bearer_token r =
     (let h = hdr_authorization r;
          raw = if HasPrefix (ToLower h) ''bearer '' then TrimSpace (drop 7 h) else []
      in if raw = [] then query_token r else raw)"

definition unauthorized :: response where
  "unauthorized = http_Error ''{\"error\":\"unauthorized\"}'' StatusUnauthorized"

definition Auth ::
  "jwtlib \<Rightarrow> int \<Rightarrow> string \<Rightarrow> (string \<Rightarrow> 'r \<Rightarrow> nat res) \<Rightarrow> 'r option \<Rightarrow> http_auth \<Rightarrow> response + Claims" where
  "Auth L now JWTSecret rexists rdb r =
     (let raw = bearer_token r in
      if raw = [] then Inl unauthorized
      else (case Parse L now JWTSecret raw of
              Inl _ \<Rightarrow> Inl unauthorized
            | Inr c \<Rightarrow>
                if rdb \<noteq> None \<and> ID c \<noteq> [] then
                  (case IsRevoked rexists rdb (ID c) of
                     (_, Some _) \<Rightarrow> Inr c
                   | (revoked, None) \<Rightarrow>
                       if revoked then Inl (http_Error ''{\"error\":\"token revoked\"}'' StatusUnauthorized)
                       else Inr c)
                else Inr c))"

text \<open>\<open>None\<close> lets the request through.\<close>

definition RequireMinRole :: "string \<Rightarrow> Claims option \<Rightarrow> response option" where
  "RequireMinRole minRole co =
     (case co of
        None \<Rightarrow> Some (http_Error ''{\"error\":\"forbidden\"}'' StatusForbidden)
      | Some c \<Rightarrow>
          if \<not> MinRole minRole (Role c) then Some (http_Error ''{\"error\":\"forbidden\"}'' StatusForbidden)
          else None)"

definition TraceID :: "string \<Rightarrow> string option \<Rightarrow> string \<Rightarrow> string" where
  "TraceID header span newID =
     (let tid = header;
          tid = (if tid = [] then (case span of None \<Rightarrow> tid | Some s \<Rightarrow> s) else tid)
      in if tid = [] then newID else tid)"

definition RedactAuthHeader :: "string \<Rightarrow> string" where
  "RedactAuthHeader s =
     (if s = [] then []
      else if length s < 20 then ''***''
      else take 8 s @ ''***'' @ drop (length s - 4) s)"

definition RedactAPIKey :: "string \<Rightarrow> string" where
  "RedactAPIKey s0 =
     (let s = TrimSpace s0 in
      if length s \<le> 8 then ''***'' else take 4 s @ ''***'' @ drop (length s - 2) s)"

text \<open>The authorization field of the request log.\<close>

definition RequestLog_auth :: "string \<Rightarrow> string" where
  "RequestLog_auth h = (if h \<noteq> [] then RedactAuthHeader h else h)"

section \<open>Lemmas\<close>

lemma fold_names:
  "fold_name ''sub'' = ''SUB''" "fold_name ''wid'' = ''WID''" "fold_name ''role'' = ''ROLE''" "fold_name ''jti'' = ''JTI''"
  "fold_name ''iss'' = ''ISS''" "fold_name ''exp'' = ''EXP''" "fold_name ''nbf'' = ''NBF''" "fold_name ''iat'' = ''IAT''"
  "fold_name ''aud'' = ''AUD''"
  by (simp_all add: fold_name_def go_str)

lemma claims_round_trip:
  "claims_of_json (claims_json c) = Inr (c\<lparr>Subject := []\<rparr>)"
  by (cases "ExpiresAt c"; cases "NotBefore c"; cases "IssuedAt c")
     (simp_all add: claims_of_json_def claims_json_def field_values_def fold_names opt_field_def)

lemma jwt_law_sign:
  assumes "jwt_law L" and "jl_sign L key (claims_json c) = Inr tok"
  shows "Parse L now key tok = (case validate_times now (c\<lparr>Subject := []\<rparr>) of Some e \<Rightarrow> Inl e | None \<Rightarrow> Inr (c\<lparr>Subject := []\<rparr>))"
  using assms by (simp add: Parse_def jwt_law_def claims_round_trip)

lemma Parse_verified:
  assumes "Parse L now secret tok = Inr c"
  shows "\<exists>payload. jl_decode L tok = Inr (SigningMethodHMAC, payload) \<and> jl_verify L secret tok
            \<and> claims_of_json payload = Inr c \<and> validate_times now c = None"
  using assms by (auto simp: Parse_def split: sum.splits prod.splits if_splits option.splits)

lemma validate_times_None:
  "validate_times now c = None \<longleftrightarrow>
     (\<forall>ex. ExpiresAt c = Some ex \<longrightarrow> now < ex * Second) \<and> (\<forall>nb. NotBefore c = Some nb \<longrightarrow> nb * Second \<le> now)"
  by (auto simp: validate_times_def time_errors_def split: option.splits if_splits)

lemma MinRole_viewer: "\<not> MinRole r ''viewer''"
  by (simp add: MinRole_def RoleOrder_def split: option.splits)

lemma RequireMinRole_None_iff:
  "RequireMinRole minRole co = None \<longleftrightarrow> (\<exists>c. co = Some c \<and> MinRole minRole (Role c))"
  by (auto simp: RequireMinRole_def split: option.splits)

lemma RequireMinRole_Some: "RequireMinRole minRole co = Some r \<Longrightarrow> status r = StatusForbidden"
  by (auto simp: RequireMinRole_def http_Error_def split: option.splits if_splits)

lemma Auth_Inl: "Auth L now secret rexists rdb r = Inl resp \<Longrightarrow> status resp = StatusUnauthorized"
  by (auto simp: Auth_def unauthorized_def http_Error_def Let_def split: sum.splits if_splits prod.splits option.splits)

lemma Auth_Inr_Parse: "Auth L now secret rexists rdb r = Inr c \<Longrightarrow> Parse L now secret (bearer_token r) = Inr c"
  by (auto simp: Auth_def Let_def split: sum.splits if_splits prod.splits option.splits)

lemma bearer_token_header:
  "bearer_token \<lparr>hdr_authorization = h, query_token = []\<rparr> =
     (if HasPrefix (ToLower h) ''bearer '' then TrimSpace (drop 7 h) else [])"
  by (simp add: bearer_token_def Let_def)

lemma redact_length: "length (RedactAuthHeader s) \<le> 15 \<and> length (RedactAPIKey s) \<le> 9"
  by (auto simp: RedactAuthHeader_def RedactAPIKey_def Let_def)

section \<open>Properties\<close>

text \<open>
  C17. Tokens round trip. Under the library's law, a token made by \<open>Sign\<close> parses with the
  same secret to exactly the identity and role it was issued for, until the second in which it
  expires, and is refused as expired from then on.
\<close>

theorem Sign_Parse:
  assumes "jwt_law L" and "Sign L issued newID secret uid wid role ttl = Inr tok"
  shows "Parse L now secret tok =
           (if now < (issued + ttl) div Second * Second
            then Inr \<lparr>UserID = uid, WorkspaceID = wid, Role = role,
                      ExpiresAt = Some ((issued + ttl) div Second), NotBefore = None,
                      IssuedAt = Some (issued div Second), ID = newID, Subject = []\<rparr>
            else Inl ''token has invalid claims: token is expired'')"
  using jwt_law_sign [OF assms(1) assms(2) [unfolded Sign_def], of now]
  by (simp add: validate_times_def time_errors_def NewNumericDate_def)

definition demo_jwt :: "json \<Rightarrow> jwtlib" where
  "demo_jwt p =
     \<lparr>jl_sign = (\<lambda>key q. if key = ''k'' \<and> q = p then Inr ''tok'' else Inl ''unsupported''),
      jl_decode = (\<lambda>t. if t = ''tok'' then Inr (SigningMethodHMAC, p) else Inl ''malformed''),
      jl_verify = (\<lambda>key t. key = ''k'' \<and> t = ''tok'')\<rparr>"

lemma demo_jwt_law: "jwt_law (demo_jwt p)"
  by (simp add: jwt_law_def demo_jwt_def)

definition demo_claims :: Claims where
  "demo_claims = \<lparr>UserID = ''u1'', WorkspaceID = ''w1'', Role = ''data_admin'', ExpiresAt = Some 5, NotBefore = None,
     IssuedAt = Some 2, ID = ''j1'', Subject = []\<rparr>"

lemma demo_Sign: "Sign (demo_jwt (claims_json demo_claims)) (2 * Second) ''j1'' ''k'' ''u1'' ''w1'' ''data_admin'' (3 * Second) = Inr ''tok''"
  by (simp add: Sign_def demo_jwt_def demo_claims_def NewNumericDate_def)

theorem Sign_Parse_witness:
  "Parse (demo_jwt (claims_json demo_claims)) (4 * Second) ''k'' ''tok'' = Inr demo_claims
   \<and> Parse (demo_jwt (claims_json demo_claims)) (5 * Second) ''k'' ''tok'' = Inl ''token has invalid claims: token is expired''"
  using Sign_Parse [OF demo_jwt_law demo_Sign, of "4 * Second"] Sign_Parse [OF demo_jwt_law demo_Sign, of "5 * Second"]
  by (simp add: demo_claims_def)

text \<open>
  C35. Revocation. When \<open>SET\<close> makes a key exist, a token whose \<open>jti\<close> was revoked is
  answered 401 from then on, however it is presented; and when the lookup fails the middleware
  fails open: the request passes exactly if the token parses.
\<close>

theorem revoked_token_rejected:
  assumes set_exists: "\<And>k v t rd rd'. rset k v t rd = (None, rd') \<Longrightarrow> \<exists>n > 0. rexists k rd' = Inr n"
    and revoked: "RevokeJWT rset jti ttl rd = (None, rd')"
    and parsed: "Parse L now secret (bearer_token r) = Inr c" and jti: "ID c = jti" "jti \<noteq> []"
    and broken: "\<And>k. rexists k bad = Inl e"
  shows "(\<exists>resp. Auth L now secret rexists (Some rd') r = Inl resp \<and> status resp = StatusUnauthorized)
         \<and> (bearer_token r \<noteq> [] \<longrightarrow> Auth L now secret rexists (Some bad) r = Inr c)"
proof -
  obtain n where "n > 0" "rexists (revoked_key jti) rd' = Inr n"
    using set_exists revoked by (metis RevokeJWT_def)
  then show ?thesis
    using parsed jti broken by (auto simp: Auth_def IsRevoked_def Let_def http_Error_def unauthorized_def)
qed

definition demo_rset :: "string \<Rightarrow> string \<Rightarrow> int \<Rightarrow> string list option \<Rightarrow> err \<times> string list option" where
  "demo_rset k v t rd = (case rd of None \<Rightarrow> (Some ''down'', None) | Some ks \<Rightarrow> (None, Some (k # ks)))"

definition demo_rexists :: "string \<Rightarrow> string list option \<Rightarrow> nat res" where
  "demo_rexists k rd = (case rd of None \<Rightarrow> Inl ''down'' | Some ks \<Rightarrow> Inr (if k \<in> set ks then 1 else 0))"

lemma demo_set_exists: "demo_rset k v t rd = (None, rd') \<Longrightarrow> \<exists>n > 0. demo_rexists k rd' = Inr n"
  by (auto simp: demo_rset_def demo_rexists_def split: option.splits)

lemma demo_parsed:
  "Parse (demo_jwt (claims_json demo_claims)) (4 * Second) ''k''
     (bearer_token \<lparr>hdr_authorization = [], query_token = ''tok''\<rparr>) = Inr demo_claims"
proof -
  have "bearer_token \<lparr>hdr_authorization = [], query_token = ''tok''\<rparr> = ''tok''"
    by (simp add: bearer_token_def Let_def HasPrefix_def go_str)
  then show ?thesis
    using jwt_law_sign [OF demo_jwt_law, of "claims_json demo_claims" "''k''" demo_claims "''tok''" "4 * Second"]
    by (simp add: demo_jwt_def demo_claims_def validate_times_def time_errors_def)
qed

theorem revoked_token_rejected_witness:
  "\<exists>resp. Auth (demo_jwt (claims_json demo_claims)) (4 * Second) ''k'' demo_rexists (Some (Some [revoked_key ''j1'']))
             \<lparr>hdr_authorization = [], query_token = ''tok''\<rparr> = Inl resp \<and> status resp = StatusUnauthorized"
proof -
  have r: "RevokeJWT demo_rset ''j1'' 60 (Some []) = (None, Some [revoked_key ''j1''])"
    by (simp add: RevokeJWT_def demo_rset_def)
  have b: "\<And>k. demo_rexists k None = Inl ''down''" by (simp add: demo_rexists_def)
  show ?thesis
    using revoked_token_rejected [where rset = demo_rset and rexists = demo_rexists and bad = None and jti = "''j1''",
        OF demo_set_exists r demo_parsed _ _ b]
    by (simp add: demo_claims_def)
qed

text \<open>
  C37. What a stream token can do. A token made by \<open>SignSSEToken\<close> parses to the user and
  workspace it was issued for with the role \<open>viewer\<close>, which no \<open>RequireMinRole\<close> lets
  through; the session it was issued for leaves no trace in the claims: the token for one session
  is as good for any other session of the workspace.
\<close>

theorem SSE_token_scope:
  assumes "jwt_law L" and "SignSSEToken L issued newID secret uid wid sid = Inr tok"
    and "Parse L now secret tok = Inr c"
  shows "UserID c = uid \<and> WorkspaceID c = wid \<and> Role c = ''viewer'' \<and> Subject c = []
         \<and> (\<forall>role. \<exists>resp. RequireMinRole role (Some c) = Some resp \<and> status resp = StatusForbidden)
         \<and> SignSSEToken L issued newID secret uid wid sid' = Inr tok"
proof -
  have c: "Subject c = [] \<and> UserID c = uid \<and> WorkspaceID c = wid \<and> Role c = ''viewer''"
    using jwt_law_sign [OF assms(1) assms(2) [unfolded SignSSEToken_def], of now] assms(3)
    by (auto split: option.splits)
  moreover have "SignSSEToken L issued newID secret uid wid sid' = Inr tok"
    using assms(2) by (cases "newID = []") (simp_all add: SignSSEToken_def claims_json_def opt_field_def)
  ultimately show ?thesis
    by (simp add: RequireMinRole_def MinRole_viewer http_Error_def)
qed

definition demo_sse_claims :: Claims where
  "demo_sse_claims = \<lparr>UserID = ''u1'', WorkspaceID = ''w1'', Role = ''viewer'', ExpiresAt = Some 3602, NotBefore = None,
     IssuedAt = Some 2, ID = ''j1'', Subject = ''s1''\<rparr>"

lemma demo_sse_sign:
  "SignSSEToken (demo_jwt (claims_json demo_sse_claims)) (2 * Second) ''j1'' ''k'' ''u1'' ''w1'' ''s1'' = Inr ''tok''"
  by (simp add: SignSSEToken_def demo_jwt_def demo_sse_claims_def NewNumericDate_def)

lemma demo_sse_parse:
  "Parse (demo_jwt (claims_json demo_sse_claims)) (4 * Second) ''k'' ''tok'' = Inr (demo_sse_claims\<lparr>Subject := []\<rparr>)"
  using jwt_law_sign [OF demo_jwt_law, of "claims_json demo_sse_claims" "''k''" demo_sse_claims "''tok''" "4 * Second"]
  by (simp add: demo_jwt_def demo_sse_claims_def validate_times_def time_errors_def)

theorem SSE_token_scope_witness:
  "SignSSEToken (demo_jwt (claims_json demo_sse_claims)) (2 * Second) ''j1'' ''k'' ''u1'' ''w1'' ''another session'' = Inr ''tok''
   \<and> RequireMinRole ''read_only_visitor'' (Some (demo_sse_claims\<lparr>Subject := []\<rparr>)) \<noteq> None"
  using SSE_token_scope [OF demo_jwt_law demo_sse_sign demo_sse_parse, of "''another session''"] by auto

end
