(* ===== verification/Platform_Db.thy ===== *)
theory Platform_Db
  imports Http
begin

text \<open>
  The platform database: the tables of \<open>internal/migrate/*.sql\<close> (and the dataset tables, for
  which the repository has no DDL) as lists of records, and the plumbing of
  \<open>database/sql\<close>. MySQL itself is outside the repository, so what it decides is in the
  record \<open>env\<close>, an argument of every handler:
  \<^item> \<open>db_err k\<close>: the error of the \<open>k\<close>-th database call of the handler, if it fails;
  \<^item> \<open>def_id k\<close>: the primary key that the \<open>k\<close>-th call gives to a row inserted without
    one, and \<open>col_default\<close> the default of a column a statement leaves out;
  \<^item> \<open>ret_row k\<close>: the row, if any, that the \<open>k\<close>-th call returns for an INSERT issued
    through \<open>QueryRow\<close>;
  \<^item> \<open>rows_cut k\<close>: the \<open>k\<close>-th query breaks off after so many rows, with an error in
    \<open>rows.Err\<close>; \<open>scan_err k i\<close>: scanning its \<open>i\<close>-th row fails;
  \<^item> \<open>uuid k\<close>, \<open>now\<close>: the \<open>k\<close>-th \<open>uuid.NewString\<close> and the clock;
  \<^item> \<open>bcrypt_gen\<close>, \<open>bcrypt_cmp\<close>: package \<open>golang.org/x/crypto/bcrypt\<close>.
  Texts are compared byte by byte. The tables have the collation \<open>utf8mb4_unicode_ci\<close>
  (\<open>001_init.sql\<close>), which ignores case: a unique key that refuses another spelling of a stored
  value is a \<open>db_err\<close>, and a lookup with another spelling than the stored one is outside the model.
  A handler runs as one step of the model; the statements of one request are not interleaved
  with those of another, except in \<open>Async_Task\<close>, where the race matters.
\<close>

record env =
  db_err :: "nat \<Rightarrow> err"
  def_id :: "nat \<Rightarrow> string"
  col_default :: "string \<Rightarrow> string"
  ret_row :: "nat \<Rightarrow> string option"
  rows_cut :: "nat \<Rightarrow> (nat \<times> string) option"
  scan_err :: "nat \<Rightarrow> nat \<Rightarrow> bool"
  uuid :: "nat \<Rightarrow> string"
  now :: int
  bcrypt_gen :: "string \<Rightarrow> string res"
  bcrypt_cmp :: "string \<Rightarrow> string \<Rightarrow> bool"

definition ErrNoRows :: string where
  "ErrNoRows = ''sql: no rows in result set''"

section \<open>Rows\<close>

record user =
  u_id :: string
  u_ws :: string
  u_email :: string
  u_hash :: string
  u_role :: string
  u_name :: string
  u_phone :: string
  u_created :: int

record session =
  s_id :: string
  s_ws :: string
  s_user :: string
  s_ds :: "string option"
  s_dataset :: "string option"
  s_title :: string
  s_created :: int

record message =
  m_id :: string
  m_session :: string
  m_role :: string
  m_content :: json
  m_created :: int

record run =
  r_id :: string
  r_session :: string
  r_status :: string
  r_reason :: "string option"

record task =
  t_id :: string
  t_ws :: string
  t_session :: "string option"
  t_run :: "string option"
  t_type :: string
  t_status :: string
  t_payload :: json
  t_result :: "string option"
  t_error :: "string option"
  t_expires :: int

record step =
  st_run :: string
  st_index :: int
  st_agent :: string
  st_status :: string
  st_in :: string
  st_out :: string
  st_err :: string
  st_created :: int

record kdoc =
  k_id :: string
  k_ws :: string
  k_title :: string
  k_type :: string
  k_hash :: string
  k_chroma :: "string option"
  k_chunks :: int
  k_status :: string
  k_by :: string
  k_created :: int

record dsource =
  ds_id :: string
  ds_ws :: string
  ds_name :: string
  ds_kind :: string
  ds_host :: string
  ds_port :: int
  ds_database :: string
  ds_user :: string
  ds_password :: string
  ds_ssl :: string
  ds_created :: int

record dataset =
  d_id :: string
  d_name :: string
  d_mysql :: string
  d_status :: string
  d_by :: "string option"
  d_created :: int
  d_updated :: int

record dperm =
  dp_dataset :: string
  dp_user :: string
  dp_level :: string

record dtable =
  dt_id :: string
  dt_dataset :: string
  dt_name :: string
  dt_display :: "string option"
  dt_mysql :: string
  dt_status :: string
  dt_by :: "string option"
  dt_created :: int
  dt_updated :: int

record tfield =
  tf_id :: string
  tf_table :: string
  tf_name :: string
  tf_display :: "string option"
  tf_type :: string
  tf_length :: "int option"
  tf_nullable :: bool
  tf_pos :: int

record preq =
  pr_id :: string
  pr_user :: string
  pr_role :: string
  pr_reason :: string
  pr_status :: string
  pr_reviewer :: "string option"
  pr_notes :: "string option"
  pr_created :: int

record platform =
  workspaces :: "string list"
  users :: "user list"
  sessions :: "session list"
  messages :: "message list"
  runs :: "run list"
  tasks :: "task list"
  steps :: "step list"
  kdocs :: "kdoc list"
  dsources :: "dsource list"
  datasets :: "dataset list"
  dperms :: "dperm list"
  dtables :: "dtable list"
  tfields :: "tfield list"
  preqs :: "preq list"

definition empty_platform :: platform where
  "empty_platform = \<lparr>workspaces = [], users = [], sessions = [], messages = [], runs = [], tasks = [],
     steps = [], kdocs = [], dsources = [], datasets = [], dperms = [], dtables = [], tfields = [], preqs = []\<rparr>"

section \<open>Package database/sql\<close>

text \<open>\<open>QueryRowContext(...).Scan\<close>, \<open>QueryContext\<close> and \<open>ExecContext\<close>.\<close>

definition query_row :: "env \<Rightarrow> nat \<Rightarrow> 'a list \<Rightarrow> 'a res" where
  "query_row e k rows =
     (case db_err e k of
        Some m \<Rightarrow> Inl m
      | None \<Rightarrow> (case rows of [] \<Rightarrow> Inl ErrNoRows | r # _ \<Rightarrow> Inr r))"

definition query :: "env \<Rightarrow> nat \<Rightarrow> 'a list \<Rightarrow> 'a list res" where
  "query e k rows = (case db_err e k of Some m \<Rightarrow> Inl m | None \<Rightarrow> Inr rows)"

definition exec :: "env \<Rightarrow> nat \<Rightarrow> (platform \<Rightarrow> platform res) \<Rightarrow> platform \<Rightarrow> platform res" where
  "exec e k stmt db = (case db_err e k of Some m \<Rightarrow> Inl m | None \<Rightarrow> stmt db)"

text \<open>The loop \<open>for rows.Next()\<close>, \<open>rows.Err()\<close>, and a loop that skips rows it cannot scan.\<close>

definition rows_next :: "env \<Rightarrow> nat \<Rightarrow> 'a list \<Rightarrow> 'a list" where
  "rows_next e k rows = (case rows_cut e k of None \<Rightarrow> rows | Some (n, _) \<Rightarrow> take n rows)"

definition rows_Err :: "env \<Rightarrow> nat \<Rightarrow> err" where
  "rows_Err e k = map_option snd (rows_cut e k)"

definition scan_fails :: "env \<Rightarrow> nat \<Rightarrow> 'a list \<Rightarrow> bool" where
  "scan_fails e k rows \<longleftrightarrow> list_ex (scan_err e k) [0..<length rows]"

definition scan_skip :: "env \<Rightarrow> nat \<Rightarrow> 'a list \<Rightarrow> 'a list" where
  "scan_skip e k rows = map fst (filter (\<lambda>(_, i). \<not> scan_err e k i) (zip rows [0..<length rows]))"

text \<open>A statement whose error is only logged.\<close>

definition exec_log :: "env \<Rightarrow> nat \<Rightarrow> (platform \<Rightarrow> platform res) \<Rightarrow> platform \<Rightarrow> platform" where
  "exec_log e k stmt db = (case exec e k stmt db of Inl _ \<Rightarrow> db | Inr db' \<Rightarrow> db')"

text \<open>\<open>SELECT COUNT(*)\<close> into a variable that keeps its zero value when the query fails.\<close>

definition count_or_zero :: "env \<Rightarrow> nat \<Rightarrow> 'a list \<Rightarrow> nat" where
  "count_or_zero e k rows = (case query_row e k [length rows] of Inl _ \<Rightarrow> 0 | Inr n \<Rightarrow> n)"

lemma rows_next_subset: "set (rows_next e k rows) \<subseteq> set rows"
  by (auto simp: rows_next_def split: option.splits dest: in_set_takeD)

lemma scan_skip_subset: "set (scan_skip e k rows) \<subseteq> set rows"
  by (auto simp: scan_skip_def dest: set_zip_leftD)

lemma query_row_Inr_iff: "query_row e k rows = Inr r \<longleftrightarrow> db_err e k = None \<and> (\<exists>rs. rows = r # rs)"
  by (auto simp: query_row_def split: option.splits list.splits)

lemma query_row_mem: "query_row e k rows = Inr r \<Longrightarrow> r \<in> set rows"
  by (auto simp: query_row_Inr_iff)

lemma query_Inr_iff: "query e k rows = Inr rs \<longleftrightarrow> db_err e k = None \<and> rs = rows"
  by (auto simp: query_def split: option.splits)

lemma exec_Inr_iff: "exec e k stmt db = Inr db' \<longleftrightarrow> db_err e k = None \<and> stmt db = Inr db'"
  by (auto simp: exec_def split: option.splits)

lemma exec_log_cases:
  obtains "exec_log e k stmt db = db" | db' where "stmt db = Inr db'" "exec_log e k stmt db = db'"
  by (cases "exec e k stmt db") (auto simp: exec_log_def exec_Inr_iff)

lemma count_or_zero_pos: "0 < count_or_zero e k rows \<Longrightarrow> rows \<noteq> []"
  by (auto simp: count_or_zero_def query_row_def split: option.splits)

lemma count_or_zero_ok: "db_err e k = None \<Longrightarrow> count_or_zero e k rows = length rows"
  by (simp add: count_or_zero_def query_row_def)

section \<open>Statements on the platform tables\<close>

definition dup_entry :: string where
  "dup_entry = ''Duplicate entry''"

definition fk_fails :: string where
  "fk_fails = ''Cannot add or update a child row: a foreign key constraint fails''"

text \<open>\<open>001_init.sql\<close>: primary key, \<open>UNIQUE (workspace_id, email)\<close>, the workspace exists.\<close>

definition insert_user :: "user \<Rightarrow> platform \<Rightarrow> platform res" where
  "insert_user u db =
     (if u_id u \<in> u_id ` set (users db) \<or> (u_ws u, u_email u) \<in> (\<lambda>v. (u_ws v, u_email v)) ` set (users db)
      then Inl dup_entry
      else if u_ws u \<notin> set (workspaces db) then Inl fk_fails
      else Inr (db\<lparr>users := users db @ [u]\<rparr>))"

text \<open>\<open>ON DELETE CASCADE\<close>: a session takes its messages and runs with it, a user its sessions.\<close>

definition delete_sessions :: "(session \<Rightarrow> bool) \<Rightarrow> platform \<Rightarrow> platform" where
  "delete_sessions P db =
     (let gone = s_id ` {s \<in> set (sessions db). P s} in
      db\<lparr>sessions := filter (\<lambda>s. \<not> P s) (sessions db),
         messages := filter (\<lambda>m. m_session m \<notin> gone) (messages db),
         runs := filter (\<lambda>r. r_session r \<notin> gone) (runs db)\<rparr>)"

definition delete_users :: "(user \<Rightarrow> bool) \<Rightarrow> platform \<Rightarrow> platform" where
  "delete_users P db =
     (let gone = u_id ` {u \<in> set (users db). P u} in
      delete_sessions (\<lambda>s. s_user s \<in> gone) (db\<lparr>users := filter (\<lambda>u. \<not> P u) (users db)\<rparr>))"

definition update_users :: "(user \<Rightarrow> bool) \<Rightarrow> (user \<Rightarrow> user) \<Rightarrow> platform \<Rightarrow> platform" where
  "update_users P f db = db\<lparr>users := map (\<lambda>u. if P u then f u else u) (users db)\<rparr>"

definition insert_session :: "session \<Rightarrow> platform \<Rightarrow> platform res" where
  "insert_session s db =
     (if s_id s \<in> s_id ` set (sessions db) then Inl dup_entry
      else if s_ws s \<notin> set (workspaces db) \<or> s_user s \<notin> u_id ` set (users db)
              \<or> (\<exists>d. s_ds s = Some d \<and> d \<notin> ds_id ` set (dsources db)) then Inl fk_fails
      else Inr (db\<lparr>sessions := sessions db @ [s]\<rparr>))"

definition insert_message :: "message \<Rightarrow> platform \<Rightarrow> platform res" where
  "insert_message m db =
     (if m_id m \<in> m_id ` set (messages db) then Inl dup_entry
      else if m_session m \<notin> s_id ` set (sessions db) then Inl fk_fails
      else Inr (db\<lparr>messages := messages db @ [m]\<rparr>))"

definition insert_run :: "run \<Rightarrow> platform \<Rightarrow> platform res" where
  "insert_run r db =
     (if r_id r \<in> r_id ` set (runs db) then Inl dup_entry
      else if r_session r \<notin> s_id ` set (sessions db) then Inl fk_fails
      else Inr (db\<lparr>runs := runs db @ [r]\<rparr>))"

definition update_runs :: "(run \<Rightarrow> bool) \<Rightarrow> (run \<Rightarrow> run) \<Rightarrow> platform \<Rightarrow> platform" where
  "update_runs P f db = db\<lparr>runs := map (\<lambda>r. if P r then f r else r) (runs db)\<rparr>"

definition insert_task :: "task \<Rightarrow> platform \<Rightarrow> platform res" where
  "insert_task t db =
     (if t_id t \<in> t_id ` set (tasks db) then Inl dup_entry else Inr (db\<lparr>tasks := tasks db @ [t]\<rparr>))"

definition update_tasks :: "(task \<Rightarrow> bool) \<Rightarrow> (task \<Rightarrow> task) \<Rightarrow> platform \<Rightarrow> platform" where
  "update_tasks P f db = db\<lparr>tasks := map (\<lambda>t. if P t then f t else t) (tasks db)\<rparr>"

lemmas db_update_defs [db_ops] =
  update_users_def update_runs_def update_tasks_def delete_users_def delete_sessions_def

lemma insert_user_Inr:
  "insert_user u db = Inr db' \<longleftrightarrow>
     u_id u \<notin> u_id ` set (users db) \<and> (u_ws u, u_email u) \<notin> (\<lambda>v. (u_ws v, u_email v)) ` set (users db)
     \<and> u_ws u \<in> set (workspaces db) \<and> db' = db\<lparr>users := users db @ [u]\<rparr>"
  by (auto simp: insert_user_def)

lemma insert_message_Inr:
  "insert_message m db = Inr db' \<Longrightarrow> db' = db\<lparr>messages := messages db @ [m]\<rparr>"
  by (auto simp: insert_message_def split: if_splits)

lemma insert_run_Inr:
  "insert_run r db = Inr db' \<Longrightarrow> db' = db\<lparr>runs := runs db @ [r]\<rparr>"
  by (auto simp: insert_run_def split: if_splits)

lemma insert_task_Inr:
  "insert_task t db = Inr db' \<longleftrightarrow> t_id t \<notin> t_id ` set (tasks db) \<and> db' = db\<lparr>tasks := tasks db @ [t]\<rparr>"
  by (auto simp: insert_task_def)

lemma delete_users_users [simp]: "users (delete_users P db) = filter (\<lambda>u. \<not> P u) (users db)"
  by (simp add: delete_users_def delete_sessions_def Let_def)

lemma delete_users_frame [simp]:
  "preqs (delete_users P db) = preqs db" "workspaces (delete_users P db) = workspaces db"
  by (simp_all add: delete_users_def delete_sessions_def Let_def)

text \<open>
  The table \<open>permission_requests\<close>, of which the repository has no DDL: the statements use
  \<open>id\<close> as its key.
\<close>

definition insert_preq :: "preq \<Rightarrow> platform \<Rightarrow> platform res" where
  "insert_preq p db = (if pr_id p \<in> pr_id ` set (preqs db) then Inl dup_entry else Inr (db\<lparr>preqs := preqs db @ [p]\<rparr>))"

definition update_preqs :: "(preq \<Rightarrow> bool) \<Rightarrow> (preq \<Rightarrow> preq) \<Rightarrow> platform \<Rightarrow> platform" where
  "update_preqs P f db = db\<lparr>preqs := map (\<lambda>p. if P p then f p else p) (preqs db)\<rparr>"

lemma insert_preq_Inr:
  "insert_preq p db = Inr db' \<longleftrightarrow> pr_id p \<notin> pr_id ` set (preqs db) \<and> db' = db\<lparr>preqs := preqs db @ [p]\<rparr>"
  by (auto simp: insert_preq_def)

section \<open>An environment in which nothing fails\<close>

definition calm_env :: env where
  "calm_env = \<lparr>db_err = (\<lambda>_. None), def_id = (\<lambda>k. ''default-id''), col_default = (\<lambda>_. []), ret_row = (\<lambda>_. None),
     rows_cut = (\<lambda>_. None), scan_err = (\<lambda>_ _. False), uuid = (\<lambda>k. ''uuid-'' @ nat_dec k), now = 0,
     bcrypt_gen = (\<lambda>pw. Inr (CHR ''$'' # pw)), bcrypt_cmp = (\<lambda>pw h. h = CHR ''$'' # pw)\<rparr>"

lemma calm_env_simps [simp]:
  "db_err calm_env = (\<lambda>_. None)" "def_id calm_env = (\<lambda>_. ''default-id'')" "col_default calm_env = (\<lambda>_. [])"
  "ret_row calm_env = (\<lambda>_. None)" "rows_cut calm_env = (\<lambda>_. None)" "scan_err calm_env = (\<lambda>_ _. False)"
  "uuid calm_env k = ''uuid-'' @ nat_dec k" "now calm_env = 0"
  "bcrypt_gen calm_env pw = Inr (CHR ''$'' # pw)" "bcrypt_cmp calm_env pw h \<longleftrightarrow> h = CHR ''$'' # pw"
  by (simp_all add: calm_env_def)

end
