(* ===== verification/Seed.thy ===== *)
theory Seed
  imports Platform_Db
begin

text \<open>The seed administrator and the fixed demo workspace: \<open>internal/seed/seed.go\<close>.\<close>

definition demoWorkspaceID :: string where
  "demoWorkspaceID = ''00000000-0000-4000-8000-000000000001''"

definition DemoWorkspaceID :: string where
  "DemoWorkspaceID = demoWorkspaceID"

text \<open>The seeded name, as UTF-8.\<close>

definition seed_name :: string where
  "seed_name = map char_of [0xE7, 0xAE, 0xA1, 0xE7, 0x90, 0x86, 0xE5, 0x91, 0x98 :: nat]"

text \<open>The result of the insertion counts the rows it added; asking it for them may fail.\<close>

definition EnsureAdminUser :: "env \<Rightarrow> string \<Rightarrow> string \<Rightarrow> platform \<Rightarrow> err \<times> platform" where
  "EnsureAdminUser e SeedEmail SeedPassword db =
     (case query_row e 0 [length (filter (\<lambda>u. u_ws u = demoWorkspaceID \<and> u_email u = SeedEmail) (users db))] of
        Inl m \<Rightarrow> (Some m, db)
      | Inr count \<Rightarrow>
          if count > 0 then (None, db)
          else (case bcrypt_gen e SeedPassword of
                  Inl m \<Rightarrow> (Some m, db)
                | Inr hash \<Rightarrow>
                    (case exec e 1 (insert_user \<lparr>u_id = def_id e 1, u_ws = demoWorkspaceID, u_email = SeedEmail,
                         u_hash = hash, u_role = ''super_admin'', u_name = seed_name, u_phone = [], u_created = now e\<rparr>) db of
                       Inl m \<Rightarrow> (Some m, db)
                     | Inr db' \<Rightarrow>
                         (case db_err e 2 of
                            Some m \<Rightarrow> (Some m, db')
                          | None \<Rightarrow>
                              (let affected = length (users db') - length (users db) in
                               if affected = 0 then (Some ''seed user insert affected 0 rows'', db') else (None, db'))))))"

definition GetUserID :: "env \<Rightarrow> string \<Rightarrow> platform \<Rightarrow> string res" where
  "GetUserID e email db =
     (case query_row e 0 (map u_id (filter (\<lambda>u. u_ws u = demoWorkspaceID \<and> u_email u = email) (users db))) of
        Inl m \<Rightarrow> if m = ErrNoRows then Inr [] else Inl m
      | Inr i \<Rightarrow> Inr i)"

lemma EnsureAdminUser_cases:
  "snd (EnsureAdminUser e em pw db) = db \<or>
   (\<exists>h. snd (EnsureAdminUser e em pw db) =
        db\<lparr>users := users db @ [\<lparr>u_id = def_id e 1, u_ws = demoWorkspaceID, u_email = em,
             u_hash = h, u_role = ''super_admin'', u_name = seed_name, u_phone = [], u_created = now e\<rparr>]\<rparr>
        \<and> bcrypt_gen e pw = Inr h
        \<and> def_id e 1 \<notin> u_id ` set (users db)
        \<and> (demoWorkspaceID, em) \<notin> (\<lambda>v. (u_ws v, u_email v)) ` set (users db))"
  by (auto simp: EnsureAdminUser_def exec_Inr_iff insert_user_Inr Let_def split: sum.splits option.splits)

text \<open>
  After a run without error there was an account with the address, and nothing changed, or there is
  a new one, a \<open>super_admin\<close> with the configured password; a second run changes nothing.
\<close>

lemma EnsureAdminUser_done:
  assumes "EnsureAdminUser e em pw db = (None, db')"
  shows "(\<exists>u \<in> set (users db). u_ws u = demoWorkspaceID \<and> u_email u = em) \<and> db' = db
    \<or> (\<exists>u. u_ws u = demoWorkspaceID \<and> u_email u = em \<and> u_role u = ''super_admin'' \<and> bcrypt_gen e pw = Inr (u_hash u)
         \<and> (\<forall>v \<in> set (users db). \<not> (u_ws v = demoWorkspaceID \<and> u_email v = em)) \<and> db' = db\<lparr>users := users db @ [u]\<rparr>)"
proof (cases "\<exists>u \<in> set (users db). u_ws u = demoWorkspaceID \<and> u_email u = em")
  case True
  then show ?thesis using assms
    by (auto simp: EnsureAdminUser_def query_row_Inr_iff filter_empty_conv split: sum.splits if_splits)
next
  case False
  with assms obtain h where h: "bcrypt_gen e pw = Inr h" and
      ins: "insert_user \<lparr>u_id = def_id e 1, u_ws = demoWorkspaceID, u_email = em, u_hash = h, u_role = ''super_admin'',
              u_name = seed_name, u_phone = [], u_created = now e\<rparr> db = Inr db'" (is "insert_user ?u db = _")
    by (auto simp: EnsureAdminUser_def query_row_Inr_iff exec_Inr_iff filter_empty_conv Let_def split: sum.splits if_splits option.splits)
  from ins have "db' = db\<lparr>users := users db @ [?u]\<rparr>" by (simp add: insert_user_Inr)
  with h False show ?thesis by (intro disjI2 exI [of _ ?u]) auto
qed

lemma EnsureAdminUser_present:
  assumes "EnsureAdminUser e em pw db = (None, db')"
  shows "\<exists>u \<in> set (users db'). u_ws u = demoWorkspaceID \<and> u_email u = em"
  using EnsureAdminUser_done [OF assms] by auto

lemma EnsureAdminUser_idempotent:
  assumes "EnsureAdminUser e em pw db = (None, db')"
  shows "snd (EnsureAdminUser e' em pw' db') = db'"
proof -
  have "filter (\<lambda>u. u_ws u = demoWorkspaceID \<and> u_email u = em) (users db') \<noteq> []"
    using EnsureAdminUser_present [OF assms] by (auto simp: filter_empty_conv)
  then show ?thesis
    by (auto simp: EnsureAdminUser_def query_row_Inr_iff split: sum.splits)
qed

end
