(* ===== verification/Users.thy ===== *)
theory Users
  imports Auth Seed
begin

text \<open>
  Users and permission requests: \<open>internal/handlers/auth.go\<close>. Each handler is one function
  from the environment, the claims of the token, the decoded request and the database to the
  answer and the new database. A request body is \<open>None\<close> when \<open>encoding/json\<close> cannot
  decode it. \<open>user_api\<close> joins the handlers, \<open>user_step\<close> is the transition relation of
  this part of the API, and the invariant and the safety properties are proved over its
  reachable states.
\<close>

record register_body =
  rb_name :: string
  rb_phone :: string
  rb_password :: string
  rb_role :: string

definition validRoles :: "string list" where
  "validRoles = [''super_admin'', ''data_admin'', ''normal_user'', ''read_only_visitor'']"

abbreviation is_super :: "Claims option \<Rightarrow> bool" where
  "is_super co \<equiv> (\<exists>c. co = Some c \<and> Role c = ''super_admin'')"

text \<open>
  The part \<open>Register\<close> and \<open>SelfRegister\<close> share: the count of the phone number, whose error
  is only logged, the hash, and the insertion.
\<close>

definition create_user ::
  "env \<Rightarrow> string \<Rightarrow> string \<Rightarrow> string \<Rightarrow> string \<Rightarrow> string \<Rightarrow> (string \<Rightarrow> json) \<Rightarrow> platform \<Rightarrow> response \<times> platform" where
  "create_user e name phone password role failed answer db =
     (let exists = count_or_zero e 0 (filter (\<lambda>u. u_ws u = DemoWorkspaceID \<and> u_phone u = phone) (users db)) in
      if exists > 0 then (errJSON StatusConflict ''phone number already exists'', db)
      else (case bcrypt_gen e password of
              Inl _ \<Rightarrow> (errJSON StatusInternalServerError ''internal error'', db)
            | Inr hash \<Rightarrow>
                (case exec e 1 (insert_user \<lparr>u_id = uuid e 0, u_ws = DemoWorkspaceID, u_email = phone @ ''@phone.local'',
                     u_hash = hash, u_role = role, u_name = name, u_phone = phone, u_created = now e\<rparr>) db of
                   Inl _ \<Rightarrow> (errJSON StatusInternalServerError failed, db)
                 | Inr db' \<Rightarrow> (JSON StatusCreated (answer (uuid e 0)), db'))))"

definition Register :: "env \<Rightarrow> Claims option \<Rightarrow> register_body option \<Rightarrow> platform \<Rightarrow> response \<times> platform" where
  "Register e co bo db =
     (if \<not> is_super co then (errJSON StatusForbidden ''only super_admin can create users'', db)
      else (case bo of
              None \<Rightarrow> (errJSON StatusBadRequest ''invalid json'', db)
            | Some b \<Rightarrow>
                (let phone = TrimSpace (rb_phone b);
                     name = TrimSpace (rb_name b);
                     role = ToLower (TrimSpace (rb_role b))
                 in
                 if phone = [] \<or> name = [] \<or> rb_password b = []
                 then (errJSON StatusBadRequest ''name, phone, and password are required'', db)
                 else if role \<noteq> ''data_admin'' \<and> role \<noteq> ''read_only_visitor''
                 then (errJSON StatusBadRequest ''role must be data_admin or read_only_visitor'', db)
                 else create_user e name phone (rb_password b) role ''failed to create user''
                        (\<lambda>i. JObj [(''id'', JStr i), (''name'', JStr name), (''role'', JStr role)]) db)))"

text \<open>The body of \<open>SelfRegister\<close> is name, phone and password.\<close>

definition SelfRegister :: "env \<Rightarrow> (string \<times> string \<times> string) option \<Rightarrow> platform \<Rightarrow> response \<times> platform" where
  "SelfRegister e bo db =
     (case bo of
        None \<Rightarrow> (errJSON StatusBadRequest ''invalid json'', db)
      | Some (name0, phone0, password) \<Rightarrow>
          (let phone = TrimSpace phone0; name = TrimSpace name0 in
           if phone = [] \<or> name = [] \<or> password = []
           then (errJSON StatusBadRequest ''name, phone, and password are required'', db)
           else create_user e name phone password ''normal_user'' ''failed to register''
                  (\<lambda>i. JObj [(''id'', JStr i), (''name'', JStr name), (''role'', JStr ''normal_user''),
                             (''message'', JStr ''registration successful, please login'')]) db))"

definition user_json :: "user \<Rightarrow> json" where
  "user_json u = JObj [(''id'', JStr (u_id u)), (''name'', JStr (u_name u)), (''phone'', JStr (u_phone u)),
                       (''role'', JStr (u_role u)), (''created_at'', JStr (rfc3339 (u_created u)))]"

definition ListUsers :: "env \<Rightarrow> Claims option \<Rightarrow> platform \<Rightarrow> response \<times> platform" where
  "ListUsers e co db =
     (if \<not> is_super co then (errJSON StatusForbidden ''only super_admin can list users'', db)
      else (case query e 0 (sort_key u_created (filter (\<lambda>u. u_ws u = DemoWorkspaceID) (users db))) of
              Inl _ \<Rightarrow> (errJSON StatusInternalServerError ''db error'', db)
            | Inr rows0 \<Rightarrow>
                (let rows = rows_next e 0 rows0 in
                 if scan_fails e 0 rows then (errJSON StatusInternalServerError ''db scan error'', db)
                 else (JSON StatusOK (JObj [(''users'', json_slice (map user_json rows))]), db))))"

definition ChangeUserRole :: "env \<Rightarrow> Claims option \<Rightarrow> string \<Rightarrow> string option \<Rightarrow> platform \<Rightarrow> response \<times> platform" where
  "ChangeUserRole e co userID bo db =
     (case co of
        None \<Rightarrow> (errJSON StatusForbidden ''only super_admin can change user role'', db)
      | Some c \<Rightarrow>
          if Role c \<noteq> ''super_admin'' then (errJSON StatusForbidden ''only super_admin can change user role'', db)
          else if userID = [] then (errJSON StatusBadRequest ''missing user id'', db)
          else if userID = UserID c then (errJSON StatusBadRequest ''cannot change your own role'', db)
          else (case bo of
                  None \<Rightarrow> (errJSON StatusBadRequest ''invalid json'', db)
                | Some role0 \<Rightarrow>
                    (let role = ToLower (TrimSpace role0) in
                     if role \<notin> set validRoles
                     then (errJSON StatusBadRequest ''role must be one of: super_admin, data_admin, normal_user, read_only_visitor'', db)
                     else (case query_row e 0 (map u_role (filter (\<lambda>u. u_id u = userID \<and> u_ws u = DemoWorkspaceID) (users db))) of
                             Inl _ \<Rightarrow> (errJSON StatusNotFound ''user not found'', db)
                           | Inr targetRole \<Rightarrow>
                               if targetRole = ''super_admin''
                               then (errJSON StatusBadRequest ''cannot change role of a super_admin user'', db)
                               else (case exec e 1 (\<lambda>d. Inr (update_users (\<lambda>u. u_id u = userID) (\<lambda>u. u\<lparr>u_role := role\<rparr>) d)) db of
                                       Inl _ \<Rightarrow> (errJSON StatusInternalServerError ''db error'', db)
                                     | Inr db' \<Rightarrow> (JSON StatusOK (JObj [(''message'', JStr ''ok'')]), db'))))))"

definition DeleteUser :: "env \<Rightarrow> Claims option \<Rightarrow> string \<Rightarrow> platform \<Rightarrow> response \<times> platform" where
  "DeleteUser e co userID db =
     (case co of
        None \<Rightarrow> (errJSON StatusForbidden ''only super_admin can delete users'', db)
      | Some c \<Rightarrow>
          if Role c \<noteq> ''super_admin'' then (errJSON StatusForbidden ''only super_admin can delete users'', db)
          else if userID = [] then (errJSON StatusBadRequest ''missing user id'', db)
          else if userID = UserID c then (errJSON StatusBadRequest ''cannot delete yourself'', db)
          else (case query_row e 0 (map u_role (filter (\<lambda>u. u_id u = userID \<and> u_ws u = DemoWorkspaceID) (users db))) of
                  Inl _ \<Rightarrow> (errJSON StatusNotFound ''user not found'', db)
                | Inr targetRole \<Rightarrow>
                    if targetRole = ''super_admin''
                    then (errJSON StatusBadRequest ''cannot delete a super_admin user'', db)
                    else (case exec e 1 (\<lambda>d. Inr (delete_users (\<lambda>u. u_id u = userID \<and> u_ws u = DemoWorkspaceID) d)) db of
                            Inl _ \<Rightarrow> (errJSON StatusInternalServerError ''db error'', db)
                          | Inr db' \<Rightarrow> (JSON StatusOK (JObj [(''message'', JStr ''ok'')]), db'))))"

text \<open>The body of \<open>CreateUpgradeRequest\<close> is the requested role and the reason.\<close>

definition CreateUpgradeRequest ::
  "env \<Rightarrow> Claims option \<Rightarrow> (string \<times> string) option \<Rightarrow> platform \<Rightarrow> response \<times> platform" where
  "CreateUpgradeRequest e co bo db =
     (case co of
        None \<Rightarrow> (errJSON StatusUnauthorized ''unauthorized'', db)
      | Some c \<Rightarrow>
          (case bo of
             None \<Rightarrow> (errJSON StatusBadRequest ''invalid json'', db)
           | Some (role0, reason) \<Rightarrow>
               (let role = ToLower (TrimSpace role0) in
                if role \<noteq> ''data_admin'' \<and> role \<noteq> ''read_only_visitor''
                then (errJSON StatusBadRequest ''requested_role must be data_admin or read_only_visitor'', db)
                else (case exec e 0 (insert_preq \<lparr>pr_id = uuid e 0, pr_user = UserID c, pr_role = role, pr_reason = reason,
                          pr_status = col_default e ''permission_requests.status'', pr_reviewer = None, pr_notes = None,
                          pr_created = now e\<rparr>) db of
                        Inl _ \<Rightarrow> (errJSON StatusInternalServerError ''failed to create request'', db)
                      | Inr db' \<Rightarrow> (JSON StatusCreated (JObj [(''id'', JStr (uuid e 0)), (''status'', JStr ''pending'')]), db')))))"

definition preq_json :: "preq \<times> user \<Rightarrow> json" where
  "preq_json pu = (case pu of (p, u) \<Rightarrow>
     JObj [(''id'', JStr (pr_id p)), (''user_id'', JStr (pr_user p)), (''user_name'', JStr (u_name u)),
           (''user_phone'', JStr (u_phone u)), (''requested_role'', JStr (pr_role p)), (''reason'', JStr (pr_reason p)),
           (''status'', JStr (pr_status p)), (''created_at'', JStr (rfc3339 (pr_created p)))])"

text \<open>The join of the requests with their users.\<close>

definition preq_join :: "string \<Rightarrow> platform \<Rightarrow> (preq \<times> user) list" where
  "preq_join st db =
     [(p, u). p \<leftarrow> sort_key pr_created (filter (\<lambda>p. pr_status p = st) (preqs db)), u \<leftarrow> users db, u_id u = pr_user p]"

definition ListUpgradeRequests :: "env \<Rightarrow> Claims option \<Rightarrow> string \<Rightarrow> platform \<Rightarrow> response \<times> platform" where
  "ListUpgradeRequests e co statusQuery db =
     (if \<not> is_super co then (errJSON StatusForbidden ''only super_admin can list upgrade requests'', db)
      else (let statusFilter = (if statusQuery = [] then ''pending'' else statusQuery) in
            case query e 0 (preq_join statusFilter db) of
              Inl _ \<Rightarrow> (errJSON StatusInternalServerError ''db error'', db)
            | Inr rows \<Rightarrow>
                (JSON StatusOK (JObj [(''requests'', json_slice (map preq_json (scan_skip e 0 (rows_next e 0 rows))))]), db)))"

text \<open>The body of \<open>ReviewUpgradeRequest\<close> is the action and the notes.\<close>

definition ReviewUpgradeRequest ::
  "env \<Rightarrow> Claims option \<Rightarrow> string \<Rightarrow> (string \<times> string) option \<Rightarrow> platform \<Rightarrow> response \<times> platform" where
  "ReviewUpgradeRequest e co requestID bo db =
     (case co of
        None \<Rightarrow> (errJSON StatusForbidden ''only super_admin can review upgrade requests'', db)
      | Some c \<Rightarrow>
          if Role c \<noteq> ''super_admin'' then (errJSON StatusForbidden ''only super_admin can review upgrade requests'', db)
          else if requestID = [] then (errJSON StatusBadRequest ''missing request id'', db)
          else (case bo of
                  None \<Rightarrow> (errJSON StatusBadRequest ''invalid json'', db)
                | Some (action0, notes) \<Rightarrow>
                    (let action = ToLower (TrimSpace action0) in
                     if action \<noteq> ''approve'' \<and> action \<noteq> ''reject''
                     then (errJSON StatusBadRequest ''action must be approve or reject'', db)
                     else (case query_row e 0 (filter (\<lambda>p. pr_id p = requestID) (preqs db)) of
                             Inl _ \<Rightarrow> (errJSON StatusNotFound ''request not found'', db)
                           | Inr p \<Rightarrow>
                               if pr_status p \<noteq> ''pending''
                               then (errJSON StatusBadRequest ''request already reviewed'', db)
                               else (let newStatus = (if action = ''reject'' then ''rejected'' else ''approved'') in
                                 case exec e 1 (\<lambda>d. Inr (update_preqs (\<lambda>q. pr_id q = requestID)
                                        (\<lambda>q. q\<lparr>pr_status := newStatus, pr_reviewer := Some (UserID c), pr_notes := Some notes\<rparr>) d)) db of
                                   Inl _ \<Rightarrow> (errJSON StatusInternalServerError ''db error'', db)
                                 | Inr db1 \<Rightarrow>
                                     (let db2 = (if action = ''approve''
                                        then exec_log e 2 (\<lambda>d. Inr (update_users (\<lambda>u. u_id u = pr_user p) (\<lambda>u. u\<lparr>u_role := pr_role p\<rparr>) d)) db1
                                        else db1)
                                      in (JSON StatusOK (JObj [(''message'', JStr ''ok''), (''status'', JStr newStatus)]), db2)))))))"

section \<open>The transition system\<close>

datatype user_req =
    ReqRegister "register_body option"
  | ReqSelfRegister "(string \<times> string \<times> string) option"
  | ReqListUsers
  | ReqChangeRole string "string option"
  | ReqDeleteUser string
  | ReqCreateUpgrade "(string \<times> string) option"
  | ReqListUpgrade string
  | ReqReview string "(string \<times> string) option"

fun user_api :: "env \<Rightarrow> Claims option \<Rightarrow> user_req \<Rightarrow> platform \<Rightarrow> response \<times> platform" where
  "user_api e co (ReqRegister b) db = Register e co b db"
| "user_api e co (ReqSelfRegister b) db = SelfRegister e b db"
| "user_api e co ReqListUsers db = ListUsers e co db"
| "user_api e co (ReqChangeRole i b) db = ChangeUserRole e co i b db"
| "user_api e co (ReqDeleteUser i) db = DeleteUser e co i db"
| "user_api e co (ReqCreateUpgrade b) db = CreateUpgradeRequest e co b db"
| "user_api e co (ReqListUpgrade s) db = ListUpgradeRequests e co s db"
| "user_api e co (ReqReview i b) db = ReviewUpgradeRequest e co i b db"

inductive user_step :: "platform \<Rightarrow> platform \<Rightarrow> bool" where
  request: "user_api e co req db = (resp, db') \<Longrightarrow> user_step db db'"
| seed: "EnsureAdminUser e em pw db = (r, db') \<Longrightarrow> user_step db db'"

inductive user_reach :: "platform \<Rightarrow> platform \<Rightarrow> bool" for db0 where
  init: "user_reach db0 db0"
| step: "user_reach db0 db \<Longrightarrow> user_step db db' \<Longrightarrow> user_reach db0 db'"

inductive_cases user_stepE: "user_step db db'"

section \<open>What a request can change\<close>

text \<open>The effects of the handlers on the tables, with the condition under which each happens.\<close>

abbreviation set_role :: "string \<Rightarrow> string \<Rightarrow> platform \<Rightarrow> platform" where
  "set_role i r db \<equiv> update_users (\<lambda>u. u_id u = i) (\<lambda>u. u\<lparr>u_role := r\<rparr>) db"

abbreviation decide :: "string \<Rightarrow> string \<Rightarrow> string \<Rightarrow> string \<Rightarrow> platform \<Rightarrow> platform" where
  "decide i st rv n db \<equiv> update_preqs (\<lambda>q. pr_id q = i) (\<lambda>q. q\<lparr>pr_status := st, pr_reviewer := Some rv, pr_notes := Some n\<rparr>) db"

abbreviation demo_user :: "string \<Rightarrow> user \<Rightarrow> bool" where
  "demo_user i u \<equiv> u_id u = i \<and> u_ws u = DemoWorkspaceID"

inductive user_effect :: "Claims option \<Rightarrow> user_req \<Rightarrow> platform \<Rightarrow> platform \<Rightarrow> bool" where
  unchanged: "user_effect co req db db"
| self_created: "insert_user u db = Inr db' \<Longrightarrow> u_role u = ''normal_user'' \<Longrightarrow> user_effect co req db db'"
| created: "is_super co \<Longrightarrow> insert_user u db = Inr db' \<Longrightarrow> u_role u \<in> {''data_admin'', ''read_only_visitor''}
            \<Longrightarrow> user_effect co req db db'"
| role_set: "is_super co \<Longrightarrow> r \<in> set validRoles \<Longrightarrow> filter (demo_user i) (users db) = t # ts \<Longrightarrow> u_role t \<noteq> ''super_admin''
             \<Longrightarrow> user_effect co req db (set_role i r db)"
| deleted: "is_super co \<Longrightarrow> filter (demo_user i) (users db) = t # ts \<Longrightarrow> u_role t \<noteq> ''super_admin''
            \<Longrightarrow> user_effect co req db (delete_users (demo_user i) db)"
| requested: "insert_preq p db = Inr db' \<Longrightarrow> pr_role p \<in> {''data_admin'', ''read_only_visitor''} \<Longrightarrow> user_effect co req db db'"
| decided: "is_super co \<Longrightarrow> st \<in> {''approved'', ''rejected''} \<Longrightarrow> user_effect co req db (decide i st rv n db)"
| approved: "is_super co \<Longrightarrow> p \<in> set (preqs db) \<Longrightarrow> pr_id p = i \<Longrightarrow> pr_status p = ''pending''
             \<Longrightarrow> user_effect co (ReqReview i b) db (set_role (pr_user p) (pr_role p) (decide i ''approved'' rv n db))"

lemma create_user_cases:
  "snd (create_user e name phone pw role failed answer db) = db
   \<or> (\<exists>u. insert_user u db = Inr (snd (create_user e name phone pw role failed answer db)) \<and> u_role u = role)"
  unfolding create_user_def Let_def
  by (auto simp: exec_Inr_iff split: sum.splits)

lemma create_user_effect:
  "role = ''normal_user'' \<or> is_super co \<and> role \<in> {''data_admin'', ''read_only_visitor''}
   \<Longrightarrow> user_effect co req db (snd (create_user e name phone pw role failed answer db))"
  using create_user_cases [of e name phone pw role failed answer db] by (metis unchanged self_created created)

lemma Register_effect: "user_effect co req db (snd (Register e co b db))"
  unfolding Register_def Let_def
  by (simp split: option.split) (blast intro: unchanged create_user_effect)

lemma SelfRegister_effect: "user_effect co req db (snd (SelfRegister e b db))"
  unfolding SelfRegister_def Let_def
  by (simp add: unchanged create_user_effect split: option.split prod.split)

lemma ChangeUserRole_effect: "user_effect co req db (snd (ChangeUserRole e co i b db))"
  unfolding ChangeUserRole_def Let_def
  by (auto simp: query_row_Inr_iff exec_Inr_iff split: option.splits sum.splits intro: unchanged role_set)

lemma DeleteUser_effect: "user_effect co req db (snd (DeleteUser e co i db))"
  unfolding DeleteUser_def Let_def
  by (auto simp: query_row_Inr_iff exec_Inr_iff split: option.splits sum.splits intro: unchanged deleted)

lemma CreateUpgradeRequest_effect: "user_effect co req db (snd (CreateUpgradeRequest e co b db))"
  unfolding CreateUpgradeRequest_def Let_def
  by (auto simp: exec_Inr_iff split: option.splits sum.splits intro: unchanged requested)

lemma ReviewUpgradeRequest_effect: "user_effect co (ReqReview i b) db (snd (ReviewUpgradeRequest e co i b db))"
  unfolding ReviewUpgradeRequest_def Let_def exec_log_def
  by (auto simp: exec_Inr_iff query_row_Inr_iff split: option.splits sum.splits dest!: filter_eq_ConsD
      intro: unchanged decided approved)

lemma user_api_effect: "user_api e co req db = (resp, db') \<Longrightarrow> user_effect co req db db'"
proof (cases req)
  case ReqListUsers
  moreover assume "user_api e co req db = (resp, db')"
  ultimately show ?thesis
    by (auto simp: ListUsers_def Let_def split: sum.splits if_splits intro: unchanged)
next
  case (ReqListUpgrade st)
  moreover assume "user_api e co req db = (resp, db')"
  ultimately show ?thesis
    by (auto simp: ListUpgradeRequests_def Let_def split: sum.splits if_splits intro: unchanged)
qed (metis snd_conv user_api.simps Register_effect SelfRegister_effect ChangeUserRole_effect DeleteUser_effect
      CreateUpgradeRequest_effect ReviewUpgradeRequest_effect)+

section \<open>Invariant\<close>

definition users_inv :: "platform \<Rightarrow> bool" where
  "users_inv db \<longleftrightarrow>
     distinct (map u_id (users db)) \<and> distinct (map (\<lambda>u. (u_ws u, u_email u)) (users db))
     \<and> list_all (\<lambda>u. u_role u \<in> set validRoles \<and> u_ws u \<in> set (workspaces db)) (users db)
     \<and> distinct (map pr_id (preqs db))
     \<and> list_all (\<lambda>p. pr_role p \<in> {''data_admin'', ''read_only_visitor''}) (preqs db)"

lemma validRoles_mem [simp]:
  "''super_admin'' \<in> set validRoles" "''data_admin'' \<in> set validRoles"
  "''normal_user'' \<in> set validRoles" "''read_only_visitor'' \<in> set validRoles"
  by (simp_all add: validRoles_def)

lemma users_inv_insert_user [inv_rules]:
  "users_inv db \<Longrightarrow> insert_user u db = Inr db' \<Longrightarrow> u_role u \<in> set validRoles \<Longrightarrow> users_inv db'"
  by (auto simp: users_inv_def insert_user_Inr)

lemma users_inv_set_role [inv_rules]:
  assumes "users_inv db" and "r \<in> set validRoles"
  shows "users_inv (set_role i r db)"
  using assms by (auto simp: users_inv_def update_users_def comp_upd list_all_iff)

lemma users_inv_delete [inv_rules]: "users_inv db \<Longrightarrow> users_inv (delete_users P db)"
  by (auto simp: users_inv_def list_all_iff intro: distinct_map_filter)

lemma users_inv_insert_preq [inv_rules]:
  "users_inv db \<Longrightarrow> insert_preq p db = Inr db' \<Longrightarrow> pr_role p \<in> {''data_admin'', ''read_only_visitor''} \<Longrightarrow> users_inv db'"
  by (auto simp: users_inv_def insert_preq_Inr)

lemma users_inv_decide [inv_rules]: "users_inv db \<Longrightarrow> users_inv (decide i st rv n db)"
  by (auto simp: users_inv_def update_preqs_def comp_upd list_all_iff)

lemma users_inv_preq_role: "users_inv db \<Longrightarrow> p \<in> set (preqs db) \<Longrightarrow> pr_role p \<in> set validRoles"
  by (auto simp: users_inv_def list_all_iff)

lemma users_inv_effect: "user_effect co req db db' \<Longrightarrow> users_inv db \<Longrightarrow> users_inv db'"
proof (induction rule: user_effect.induct)
  case (self_created u db db' co req)
  then show ?case by (auto intro: users_inv_insert_user [of db u])
next
  case (created co u db db' req)
  then show ?case by (auto intro: users_inv_insert_user [of db u])
next
  case (role_set co r i db t ts req)
  then show ?case by (blast intro: users_inv_set_role)
next
  case (requested p db db' co req)
  then show ?case by (blast intro: users_inv_insert_preq)
next
  case (approved co p db i b rv n)
  then show ?case by (blast intro: users_inv_set_role users_inv_decide users_inv_preq_role)
qed (simp_all only: users_inv_delete users_inv_decide)

lemma users_inv_step: "user_step db db' \<Longrightarrow> users_inv db \<Longrightarrow> users_inv db'"
proof (erule user_stepE)
  fix e em pw r assume "EnsureAdminUser e em pw db = (r, db')" "users_inv db"
  then show "users_inv db'"
    by (auto simp: EnsureAdminUser_def exec_Inr_iff Let_def split: sum.splits if_splits option.splits intro: users_inv_insert_user)
qed (blast dest: user_api_effect users_inv_effect)

text \<open>
  Whatever requests are sent, by whom, and whichever database calls fail, the user tables stay
  well formed: identifiers and e-mail addresses are unique, every user has one of the four roles
  and an existing workspace, and no permission request asks for anything but
  \<open>data_admin\<close> or \<open>read_only_visitor\<close>.
\<close>

theorem users_invariant:
  assumes "user_reach db0 db" and "users_inv db0"
  shows "users_inv db"
  using assms by induction (auto intro: users_inv_step)

definition demo_user_db :: "user list \<Rightarrow> preq list \<Rightarrow> platform" where
  "demo_user_db us ps = empty_platform\<lparr>workspaces := [DemoWorkspaceID], users := us, preqs := ps\<rparr>"

lemma demo_user_db_simps [simp]:
  "users (demo_user_db us ps) = us" "preqs (demo_user_db us ps) = ps" "workspaces (demo_user_db us ps) = [DemoWorkspaceID]"
  by (simp_all add: demo_user_db_def)

definition demo_user_row :: "string \<Rightarrow> string \<Rightarrow> user" where
  "demo_user_row i r = \<lparr>u_id = i, u_ws = DemoWorkspaceID, u_email = i @ ''@phone.local'', u_hash = ''$pw'', u_role = r,
     u_name = i, u_phone = i, u_created = 0\<rparr>"

lemma demo_user_row_simps [simp]:
  "u_id (demo_user_row i r) = i" "u_ws (demo_user_row i r) = DemoWorkspaceID" "u_role (demo_user_row i r) = r"
  "u_email (demo_user_row i r) = i @ ''@phone.local''" "u_phone (demo_user_row i r) = i"
  "(demo_user_row i r)\<lparr>u_role := r'\<rparr> = demo_user_row i r'"
  by (simp_all add: demo_user_row_def)

lemma demo_trim: "TrimSpace ''ann'' = ''ann''" "TrimSpace ''555'' = ''555''"
  by (simp_all add: trim_eval)

lemma demo_self_register:
  "user_api calm_env None (ReqSelfRegister (Some (''ann'', ''555'', ''pw''))) (demo_user_db [] []) =
     (JSON StatusCreated (JObj [(''id'', JStr (''uuid-'' @ nat_dec 0)), (''name'', JStr ''ann''), (''role'', JStr ''normal_user''),
        (''message'', JStr ''registration successful, please login'')]),
      demo_user_db [\<lparr>u_id = ''uuid-'' @ nat_dec 0, u_ws = DemoWorkspaceID, u_email = ''555@phone.local'', u_hash = ''$pw'',
        u_role = ''normal_user'', u_name = ''ann'', u_phone = ''555'', u_created = 0\<rparr>] [])"
  by (simp add: SelfRegister_def create_user_def calm_env_def count_or_zero_def query_row_def exec_def insert_user_def
      Let_def demo_user_db_def demo_trim)

theorem users_invariant_witness:
  "users_inv (demo_user_db [\<lparr>u_id = ''uuid-'' @ nat_dec 0, u_ws = DemoWorkspaceID, u_email = ''555@phone.local'', u_hash = ''$pw'',
        u_role = ''normal_user'', u_name = ''ann'', u_phone = ''555'', u_created = 0\<rparr>] [])"
proof (rule users_invariant)
  show "users_inv (demo_user_db [] [])" by (simp add: users_inv_def)
  show "user_reach (demo_user_db [] []) (demo_user_db [\<lparr>u_id = ''uuid-'' @ nat_dec 0, u_ws = DemoWorkspaceID, u_email = ''555@phone.local'', u_hash = ''$pw'',
        u_role = ''normal_user'', u_name = ''ann'', u_phone = ''555'', u_created = 0\<rparr>] [])"
    by (rule user_reach.step [OF user_reach.init user_step.request [OF demo_self_register]])
qed

section \<open>Privileges\<close>

text \<open>
  C4. No escalation. A request whose token does not say \<open>super_admin\<close> (or that has no
  token) leaves every existing user as it is, and the only user it can add is a
  \<open>normal_user\<close>.
\<close>

theorem no_privilege_escalation:
  assumes "user_api e co req db = (resp, db')" and "\<not> is_super co"
  shows "users db' = users db \<or> (\<exists>u. users db' = users db @ [u] \<and> u_role u = ''normal_user'')"
  using user_api_effect [OF assms(1)] assms(2)
  by cases (auto simp: insert_user_Inr insert_preq_Inr)

theorem no_privilege_escalation_witness:
  "\<exists>resp db'. user_api calm_env None (ReqSelfRegister (Some (''ann'', ''555'', ''pw''))) (demo_user_db [] []) = (resp, db')
     \<and> (users db' = [] \<or> (\<exists>u. users db' = [] @ [u] \<and> u_role u = ''normal_user''))"
  using no_privilege_escalation [OF demo_self_register] demo_self_register by (simp del: user_api.simps)

lemma first_match_unique:
  assumes "users_inv db" and "filter (demo_user i) (users db) = t # ts" and "u \<in> set (users db)" and "u_id u = i"
  shows "u = t"
  using assms filter_eq_ConsD [OF assms(2)] by (auto simp: users_inv_def intro: distinct_map_eq)

text \<open>
  Administrators are protected from direct edits. In a well-formed database no request other
  than the review of a permission request removes a \<open>super_admin\<close> or changes its row.
\<close>

theorem super_admins_protected:
  assumes "users_inv db" and "user_api e co req db = (resp, db')" and "\<forall>i b. req \<noteq> ReqReview i b"
    and "u \<in> set (users db)" and "u_role u = ''super_admin''"
  shows "u \<in> set (users db')"
  using user_api_effect [OF assms(2)]
proof cases
  case (role_set r i t ts)
  then have "u_id u \<noteq> i" using first_match_unique [OF assms(1) role_set(4) assms(4)] assms(5) by auto
  then show ?thesis using role_set assms(4) by (auto simp: update_users_def)
next
  case (deleted i t ts)
  then have "u_id u \<noteq> i" using first_match_unique [OF assms(1) deleted(3) assms(4)] assms(5) by auto
  then show ?thesis using deleted(1) assms(4) by simp
qed (use assms(3,4) in \<open>simp_all add: insert_user_Inr insert_preq_Inr update_preqs_def\<close>)

definition demo_super :: "string \<Rightarrow> Claims" where
  "demo_super i = \<lparr>UserID = i, WorkspaceID = DemoWorkspaceID, Role = ''super_admin'', ExpiresAt = None, NotBefore = None,
     IssuedAt = None, ID = [], Subject = []\<rparr>"

lemma demo_super_simps [simp]:
  "UserID (demo_super i) = i" "WorkspaceID (demo_super i) = DemoWorkspaceID" "Role (demo_super i) = ''super_admin''"
  by (simp_all add: demo_super_def)

lemma demo_delete:
  "user_api calm_env (Some (demo_super ''a'')) (ReqDeleteUser ''b'')
     (demo_user_db [demo_user_row ''a'' ''super_admin'', demo_user_row ''b'' ''normal_user''] []) =
   (JSON StatusOK (JObj [(''message'', JStr ''ok'')]), demo_user_db [demo_user_row ''a'' ''super_admin''] [])"
  by (simp add: DeleteUser_def demo_super_def calm_env_def query_row_def exec_def demo_user_db_def delete_users_def
      delete_sessions_def Let_def empty_platform_def)

theorem super_admins_protected_witness:
  "demo_user_row ''a'' ''super_admin'' \<in> set (users (demo_user_db [demo_user_row ''a'' ''super_admin''] []))"
  by (rule super_admins_protected [OF _ demo_delete]) (simp_all add: users_inv_def)

lemma demo_lower: "ToLower (TrimSpace ''read_only_visitor'') = ''read_only_visitor''" "ToLower (TrimSpace ''approve'') = ''approve''"
  by (simp_all add: trim_eval go_str)

text \<open>
  C38. Reviews have no such protection: \<open>ReviewUpgradeRequest\<close> sets the role without looking
  at the current one, and any user may file a request. From a well-formed database with one
  administrator, that administrator's own request, approved, leaves no administrator.
\<close>

theorem review_can_remove_last_super_admin:
  "\<exists>db0 db1 db2 resp1 resp2.
     users_inv db0 \<and> ''super_admin'' \<in> u_role ` set (users db0)
     \<and> user_api (calm_env\<lparr>col_default := \<lambda>_. ''pending''\<rparr>) (Some (demo_super ''a'')) (ReqCreateUpgrade (Some (''read_only_visitor'', []))) db0 = (resp1, db1)
     \<and> user_api calm_env (Some (demo_super ''a'')) (ReqReview (''uuid-'' @ nat_dec 0) (Some (''approve'', []))) db1 = (resp2, db2)
     \<and> status resp1 = StatusCreated \<and> status resp2 = StatusOK
     \<and> ''super_admin'' \<notin> u_role ` set (users db2)"
proof -
  let ?p = "\<lambda>st rv n. \<lparr>pr_id = ''uuid-'' @ nat_dec 0, pr_user = ''a'', pr_role = ''read_only_visitor'', pr_reason = [], pr_status = st,
              pr_reviewer = rv, pr_notes = n, pr_created = 0\<rparr>"
  let ?db0 = "demo_user_db [demo_user_row ''a'' ''super_admin''] []"
  let ?db1 = "demo_user_db [demo_user_row ''a'' ''super_admin''] [?p ''pending'' None None]"
  let ?db2 = "demo_user_db [demo_user_row ''a'' ''read_only_visitor''] [?p ''approved'' (Some ''a'') (Some [])]"
  have "user_api (calm_env\<lparr>col_default := \<lambda>_. ''pending''\<rparr>) (Some (demo_super ''a'')) (ReqCreateUpgrade (Some (''read_only_visitor'', []))) ?db0
          = (JSON StatusCreated (JObj [(''id'', JStr (''uuid-'' @ nat_dec 0)), (''status'', JStr ''pending'')]), ?db1)"
    by (simp add: CreateUpgradeRequest_def demo_super_def calm_env_def exec_def insert_preq_def Let_def demo_user_db_def demo_lower)
  moreover have "user_api calm_env (Some (demo_super ''a'')) (ReqReview (''uuid-'' @ nat_dec 0) (Some (''approve'', []))) ?db1
          = (JSON StatusOK (JObj [(''message'', JStr ''ok''), (''status'', JStr ''approved'')]), ?db2)"
    by (simp add: ReviewUpgradeRequest_def demo_super_def calm_env_def exec_def exec_log_def query_row_def update_preqs_def
        update_users_def Let_def demo_user_db_def demo_lower)
  moreover have "users_inv ?db0" by (simp add: users_inv_def)
  ultimately show ?thesis
    by (intro exI [of _ ?db0] exI [of _ ?db1] exI [of _ ?db2]) (auto simp del: user_api.simps)
qed

end
