(* ===== verification/Mysqlmgr.thy ===== *)
theory Mysqlmgr
  imports Go_Strings
begin

text \<open>
  The manager of the dataset databases: \<open>internal/mysqlmgr/manager.go\<close> (one connection pool
  per dataset) and \<open>internal/mysqlmgr/ddl.go\<close> (field validation and DDL). The MySQL server is
  the parameter \<open>mysql_server\<close>: the errors of \<open>sql.Open\<close>, \<open>Ping\<close> and \<open>Exec\<close>
  for a data source name. A \<open>*sql.DB\<close> is the index of the pool in the list of all pools ever
  opened, so that a pool that was closed, or lost, can be told apart. Operations return the
  statements they send together with the data source name. The mutex makes each operation atomic.
\<close>

section \<open>Fields\<close>

record FieldDef =
  fd_name :: string
  fd_type :: string
  fd_len :: int
  fd_nullable :: bool

definition validTypes :: "string list" where
  "validTypes = [''VARCHAR'', ''INT'', ''BIGINT'', ''DECIMAL'', ''DATE'', ''DATETIME'', ''TEXT'', ''BOOLEAN'', ''FLOAT'', ''DOUBLE'']"

definition IsValidFieldType :: "string \<Rightarrow> bool" where
  "IsValidFieldType t \<longleftrightarrow> ToUpper t \<in> set validTypes"

text \<open>The verb \<open>%q\<close>, for printable text.\<close>

definition go_quote :: "string \<Rightarrow> string" where
  "go_quote s = ''\"'' @ concat (map (\<lambda>c. if c = CHR 0x22 \<or> c = CHR 0x5C then [CHR 0x5C, c] else [c]) s) @ ''\"''"

fun validate_loop :: "string set \<Rightarrow> FieldDef list \<Rightarrow> err" where
  "validate_loop names [] = None"
| "validate_loop names (f # fs) =
     (let upper = ToUpper (fd_type f) in
      if upper \<notin> set validTypes
      then Some (''invalid field type '' @ go_quote (fd_type f) @ '' for '' @ go_quote (fd_name f))
      else if (upper = ''VARCHAR'' \<or> upper = ''DECIMAL'') \<and> fd_len f \<le> 0
      then Some (''field '' @ go_quote (fd_name f) @ '' with type '' @ upper @ '' requires length > 0'')
      else if fd_name f \<in> names then Some (''duplicate field name '' @ go_quote (fd_name f))
      else validate_loop (insert (fd_name f) names) fs)"

definition ValidateFields :: "FieldDef list \<Rightarrow> err" where
  "ValidateFields flds = validate_loop {} flds"

definition colDef :: "FieldDef \<Rightarrow> string" where
  "colDef f =
     (let upper = ToUpper (fd_type f);
          q = ''`'' @ fd_name f @ ''` '';
          d = (if upper = ''VARCHAR'' then q @ ''VARCHAR('' @ int_dec (fd_len f) @ '')''
               else if upper = ''DECIMAL'' then q @ ''DECIMAL('' @ int_dec (fd_len f) @ '',2)''
               else if upper \<in> {''INT'', ''BIGINT'', ''FLOAT'', ''DOUBLE''} then q @ upper
               else if upper = ''BOOLEAN'' then q @ ''TINYINT(1)''
               else q @ upper)
      in if fd_nullable f then d else d @ '' NOT NULL'')"

definition buildCreateTableSQL :: "string \<Rightarrow> FieldDef list \<Rightarrow> string" where
  "buildCreateTableSQL tableName flds =
     ''CREATE TABLE `'' @ tableName @ ''` ('' @ [newline] @ ''  '' @ Join (map colDef flds) ('','' @ [newline] @ ''  '')
     @ [newline] @ '') ENGINE=InnoDB DEFAULT CHARSET=utf8mb4''"

section \<open>Pools\<close>

record mysql_config =
  Host :: string
  Port :: int
  RootUser :: string
  RootPass :: string

text \<open>
  What the server answers: \<open>sql.Open\<close> only checks the data source name and connects nowhere, so its
  result is a function of the name; a ping, and a statement in a database, succeed or fail. Different
  statements fail independently of each other, the \<open>DROP DATABASE\<close> that follows a \<open>CREATE DATABASE\<close>
  included.
\<close>

record mysql_server =
  my_open :: "string \<Rightarrow> err"
  my_ping :: "string \<Rightarrow> err"
  my_exec :: "string \<Rightarrow> string \<Rightarrow> err"

record manager =
  pools :: "string \<rightharpoonup> nat"
  mcfg :: mysql_config
  opened :: "string list"
  mclosed :: "nat set"

type_synonym my_stmt = "string \<times> string"

definition NewManager :: "mysql_config \<Rightarrow> manager" where
  "NewManager cfg = \<lparr>pools = Map.empty, mcfg = cfg, opened = [], mclosed = {}\<rparr>"

definition RootDSN :: "manager \<Rightarrow> string" where
  "RootDSN m = RootUser (mcfg m) @ '':'' @ RootPass (mcfg m) @ ''@tcp('' @ Host (mcfg m) @ '':'' @ int_dec (Port (mcfg m)) @ '')/''"

definition databaseDSN :: "manager \<Rightarrow> string \<Rightarrow> string" where
  "databaseDSN m dbName =
     RootUser (mcfg m) @ '':'' @ RootPass (mcfg m) @ ''@tcp('' @ Host (mcfg m) @ '':'' @ int_dec (Port (mcfg m)) @ '')/'' @ dbName
     @ ''?charset=utf8mb4&parseTime=true&loc=Local''"

definition Connect :: "mysql_server \<Rightarrow> string \<Rightarrow> string \<Rightarrow> manager \<Rightarrow> nat res \<times> manager" where
  "Connect srv datasetID mysqlDatabase m =
     (case pools m datasetID of
        Some p \<Rightarrow> (Inr p, m)
      | None \<Rightarrow>
          (let dsn = databaseDSN m mysqlDatabase in
           case my_open srv dsn of
             Some e \<Rightarrow> (Inl (''mysqlmgr: open '' @ mysqlDatabase @ '': '' @ e), m)
           | None \<Rightarrow>
               (let p = length (opened m); m1 = m\<lparr>opened := opened m @ [dsn]\<rparr> in
                case my_ping srv dsn of
                  Some e \<Rightarrow> (Inl (''mysqlmgr: ping '' @ mysqlDatabase @ '': '' @ e), m1\<lparr>mclosed := insert p (mclosed m1)\<rparr>)
                | None \<Rightarrow> (Inr p, m1\<lparr>pools := (pools m1)(datasetID \<mapsto> p)\<rparr>))))"

definition GetPool :: "string \<Rightarrow> manager \<Rightarrow> nat option" where
  "GetPool datasetID m = pools m datasetID"

definition Close :: "string \<Rightarrow> manager \<Rightarrow> manager" where
  "Close datasetID m =
     (case pools m datasetID of
        None \<Rightarrow> m
      | Some p \<Rightarrow> m\<lparr>mclosed := insert p (mclosed m), pools := (pools m)(datasetID := None)\<rparr>)"

definition CloseAll :: "manager \<Rightarrow> manager" where
  "CloseAll m = m\<lparr>mclosed := mclosed m \<union> ran (pools m), pools := Map.empty\<rparr>"

section \<open>DDL\<close>

definition root_exec :: "mysql_server \<Rightarrow> string \<Rightarrow> string \<Rightarrow> manager \<Rightarrow> err \<times> my_stmt list" where
  "root_exec srv what stmt m =
     (let dsn = RootDSN m in
      case my_open srv dsn of
        Some e \<Rightarrow> (Some (''mysqlmgr: open root: '' @ e), [])
      | None \<Rightarrow> (case my_exec srv dsn stmt of
                   Some e \<Rightarrow> (Some (''mysqlmgr: '' @ what @ '': '' @ e), [(dsn, stmt)])
                 | None \<Rightarrow> (None, [(dsn, stmt)])))"

definition CreateDatabase :: "mysql_server \<Rightarrow> string \<Rightarrow> manager \<Rightarrow> err \<times> my_stmt list" where
  "CreateDatabase srv dbName m =
     root_exec srv (''create database '' @ dbName) (''CREATE DATABASE IF NOT EXISTS `'' @ dbName @ ''` DEFAULT CHARSET utf8mb4'') m"

definition DropDatabase :: "mysql_server \<Rightarrow> string \<Rightarrow> manager \<Rightarrow> err \<times> my_stmt list" where
  "DropDatabase srv dbName m =
     root_exec srv (''drop database '' @ dbName) (''DROP DATABASE IF EXISTS `'' @ dbName @ ''`'') m"

text \<open>The pool of a dataset, connecting on the first use.\<close>

definition pool_for :: "mysql_server \<Rightarrow> string \<Rightarrow> string \<Rightarrow> manager \<Rightarrow> nat res \<times> manager" where
  "pool_for srv datasetID mysqlDB m =
     (case GetPool datasetID m of Some p \<Rightarrow> (Inr p, m) | None \<Rightarrow> Connect srv datasetID mysqlDB m)"

definition dataset_exec :: "mysql_server \<Rightarrow> string \<Rightarrow> string \<Rightarrow> string \<Rightarrow> string \<Rightarrow> manager \<Rightarrow> err \<times> manager \<times> my_stmt list" where
  "dataset_exec srv datasetID mysqlDB what stmt m =
     (case pool_for srv datasetID mysqlDB m of
        (Inl e, m') \<Rightarrow> (Some e, m', [])
      | (Inr p, m') \<Rightarrow>
          (let dsn = opened m' ! p in
           (map_option (\<lambda>e. ''mysqlmgr: '' @ what @ '': '' @ e) (my_exec srv dsn stmt), m', [(dsn, stmt)])))"

definition CreateTable ::
  "mysql_server \<Rightarrow> string \<Rightarrow> string \<Rightarrow> string \<Rightarrow> FieldDef list \<Rightarrow> manager \<Rightarrow> err \<times> manager \<times> my_stmt list" where
  "CreateTable srv datasetID mysqlDB mysqlTableName flds m =
     (case ValidateFields flds of
        Some e \<Rightarrow> (Some (''mysqlmgr: validate fields: '' @ e), m, [])
      | None \<Rightarrow> dataset_exec srv datasetID mysqlDB (''create table '' @ mysqlTableName) (buildCreateTableSQL mysqlTableName flds) m)"

definition DropTable :: "mysql_server \<Rightarrow> string \<Rightarrow> string \<Rightarrow> string \<Rightarrow> manager \<Rightarrow> err \<times> manager \<times> my_stmt list" where
  "DropTable srv datasetID mysqlDB mysqlTableName m =
     dataset_exec srv datasetID mysqlDB (''drop table '' @ mysqlTableName) (''DROP TABLE IF EXISTS `'' @ mysqlTableName @ ''`'') m"

section \<open>Invariant: no pool is lost, none is used after it was closed\<close>

definition mgr_inv :: "manager \<Rightarrow> bool" where
  "mgr_inv m \<longleftrightarrow>
     ran (pools m) \<union> mclosed m = {..<length (opened m)} \<and> ran (pools m) \<inter> mclosed m = {}
     \<and> inj_on (pools m) (dom (pools m))"

datatype mgr_op =
    OpConnect string string
  | OpClose string
  | OpCloseAll
  | OpCreateTable string string string "FieldDef list"
  | OpDropTable string string string

fun mgr_apply :: "mysql_server \<Rightarrow> mgr_op \<Rightarrow> manager \<Rightarrow> manager" where
  "mgr_apply srv (OpConnect d n) m = snd (Connect srv d n m)"
| "mgr_apply srv (OpClose d) m = Close d m"
| "mgr_apply srv OpCloseAll m = CloseAll m"
| "mgr_apply srv (OpCreateTable d n t fs) m = fst (snd (CreateTable srv d n t fs m))"
| "mgr_apply srv (OpDropTable d n t) m = fst (snd (DropTable srv d n t m))"

fun mgr_run :: "(mysql_server \<times> mgr_op) list \<Rightarrow> manager \<Rightarrow> manager" where
  "mgr_run [] m = m"
| "mgr_run ((srv, x) # xs) m = mgr_run xs (mgr_apply srv x m)"

lemma mgr_inv_New: "mgr_inv (NewManager cfg)"
  by (simp add: mgr_inv_def NewManager_def)

lemma lessThan_snoc: "{..<Suc n} = insert n {..<n}"
  by auto

lemma mgr_inv_Connect [inv_rules]: "mgr_inv m \<Longrightarrow> mgr_inv (snd (Connect srv d n m))"
proof -
  assume inv: "mgr_inv m"
  have fresh: "length (opened m) \<notin> ran (pools m)" "length (opened m) \<notin> mclosed m"
    using inv unfolding mgr_inv_def by (metis UnI1 UnI2 lessThan_iff less_irrefl)+
  have inj: "pools m d = None \<Longrightarrow> inj_on ((pools m)(d \<mapsto> length (opened m))) (insert d (dom (pools m)))"
    using inv fresh(1) by (auto simp: mgr_inv_def inj_on_def ran_def split: if_splits)
  show ?thesis
    using inv fresh inj
    by (auto simp: Connect_def mgr_inv_def Let_def lessThan_snoc split: option.splits)
qed

lemma ran_remove: "inj_on f (dom f) \<Longrightarrow> f d = Some p \<Longrightarrow> ran (f(d := None)) = ran f - {p}"
proof -
  assume f: "inj_on f (dom f)" "f d = Some p"
  have "a \<noteq> d \<and> x \<noteq> p" if "f a = Some x" "a \<noteq> d \<or> x \<noteq> p" for a x
    using f that by (auto simp: inj_on_def dom_def)
  then show ?thesis using f(2) by (auto simp: ran_def)
qed

lemma mgr_inv_Close [inv_rules]: "mgr_inv m \<Longrightarrow> mgr_inv (Close d m)"
proof (cases "pools m d")
  case (Some p)
  assume inv: "mgr_inv m"
  have "p \<in> ran (pools m)" using Some by (rule ranI)
  moreover have "inj_on ((pools m)(d := None)) (dom (pools m) - {d})"
    using inv by (auto simp: mgr_inv_def inj_on_def)
  ultimately show ?thesis
    using inv Some by (auto simp: Close_def mgr_inv_def ran_remove)
qed (simp add: Close_def)

lemma mgr_inv_CloseAll [inv_rules]: "mgr_inv m \<Longrightarrow> mgr_inv (CloseAll m)"
  by (auto simp: CloseAll_def mgr_inv_def)

lemma pool_for_snd: "snd (pool_for srv d n m) = m \<or> snd (pool_for srv d n m) = snd (Connect srv d n m)"
  by (simp add: pool_for_def split: option.splits)

lemma dataset_exec_mgr: "fst (snd (dataset_exec srv d n w s m)) = snd (pool_for srv d n m)"
  by (simp add: dataset_exec_def Let_def split: prod.splits sum.splits)

lemma mgr_inv_dataset_exec [inv_rules]: "mgr_inv m \<Longrightarrow> mgr_inv (fst (snd (dataset_exec srv d n w s m)))"
  using pool_for_snd [of srv d n m] mgr_inv_Connect [of m srv d n] by (auto simp: dataset_exec_mgr)

lemma mgr_inv_apply: "mgr_inv m \<Longrightarrow> mgr_inv (mgr_apply srv x m)"
  by (cases x) (auto simp: CreateTable_def DropTable_def inv_rules split: option.splits)

lemma mgr_inv_run: "mgr_inv m \<Longrightarrow> mgr_inv (mgr_run xs m)"
  by (induction xs m rule: mgr_run.induct) (auto intro: mgr_inv_apply)

text \<open>
  What the clients of the manager rely on: a source of pools for a dataset keeps the invariant,
  caches the pool it hands out under the dataset, and leaves the cache alone when it fails.
\<close>

locale pool_source =
  fixes get :: "manager \<Rightarrow> nat res \<times> manager" and d :: string
  assumes get_inv: "mgr_inv m \<Longrightarrow> mgr_inv (snd (get m))"
    and get_cached: "get m = (Inr p, m') \<Longrightarrow> pools m' d = Some p"
    and get_failed: "get m = (Inl x, m') \<Longrightarrow> pools m' = pools m"
begin

lemma live:
  assumes "mgr_inv m" and "get m = (Inr p, m')"
  shows "pools m' d = Some p \<and> p < length (opened m') \<and> p \<notin> mclosed m'"
proof -
  have "mgr_inv m'" using get_inv [OF assms(1)] assms(2) by simp
  with get_cached [OF assms(2)] show ?thesis unfolding mgr_inv_def by (auto dest: ranI)
qed

lemma outcome:
  assumes "mgr_inv m"
  shows "case get m of
           (Inr p, m') \<Rightarrow> pools m' d = Some p \<and> p < length (opened m') \<and> p \<notin> mclosed m'
         | (Inl _, m') \<Rightarrow> pools m' = pools m"
proof (cases "get m")
  case (Pair r m')
  then show ?thesis using live [OF assms] get_failed by (cases r) auto
qed

end

interpretation connect: pool_source "Connect srv d n" d for srv d n
  by unfold_locales (auto simp: inv_rules, auto simp: Connect_def Let_def split: option.splits)

interpretation cached: pool_source "pool_for srv d n" d for srv d n
proof unfold_locales
  show "mgr_inv (snd (pool_for srv d n m))" if "mgr_inv m" for m
    using pool_for_snd [of srv d n m] connect.get_inv [OF that, of srv d n] that by auto
  show "pools m' d = Some p" if "pool_for srv d n m = (Inr p, m')" for m p m'
    using that connect.get_cached [of srv d n m p m'] by (auto simp: pool_for_def GetPool_def split: option.splits)
  show "pools m' = pools m" if "pool_for srv d n m = (Inl x, m')" for m x m'
    using that connect.get_failed [of srv d n m x m'] by (auto simp: pool_for_def split: option.splits)
qed

text \<open>
  C29. No connection pool is lost and none is used after it was closed. After any sequence of the
  manager's operations, whatever the server answers to each, every pool that was ever opened is
  either cached under exactly one dataset or closed, never both; closing everything closes all of
  them; and the pool an operation obtains for a dataset is open.
\<close>

theorem pools_accounted:
  "let m = mgr_run xs (NewManager cfg) in
     mgr_inv m \<and> mclosed (CloseAll m) = {..<length (opened m)} \<and> pools (CloseAll m) = Map.empty
     \<and> (case pool_for srv d n m of
          (Inr p, m') \<Rightarrow> pools m' d = Some p \<and> p < length (opened m') \<and> p \<notin> mclosed m'
        | (Inl _, m') \<Rightarrow> pools m' = pools m)"
proof -
  define m where "m = mgr_run xs (NewManager cfg)"
  have inv: "mgr_inv m" unfolding m_def by (rule mgr_inv_run [OF mgr_inv_New])
  note cached.outcome [OF inv, where srv = srv and d = d and n = n]
  moreover have "mclosed (CloseAll m) = {..<length (opened m)} \<and> pools (CloseAll m) = Map.empty"
    using inv by (auto simp: CloseAll_def mgr_inv_def)
  ultimately show ?thesis using inv unfolding Let_def m_def [symmetric] by simp
qed

section \<open>Field validation\<close>

definition valid_field :: "FieldDef \<Rightarrow> bool" where
  "valid_field f \<longleftrightarrow>
     IsValidFieldType (fd_type f) \<and> (ToUpper (fd_type f) \<in> {''VARCHAR'', ''DECIMAL''} \<longrightarrow> 0 < fd_len f)"

lemma validate_loop_iff:
  "validate_loop names fs = None \<longleftrightarrow>
     list_all valid_field fs \<and> distinct (map fd_name fs) \<and> names \<inter> set (map fd_name fs) = {}"
proof (induction names fs rule: validate_loop.induct)
  case (2 names f fs)
  then show ?case
    by (auto simp: Let_def valid_field_def IsValidFieldType_def)
qed simp

text \<open>
  \<open>ValidateFields\<close> accepts exactly the lists in which every type is one of the ten allowed
  types in any case, every \<open>VARCHAR\<close> and \<open>DECIMAL\<close> has a positive length, and no name
  occurs twice; and \<open>CreateTable\<close> sends nothing to the server, and opens no pool, for any
  other list.
\<close>

theorem ValidateFields_iff:
  "(ValidateFields fs = None \<longleftrightarrow> list_all valid_field fs \<and> distinct (map fd_name fs))
   \<and> (if ValidateFields fs = None
      then CreateTable srv d n t fs m = dataset_exec srv d n (''create table '' @ t) (buildCreateTableSQL t fs) m
      else \<exists>msg. CreateTable srv d n t fs m = (Some msg, m, []))"
proof -
  have "ValidateFields fs = None \<longleftrightarrow> list_all valid_field fs \<and> distinct (map fd_name fs)"
    by (simp add: ValidateFields_def validate_loop_iff)
  then show ?thesis by (cases "ValidateFields fs") (simp_all add: CreateTable_def)
qed

end
