(* ===== verification/Datasets.thy ===== *)
theory Datasets
  imports Users Mysqlmgr
begin

text \<open>
  Datasets and their permissions: \<open>internal/handlers/datasets.go\<close>. A dataset is a row of the
  platform database and a MySQL database of its own. The state of these handlers is the pair of
  the platform database and the connection manager; beside the answer they return the statements
  they sent to the dataset server. The repository has no DDL for these tables: the statements use
  \<open>id\<close> as the key of \<open>datasets\<close>, and (dataset, user) as the key of
  \<open>dataset_permissions\<close> (\<open>ON DUPLICATE KEY\<close>).
\<close>

type_synonym ds_state = "platform \<times> manager"
type_synonym ds_result = "response \<times> ds_state \<times> my_stmt list"

definition keep :: "response \<Rightarrow> ds_state \<Rightarrow> ds_result" where
  "keep r s = (r, s, [])"

definition generateMysqlDBName :: "string \<Rightarrow> string" where
  "generateMysqlDBName u = ''ds_'' @ take 16 (RemoveAll CHR ''-'' u)"

definition permission_join :: "string \<Rightarrow> string \<Rightarrow> platform \<Rightarrow> (dperm \<times> dataset) list" where
  "permission_join datasetID userID db =
     [(p, d). p \<leftarrow> dperms db, d \<leftarrow> datasets db,
              d_id d = dp_dataset p \<and> dp_dataset p = datasetID \<and> dp_user p = userID \<and> d_status d \<noteq> ''deleted'']"

definition hasDatasetAccess :: "env \<Rightarrow> nat \<Rightarrow> string \<Rightarrow> string \<Rightarrow> string \<Rightarrow> platform \<Rightarrow> bool" where
  "hasDatasetAccess e k userID datasetID role db =
     (if userID = [] \<or> datasetID = [] then False
      else if role = ''super_admin'' then True
      else (case query_row e k [length (permission_join datasetID userID db)] of
              Inl _ \<Rightarrow> False
            | Inr count \<Rightarrow> count > 0))"

definition omitempty :: "string \<Rightarrow> string \<Rightarrow> (string \<times> json) list" where
  "omitempty k v = (if v = [] then [] else [(k, JStr v)])"

definition dataset_json :: "string \<Rightarrow> dataset \<Rightarrow> json" where
  "dataset_json createdBy d =
     JObj ([(''id'', JStr (d_id d)), (''name'', JStr (d_name d)), (''mysql_database'', JStr (d_mysql d)), (''status'', JStr (d_status d))]
           @ omitempty ''created_by'' createdBy
           @ [(''created_at'', JStr (rfc3339 (d_created d))), (''updated_at'', JStr (rfc3339 (d_updated d)))])"

definition visible_datasets :: "Claims \<Rightarrow> platform \<Rightarrow> dataset list" where
  "visible_datasets c db =
     sort_key (\<lambda>d. - d_created d)
       (if Role c = ''super_admin'' then filter (\<lambda>d. d_status d \<noteq> ''deleted'') (datasets db)
        else [d. d \<leftarrow> datasets db, p \<leftarrow> dperms db, dp_dataset p = d_id d \<and> dp_user p = UserID c \<and> d_status d \<noteq> ''deleted''])"

definition ListDatasets :: "env \<Rightarrow> Claims option \<Rightarrow> platform \<Rightarrow> response" where
  "ListDatasets e co db =
     (case co of
        None \<Rightarrow> errJSON StatusUnauthorized ''unauthorized''
      | Some c \<Rightarrow>
          (case query e 0 (visible_datasets c db) of
             Inl _ \<Rightarrow> errJSON StatusInternalServerError ''db error''
           | Inr rows \<Rightarrow>
               JSON StatusOK (JObj [(''datasets'', json_slice (map (dataset_json []) (scan_skip e 0 (rows_next e 0 rows))))])))"

definition insert_dataset :: "dataset \<Rightarrow> platform \<Rightarrow> platform res" where
  "insert_dataset d db =
     (if d_id d \<in> d_id ` set (datasets db) then Inl dup_entry else Inr (db\<lparr>datasets := datasets db @ [d]\<rparr>))"

definition insert_dperm :: "dperm \<Rightarrow> platform \<Rightarrow> platform res" where
  "insert_dperm p db =
     (if (dp_dataset p, dp_user p) \<in> (\<lambda>q. (dp_dataset q, dp_user q)) ` set (dperms db) then Inl dup_entry
      else Inr (db\<lparr>dperms := dperms db @ [p]\<rparr>))"

text \<open>\<open>INSERT ... ON DUPLICATE KEY UPDATE permission_level\<close>.\<close>

definition upsert_dperm :: "dperm \<Rightarrow> platform \<Rightarrow> platform" where
  "upsert_dperm p db =
     (if (dp_dataset p, dp_user p) \<in> (\<lambda>q. (dp_dataset q, dp_user q)) ` set (dperms db)
      then db\<lparr>dperms := map (\<lambda>q. if dp_dataset q = dp_dataset p \<and> dp_user q = dp_user p then q\<lparr>dp_level := dp_level p\<rparr> else q) (dperms db)\<rparr>
      else db\<lparr>dperms := dperms db @ [p]\<rparr>)"

definition dataset_row :: "env \<Rightarrow> string \<Rightarrow> string \<Rightarrow> string \<Rightarrow> dataset" where
  "dataset_row e name mysqlDB userID =
     \<lparr>d_id = uuid e 1, d_name = name, d_mysql = mysqlDB, d_status = col_default e ''datasets.status'',
      d_by = Some userID, d_created = now e, d_updated = now e\<rparr>"

definition CreateDataset :: "env \<Rightarrow> mysql_server \<Rightarrow> Claims option \<Rightarrow> string option \<Rightarrow> ds_state \<Rightarrow> ds_result" where
  "CreateDataset e srv co bo s =
     (case s of (db, mgr) \<Rightarrow>
       (case co of
          None \<Rightarrow> keep (errJSON StatusForbidden ''only super_admin can create datasets'') s
        | Some c \<Rightarrow>
            if \<not> IsSuperAdmin (Role c) then keep (errJSON StatusForbidden ''only super_admin can create datasets'') s
            else (case bo of
                    None \<Rightarrow> keep (errJSON StatusBadRequest ''invalid json'') s
                  | Some name0 \<Rightarrow>
                      (let name = TrimSpace name0 in
                       if name = [] then keep (errJSON StatusBadRequest ''name is required'') s
                       else if count_or_zero e 0 (filter (\<lambda>d. d_name d = name) (datasets db)) > 0
                       then keep (errJSON StatusConflict ''dataset name already exists'') s
                       else (let mysqlDB = generateMysqlDBName (uuid e 0) in
                             case CreateDatabase srv mysqlDB mgr of
                               (Some _, log) \<Rightarrow> (errJSON StatusInternalServerError ''failed to create database'', s, log)
                             | (None, log) \<Rightarrow>
                                 (case exec e 1 (insert_dataset (dataset_row e name mysqlDB (UserID c))) db of
                                    Inl _ \<Rightarrow> (errJSON StatusInternalServerError ''failed to create dataset'', s,
                                              log @ snd (DropDatabase srv mysqlDB mgr))
                                  | Inr db1 \<Rightarrow>
                                      (let db2 = exec_log e 2 (insert_dperm \<lparr>dp_dataset = uuid e 1, dp_user = UserID c, dp_level = ''admin''\<rparr>) db1 in
                                       (JSON StatusCreated (JObj [(''id'', JStr (uuid e 1)), (''name'', JStr name), (''mysql_database'', JStr mysqlDB)]),
                                        (db2, mgr), log))))))))"

definition GetDataset :: "env \<Rightarrow> Claims option \<Rightarrow> string \<Rightarrow> platform \<Rightarrow> response" where
  "GetDataset e co did db =
     (case co of
        None \<Rightarrow> errJSON StatusUnauthorized ''unauthorized''
      | Some c \<Rightarrow>
          if did = [] then errJSON StatusBadRequest ''missing dataset id''
          else if \<not> hasDatasetAccess e 0 (UserID c) did (Role c) db then errJSON StatusForbidden ''no access to this dataset''
          else (case query_row e 1 (filter (\<lambda>d. d_id d = did) (datasets db)) of
                  Inl _ \<Rightarrow> errJSON StatusNotFound ''dataset not found''
                | Inr d \<Rightarrow> JSON StatusOK (dataset_json (case d_by d of None \<Rightarrow> [] | Some b \<Rightarrow> b) d)))"

definition update_datasets :: "(dataset \<Rightarrow> bool) \<Rightarrow> (dataset \<Rightarrow> dataset) \<Rightarrow> platform \<Rightarrow> platform" where
  "update_datasets P f db = db\<lparr>datasets := map (\<lambda>d. if P d then f d else d) (datasets db)\<rparr>"

definition UpdateDataset :: "env \<Rightarrow> Claims option \<Rightarrow> string \<Rightarrow> string option \<Rightarrow> platform \<Rightarrow> response \<times> platform" where
  "UpdateDataset e co did bo db =
     (case co of
        None \<Rightarrow> (errJSON StatusForbidden ''only super_admin can update datasets'', db)
      | Some c \<Rightarrow>
          if \<not> IsSuperAdmin (Role c) then (errJSON StatusForbidden ''only super_admin can update datasets'', db)
          else if did = [] then (errJSON StatusBadRequest ''missing dataset id'', db)
          else (case bo of
                  None \<Rightarrow> (errJSON StatusBadRequest ''invalid json'', db)
                | Some name0 \<Rightarrow>
                    (let name = TrimSpace name0 in
                     if name = [] then (errJSON StatusBadRequest ''name is required'', db)
                     else if count_or_zero e 0 (filter (\<lambda>d. d_name d = name \<and> d_id d \<noteq> did) (datasets db)) > 0
                     then (errJSON StatusConflict ''dataset name already exists'', db)
                     else (case exec e 1 (\<lambda>x. Inr (update_datasets (\<lambda>d. d_id d = did) (\<lambda>d. d\<lparr>d_name := name, d_updated := now e\<rparr>) x)) db of
                             Inl _ \<Rightarrow> (errJSON StatusInternalServerError ''db error'', db)
                           | Inr db' \<Rightarrow> (JSON StatusOK (JObj [(''message'', JStr ''ok'')]), db')))))"

definition DeleteDataset :: "env \<Rightarrow> mysql_server \<Rightarrow> Claims option \<Rightarrow> string \<Rightarrow> ds_state \<Rightarrow> ds_result" where
  "DeleteDataset e srv co did s =
     (case s of (db, mgr) \<Rightarrow>
       (case co of
          None \<Rightarrow> keep (errJSON StatusForbidden ''only super_admin can delete datasets'') s
        | Some c \<Rightarrow>
            if \<not> IsSuperAdmin (Role c) then keep (errJSON StatusForbidden ''only super_admin can delete datasets'') s
            else if did = [] then keep (errJSON StatusBadRequest ''missing dataset id'') s
            else (case query_row e 0 (map d_mysql (filter (\<lambda>d. d_id d = did) (datasets db))) of
                    Inl _ \<Rightarrow> keep (errJSON StatusNotFound ''dataset not found'') s
                  | Inr mysqlDB \<Rightarrow>
                      (let log = snd (DropDatabase srv mysqlDB mgr) in
                       case exec e 1 (\<lambda>x. Inr (update_datasets (\<lambda>d. d_id d = did) (\<lambda>d. d\<lparr>d_status := ''deleted'', d_updated := now e\<rparr>) x)) db of
                         Inl _ \<Rightarrow> (errJSON StatusInternalServerError ''db error'', s, log)
                       | Inr db' \<Rightarrow> (JSON StatusOK (JObj [(''message'', JStr ''deleted'')]), (db', Close did mgr), log)))))"

text \<open>The body of \<open>GrantDatasetAccess\<close> is the user and the permission level.\<close>

definition GrantDatasetAccess :: "env \<Rightarrow> Claims option \<Rightarrow> string \<Rightarrow> (string \<times> string) option \<Rightarrow> platform \<Rightarrow> response \<times> platform" where
  "GrantDatasetAccess e co datasetID bo db =
     (case co of
        None \<Rightarrow> (errJSON StatusForbidden ''only super_admin can grant dataset access'', db)
      | Some c \<Rightarrow>
          if \<not> IsSuperAdmin (Role c) then (errJSON StatusForbidden ''only super_admin can grant dataset access'', db)
          else if datasetID = [] then (errJSON StatusBadRequest ''missing dataset id'', db)
          else (case bo of
                  None \<Rightarrow> (errJSON StatusBadRequest ''invalid json'', db)
                | Some (userID, level0) \<Rightarrow>
                    (let level = ToLower (TrimSpace level0) in
                     if userID = [] then (errJSON StatusBadRequest ''user_id is required'', db)
                     else if level \<noteq> ''read'' \<and> level \<noteq> ''write'' \<and> level \<noteq> ''admin''
                     then (errJSON StatusBadRequest ''permission_level must be read, write, or admin'', db)
                     else if count_or_zero e 0 (filter (\<lambda>d. d_id d = datasetID \<and> d_status d \<noteq> ''deleted'') (datasets db)) = 0
                     then (errJSON StatusNotFound ''dataset not found'', db)
                     else (case exec e 1 (\<lambda>x. Inr (upsert_dperm \<lparr>dp_dataset = datasetID, dp_user = userID, dp_level = level\<rparr> x)) db of
                             Inl _ \<Rightarrow> (errJSON StatusInternalServerError ''db error'', db)
                           | Inr db' \<Rightarrow> (JSON StatusOK (JObj [(''message'', JStr ''granted'')]), db')))))"

definition RevokeDatasetAccess :: "env \<Rightarrow> Claims option \<Rightarrow> string \<Rightarrow> string option \<Rightarrow> platform \<Rightarrow> response \<times> platform" where
  "RevokeDatasetAccess e co datasetID bo db =
     (case co of
        None \<Rightarrow> (errJSON StatusForbidden ''only super_admin can revoke dataset access'', db)
      | Some c \<Rightarrow>
          if \<not> IsSuperAdmin (Role c) then (errJSON StatusForbidden ''only super_admin can revoke dataset access'', db)
          else if datasetID = [] then (errJSON StatusBadRequest ''missing dataset id'', db)
          else (case bo of
                  None \<Rightarrow> (errJSON StatusBadRequest ''invalid json'', db)
                | Some userID \<Rightarrow>
                    if userID = [] then (errJSON StatusBadRequest ''user_id is required'', db)
                    else (case exec e 0 (\<lambda>x. Inr (x\<lparr>dperms := filter (\<lambda>p. \<not> (dp_dataset p = datasetID \<and> dp_user p = userID)) (dperms x)\<rparr>)) db of
                            Inl _ \<Rightarrow> (errJSON StatusInternalServerError ''db error'', db)
                          | Inr db' \<Rightarrow> (JSON StatusOK (JObj [(''message'', JStr ''revoked'')]), db'))))"

section \<open>Access\<close>

lemma permission_join_nonempty:
  "permission_join did uid db \<noteq> [] \<longleftrightarrow>
     (\<exists>p \<in> set (dperms db). dp_dataset p = did \<and> dp_user p = uid)
     \<and> (\<exists>d \<in> set (datasets db). d_id d = did \<and> d_status d \<noteq> ''deleted'')"
  by (auto simp: permission_join_def concat_eq_Nil_conv)

lemma hasDatasetAccess_iff:
  "hasDatasetAccess e k uid did role db \<longleftrightarrow>
     uid \<noteq> [] \<and> did \<noteq> [] \<and>
     (role = ''super_admin'' \<or>
      db_err e k = None \<and> (\<exists>p \<in> set (dperms db). dp_dataset p = did \<and> dp_user p = uid)
        \<and> (\<exists>d \<in> set (datasets db). d_id d = did \<and> d_status d \<noteq> ''deleted''))"
  using permission_join_nonempty [of did uid db]
  by (auto simp: hasDatasetAccess_def query_row_def split: option.splits)

lemma Grant_ok:
  assumes "GrantDatasetAccess e co did (Some (uid, lvl)) db = (r, db')" and "status r = StatusOK"
  shows "uid \<noteq> [] \<and> did \<noteq> [] \<and> is_super co \<and> (\<exists>d \<in> set (datasets db). d_id d = did \<and> d_status d \<noteq> ''deleted'')
         \<and> (\<exists>l. db' = upsert_dperm \<lparr>dp_dataset = did, dp_user = uid, dp_level = l\<rparr> db)"
proof -
  have "count_or_zero e 0 (filter (\<lambda>d. d_id d = did \<and> d_status d \<noteq> ''deleted'') (datasets db)) \<noteq> 0
        \<and> uid \<noteq> [] \<and> did \<noteq> [] \<and> is_super co \<and> (\<exists>l. db' = upsert_dperm \<lparr>dp_dataset = did, dp_user = uid, dp_level = l\<rparr> db)"
    using assms by (auto simp: GrantDatasetAccess_def Let_def IsSuperAdmin_def exec_def split: option.splits if_splits prod.splits)
  then show ?thesis
    using count_or_zero_pos [of e 0 "filter (\<lambda>d. d_id d = did \<and> d_status d \<noteq> ''deleted'') (datasets db)"]
    by (auto simp: filter_empty_conv)
qed

lemma Revoke_ok:
  assumes "RevokeDatasetAccess e co did (Some uid) db = (r, db')" and "status r = StatusOK"
  shows "db' = db\<lparr>dperms := filter (\<lambda>p. \<not> (dp_dataset p = did \<and> dp_user p = uid)) (dperms db)\<rparr>"
  using assms by (auto simp: RevokeDatasetAccess_def exec_def split: option.splits if_splits)

lemma upsert_dperm_mem:
  "\<exists>q \<in> set (dperms (upsert_dperm p db)). dp_dataset q = dp_dataset p \<and> dp_user q = dp_user p"
proof (cases "(dp_dataset p, dp_user p) \<in> (\<lambda>q. (dp_dataset q, dp_user q)) ` set (dperms db)")
  case True
  then obtain q where "q \<in> set (dperms db)" "dp_dataset q = dp_dataset p" "dp_user q = dp_user p" by auto
  then show ?thesis using True by (intro bexI [of _ "q\<lparr>dp_level := dp_level p\<rparr>"]) (auto simp: upsert_dperm_def)
qed (auto simp: upsert_dperm_def)

lemma upsert_dperm_datasets [simp]: "datasets (upsert_dperm p db) = datasets db"
  by (simp add: upsert_dperm_def)

text \<open>
  Grants and revocations take effect. Once \<open>GrantDatasetAccess\<close> answered 200 the user passes
  the access check of that dataset, whatever the role; once \<open>RevokeDatasetAccess\<close> answered 200 the
  user fails it, unless the token says \<open>super_admin\<close>.
\<close>

theorem grant_then_revoke:
  assumes "GrantDatasetAccess e co did (Some (uid, lvl)) db = (r, db1)" and "status r = StatusOK"
    and "RevokeDatasetAccess e2 co2 did (Some uid) db1 = (r2, db2)" and "status r2 = StatusOK"
    and "db_err e' k = None"
  shows "hasDatasetAccess e' k uid did role db1
         \<and> (hasDatasetAccess e' k uid did role db2 \<longleftrightarrow> role = ''super_admin'')"
proof -
  obtain l where db1: "db1 = upsert_dperm \<lparr>dp_dataset = did, dp_user = uid, dp_level = l\<rparr> db"
    and ne: "uid \<noteq> []" "did \<noteq> []" and d: "\<exists>d \<in> set (datasets db). d_id d = did \<and> d_status d \<noteq> ''deleted''"
    using Grant_ok [OF assms(1,2)] by blast
  have p: "\<exists>q \<in> set (dperms db1). dp_dataset q = did \<and> dp_user q = uid"
    using upsert_dperm_mem [of "\<lparr>dp_dataset = did, dp_user = uid, dp_level = l\<rparr>" db] by (simp add: db1)
  have np: "\<not> (\<exists>q \<in> set (dperms db2). dp_dataset q = did \<and> dp_user q = uid)"
    using Revoke_ok [OF assms(3,4)] by simp
  show ?thesis
    using p np ne d assms(5) unfolding hasDatasetAccess_iff by (auto simp: db1)
qed

definition demo_dataset :: dataset where
  "demo_dataset = \<lparr>d_id = ''d1'', d_name = ''sales'', d_mysql = ''ds_1'', d_status = ''active'', d_by = None, d_created = 0, d_updated = 0\<rparr>"

definition demo_ds_db :: "dperm list \<Rightarrow> platform" where
  "demo_ds_db ps = empty_platform\<lparr>datasets := [demo_dataset], dperms := ps\<rparr>"

lemma demo_grant:
  "GrantDatasetAccess calm_env (Some (demo_super ''a'')) ''d1'' (Some (''u1'', ''read'')) (demo_ds_db []) =
     (JSON StatusOK (JObj [(''message'', JStr ''granted'')]), demo_ds_db [\<lparr>dp_dataset = ''d1'', dp_user = ''u1'', dp_level = ''read''\<rparr>])"
proof -
  have l: "ToLower (TrimSpace ''read'') = ''read''" by (simp add: trim_eval go_str)
  show ?thesis
    by (simp add: GrantDatasetAccess_def IsSuperAdmin_def l count_or_zero_def query_row_def exec_def upsert_dperm_def
        demo_ds_db_def demo_dataset_def empty_platform_def)
qed

lemma demo_revoke:
  "RevokeDatasetAccess calm_env (Some (demo_super ''a'')) ''d1'' (Some ''u1'')
     (demo_ds_db [\<lparr>dp_dataset = ''d1'', dp_user = ''u1'', dp_level = ''read''\<rparr>]) =
   (JSON StatusOK (JObj [(''message'', JStr ''revoked'')]), demo_ds_db [])"
  by (simp add: RevokeDatasetAccess_def IsSuperAdmin_def exec_def demo_ds_db_def)

theorem grant_then_revoke_witness:
  "hasDatasetAccess calm_env 0 ''u1'' ''d1'' ''normal_user'' (demo_ds_db [\<lparr>dp_dataset = ''d1'', dp_user = ''u1'', dp_level = ''read''\<rparr>])
   \<and> \<not> hasDatasetAccess calm_env 0 ''u1'' ''d1'' ''normal_user'' (demo_ds_db [])"
  using grant_then_revoke [OF demo_grant _ demo_revoke, of calm_env 0 "''normal_user''"] by simp

section \<open>Creation\<close>

definition create_stmt :: "string \<Rightarrow> string" where
  "create_stmt n = ''CREATE DATABASE IF NOT EXISTS `'' @ n @ ''` DEFAULT CHARSET utf8mb4''"

definition drop_stmt :: "string \<Rightarrow> string" where
  "drop_stmt n = ''DROP DATABASE IF EXISTS `'' @ n @ ''`''"

lemma CreateDatabase_log:
  "CreateDatabase srv n m = (None, log) \<Longrightarrow> log = [(RootDSN m, create_stmt n)]"
  "snd (DropDatabase srv n m) = (if my_open srv (RootDSN m) = None then [(RootDSN m, drop_stmt n)] else [])"
  by (auto simp: CreateDatabase_def DropDatabase_def root_exec_def Let_def create_stmt_def drop_stmt_def split: option.splits)

text \<open>
  C34. No half-made dataset. When \<open>CreateDataset\<close> answers 201 exactly one dataset row was added and
  the one statement sent created its MySQL database; with any other answer no row was added, and if
  a database was created before the row could not be stored, the statement that drops the same
  database was sent next (provided the server can still be opened).
\<close>

theorem CreateDataset_compensates:
  assumes "CreateDataset e srv co bo (db, mgr) = (r, (db', mgr'), log)"
  shows "if status r = StatusCreated
         then \<exists>d. datasets db' = datasets db @ [d] \<and> log = [(RootDSN mgr, create_stmt (d_mysql d))] \<and> is_super co
         else db' = db \<and> (fst (CreateDatabase srv (generateMysqlDBName (uuid e 0)) mgr) = None \<and> log \<noteq> [] \<and> my_open srv (RootDSN mgr) = None
                \<longrightarrow> log = [(RootDSN mgr, create_stmt (generateMysqlDBName (uuid e 0))), (RootDSN mgr, drop_stmt (generateMysqlDBName (uuid e 0)))])"
proof -
  have perm: "datasets (exec_log e 2 (insert_dperm p) x) = datasets x" for p x
    by (simp add: exec_log_def exec_def insert_dperm_def split: option.split)
  show ?thesis
    using assms
    by (auto simp: CreateDataset_def keep_def Let_def IsSuperAdmin_def perm exec_Inr_iff insert_dataset_def dataset_row_def
          CreateDatabase_log(2)
        split: option.splits if_splits prod.splits sum.splits dest!: CreateDatabase_log(1))
qed

definition calm_server :: mysql_server where
  "calm_server = \<lparr>my_open = (\<lambda>_. None), my_ping = (\<lambda>_. None), my_exec = (\<lambda>_ _. None)\<rparr>"

definition demo_mgr :: manager where
  "demo_mgr = NewManager \<lparr>Host = ''db'', Port = 3306, RootUser = ''root'', RootPass = []\<rparr>"

definition failing_env :: env where
  "failing_env = calm_env\<lparr>db_err := (\<lambda>k. if k = 1 then Some ''lost'' else None)\<rparr>"

lemma demo_create:
  "fst (CreateDatabase calm_server (generateMysqlDBName (uuid failing_env 0)) demo_mgr) = None"
  "status (fst (CreateDataset failing_env calm_server (Some (demo_super ''a'')) (Some ''sales'') (empty_platform, demo_mgr))) = StatusInternalServerError"
  "snd (snd (CreateDataset failing_env calm_server (Some (demo_super ''a'')) (Some ''sales'') (empty_platform, demo_mgr))) \<noteq> []"
proof -
  have t: "TrimSpace ''sales'' = ''sales''" by (simp add: trim_eval)
  show "fst (CreateDatabase calm_server (generateMysqlDBName (uuid failing_env 0)) demo_mgr) = None"
    by (simp add: CreateDatabase_def root_exec_def calm_server_def)
  show "status (fst (CreateDataset failing_env calm_server (Some (demo_super ''a'')) (Some ''sales'') (empty_platform, demo_mgr))) = StatusInternalServerError"
    "snd (snd (CreateDataset failing_env calm_server (Some (demo_super ''a'')) (Some ''sales'') (empty_platform, demo_mgr))) \<noteq> []"
    by (simp_all add: CreateDataset_def IsSuperAdmin_def t count_or_zero_def query_row_def exec_def CreateDatabase_def
        root_exec_def calm_server_def empty_platform_def failing_env_def Let_def)
qed

theorem CreateDataset_compensates_witness:
  "snd (snd (CreateDataset failing_env calm_server (Some (demo_super ''a'')) (Some ''sales'') (empty_platform, demo_mgr)))
     = [(RootDSN demo_mgr, create_stmt (generateMysqlDBName (uuid failing_env 0))),
        (RootDSN demo_mgr, drop_stmt (generateMysqlDBName (uuid failing_env 0)))]"
proof -
  obtain r db' mgr' log where eq: "CreateDataset failing_env calm_server (Some (demo_super ''a'')) (Some ''sales'') (empty_platform, demo_mgr) = (r, (db', mgr'), log)"
    by (metis prod.collapse)
  have o: "my_open calm_server (RootDSN demo_mgr) = None" by (simp add: calm_server_def)
  from CreateDataset_compensates [OF eq] demo_create eq o show ?thesis by simp
qed

end
