(* ===== verification/Tables.thy ===== *)
theory Tables
  imports Datasets
begin

text \<open>
  Tables of a dataset: \<open>internal/handlers/tables.go\<close>. \<open>CreateDatasetTable\<close> writes the
  metadata (one row of \<open>dataset_tables\<close>, one of \<open>table_fields\<close> for each field) in a
  transaction: its statements act on a copy of the database that replaces it when the commit
  succeeds, and every early return rolls back. The database calls of the transaction are numbered
  3 (begin), 4 (table), 5 and so on (fields), and the commit after them; the identifiers are
  \<open>uuid 0\<close> (MySQL name), \<open>uuid 1\<close> (table) and \<open>uuid 2\<close> and so on (fields).
\<close>

definition generateMySQLTableName :: "string \<Rightarrow> string" where
  "generateMySQLTableName u = ''tbl_'' @ take 16 (RemoveAll CHR ''-'' u)"

definition coalesce :: "string option \<Rightarrow> string" where
  "coalesce v = (case v of None \<Rightarrow> [] | Some s \<Rightarrow> s)"

definition table_json :: "dtable \<Rightarrow> json" where
  "table_json t =
     JObj ([(''id'', JStr (dt_id t)), (''dataset_id'', JStr (dt_dataset t)), (''name'', JStr (dt_name t))]
           @ omitempty ''display_name'' (coalesce (dt_display t))
           @ [(''mysql_table_name'', JStr (dt_mysql t)), (''status'', JStr (dt_status t))]
           @ omitempty ''created_by'' (coalesce (dt_by t))
           @ [(''created_at'', JStr (rfc3339 (dt_created t))), (''updated_at'', JStr (rfc3339 (dt_updated t)))])"

definition field_json :: "tfield \<Rightarrow> json" where
  "field_json f =
     JObj ([(''id'', JStr (tf_id f)), (''table_id'', JStr (tf_table f)), (''name'', JStr (tf_name f))]
           @ omitempty ''display_name'' (coalesce (tf_display f))
           @ [(''field_type'', JStr (tf_type f))]
           @ (case tf_length f of None \<Rightarrow> [] | Some n \<Rightarrow> if n = 0 then [] else [(''field_length'', JInt n)])
           @ [(''is_nullable'', JBool (tf_nullable f)), (''ordinal_position'', JInt (tf_pos f))])"

definition ListDatasetTables :: "env \<Rightarrow> Claims option \<Rightarrow> string \<Rightarrow> platform \<Rightarrow> response" where
  "ListDatasetTables e co datasetID db =
     (case co of
        None \<Rightarrow> errJSON StatusUnauthorized ''unauthorized''
      | Some c \<Rightarrow>
          if datasetID = [] then errJSON StatusBadRequest ''missing dataset id''
          else if \<not> hasDatasetAccess e 0 (UserID c) datasetID (Role c) db then errJSON StatusForbidden ''no access to this dataset''
          else (case query e 1 (sort_key dt_created (filter (\<lambda>t. dt_dataset t = datasetID \<and> dt_status t = ''active'') (dtables db))) of
                  Inl _ \<Rightarrow> errJSON StatusInternalServerError ''db error''
                | Inr rows \<Rightarrow> JSON StatusOK (JObj [(''tables'', json_slice (map table_json (scan_skip e 1 (rows_next e 1 rows))))])))"

record table_body =
  tb_name :: string
  tb_display :: string
  tb_fields :: "FieldDef list"

definition insert_dtable :: "dtable \<Rightarrow> platform \<Rightarrow> platform res" where
  "insert_dtable t db =
     (if dt_id t \<in> dt_id ` set (dtables db) then Inl dup_entry else Inr (db\<lparr>dtables := dtables db @ [t]\<rparr>))"

definition insert_tfield :: "tfield \<Rightarrow> platform \<Rightarrow> platform res" where
  "insert_tfield f db =
     (if tf_id f \<in> tf_id ` set (tfields db) then Inl dup_entry else Inr (db\<lparr>tfields := tfields db @ [f]\<rparr>))"

definition field_row :: "env \<Rightarrow> string \<Rightarrow> nat \<Rightarrow> FieldDef \<Rightarrow> tfield" where
  "field_row e tableID i f =
     \<lparr>tf_id = uuid e (2 + i), tf_table = tableID, tf_name = fd_name f, tf_display = None, tf_type = ToUpper (fd_type f),
      tf_length = (if fd_len f > 0 then Some (fd_len f) else None), tf_nullable = fd_nullable f, tf_pos = int i + 1\<rparr>"

fun insert_fields :: "env \<Rightarrow> string \<Rightarrow> nat \<Rightarrow> FieldDef list \<Rightarrow> platform \<Rightarrow> platform res" where
  "insert_fields e tableID i [] db = Inr db"
| "insert_fields e tableID i (f # fs) db =
     (case exec e (5 + i) (insert_tfield (field_row e tableID i f)) db of
        Inl m \<Rightarrow> Inl m
      | Inr db' \<Rightarrow> insert_fields e tableID (Suc i) fs db')"

text \<open>The transaction: the answer to a failure, or the committed database.\<close>

definition table_tx :: "env \<Rightarrow> dtable \<Rightarrow> FieldDef list \<Rightarrow> platform \<Rightarrow> platform res" where
  "table_tx e t flds db =
     (case db_err e 3 of
        Some _ \<Rightarrow> Inl ''db error''
      | None \<Rightarrow>
          (case exec e 4 (insert_dtable t) db of
             Inl _ \<Rightarrow> Inl ''failed to create table metadata''
           | Inr db1 \<Rightarrow>
               (case insert_fields e (dt_id t) 0 flds db1 of
                  Inl _ \<Rightarrow> Inl ''failed to create field metadata''
                | Inr db2 \<Rightarrow>
                    (case db_err e (5 + length flds) of
                       Some _ \<Rightarrow> Inl ''db error''
                     | None \<Rightarrow> Inr db2))))"

definition table_row :: "env \<Rightarrow> Claims \<Rightarrow> string \<Rightarrow> string \<Rightarrow> string \<Rightarrow> string \<Rightarrow> dtable" where
  "table_row e c datasetID name display mysqlTableName =
     \<lparr>dt_id = uuid e 1, dt_dataset = datasetID, dt_name = name,
      dt_display = (if display = [] then None else Some display), dt_mysql = mysqlTableName,
      dt_status = col_default e ''dataset_tables.status'', dt_by = Some (UserID c), dt_created = now e, dt_updated = now e\<rparr>"

definition CreateDatasetTable ::
  "env \<Rightarrow> mysql_server \<Rightarrow> Claims option \<Rightarrow> string \<Rightarrow> table_body option \<Rightarrow> ds_state \<Rightarrow> ds_result" where
  "CreateDatasetTable e srv co datasetID bo s =
     (case s of (db, mgr) \<Rightarrow>
       (case co of
          None \<Rightarrow> keep (errJSON StatusForbidden ''requires data_admin or above'') s
        | Some c \<Rightarrow>
            if \<not> IsDataAdmin (Role c) \<and> \<not> IsSuperAdmin (Role c) then keep (errJSON StatusForbidden ''requires data_admin or above'') s
            else if datasetID = [] then keep (errJSON StatusBadRequest ''missing dataset id'') s
            else if \<not> hasDatasetAccess e 0 (UserID c) datasetID (Role c) db then keep (errJSON StatusForbidden ''no access to this dataset'') s
            else (case bo of
                    None \<Rightarrow> keep (errJSON StatusBadRequest ''invalid json'') s
                  | Some b \<Rightarrow>
                      (let name = TrimSpace (tb_name b) in
                       if name = [] then keep (errJSON StatusBadRequest ''name is required'') s
                       else if tb_fields b = [] then keep (errJSON StatusBadRequest ''at least one field is required'') s
                       else (case query_row e 1 (map d_mysql (filter (\<lambda>d. d_id d = datasetID \<and> d_status d \<noteq> ''deleted'') (datasets db))) of
                               Inl _ \<Rightarrow> keep (errJSON StatusNotFound ''dataset not found'') s
                             | Inr mysqlDB \<Rightarrow>
                                 if count_or_zero e 2 (filter (\<lambda>t. dt_dataset t = datasetID \<and> dt_name t = name \<and> dt_status t = ''active'') (dtables db)) > 0
                                 then keep (errJSON StatusConflict ''table name already exists in this dataset'') s
                                 else (case ValidateFields (tb_fields b) of
                                         Some m \<Rightarrow> keep (errJSON StatusBadRequest m) s
                                       | None \<Rightarrow>
                                           (let mysqlTableName = generateMySQLTableName (uuid e 0) in
                                            case CreateTable srv datasetID mysqlDB mysqlTableName (tb_fields b) mgr of
                                              (Some _, mgr', log) \<Rightarrow> (errJSON StatusInternalServerError ''failed to create table in mysql'', (db, mgr'), log)
                                            | (None, mgr', log) \<Rightarrow>
                                                (case table_tx e (table_row e c datasetID name (tb_display b) mysqlTableName) (tb_fields b) db of
                                                   Inl m \<Rightarrow> (errJSON StatusInternalServerError m, (db, mgr'), log)
                                                 | Inr db' \<Rightarrow>
                                                     (JSON StatusCreated (JObj [(''id'', JStr (uuid e 1)), (''name'', JStr name),
                                                        (''mysql_table_name'', JStr mysqlTableName), (''fields_count'', JInt (int (length (tb_fields b))))]),
                                                      (db', mgr'), log)))))))))"

definition table_fields :: "string \<Rightarrow> platform \<Rightarrow> tfield list" where
  "table_fields tableID db = sort_key tf_pos (filter (\<lambda>f. tf_table f = tableID) (tfields db))"

definition GetDatasetTable :: "env \<Rightarrow> Claims option \<Rightarrow> string \<Rightarrow> string \<Rightarrow> platform \<Rightarrow> response" where
  "GetDatasetTable e co datasetID tableID db =
     (case co of
        None \<Rightarrow> errJSON StatusUnauthorized ''unauthorized''
      | Some c \<Rightarrow>
          if datasetID = [] \<or> tableID = [] then errJSON StatusBadRequest ''missing dataset id or table id''
          else if \<not> hasDatasetAccess e 0 (UserID c) datasetID (Role c) db then errJSON StatusForbidden ''no access to this dataset''
          else (case query_row e 1 (filter (\<lambda>t. dt_id t = tableID \<and> dt_dataset t = datasetID \<and> dt_status t = ''active'') (dtables db)) of
                  Inl _ \<Rightarrow> errJSON StatusNotFound ''table not found''
                | Inr t \<Rightarrow>
                    (case query e 2 (table_fields tableID db) of
                       Inl _ \<Rightarrow> errJSON StatusInternalServerError ''db error''
                     | Inr rows \<Rightarrow> JSON StatusOK (JObj [(''table'', table_json t),
                                     (''fields'', json_slice (map field_json (scan_skip e 2 (rows_next e 2 rows))))]))))"

definition DeleteDatasetTable :: "env \<Rightarrow> mysql_server \<Rightarrow> Claims option \<Rightarrow> string \<Rightarrow> string \<Rightarrow> ds_state \<Rightarrow> ds_result" where
  "DeleteDatasetTable e srv co datasetID tableID s =
     (case s of (db, mgr) \<Rightarrow>
       (case co of
          None \<Rightarrow> keep (errJSON StatusForbidden ''requires data_admin or above'') s
        | Some c \<Rightarrow>
            if \<not> IsDataAdmin (Role c) \<and> \<not> IsSuperAdmin (Role c) then keep (errJSON StatusForbidden ''requires data_admin or above'') s
            else if datasetID = [] \<or> tableID = [] then keep (errJSON StatusBadRequest ''missing dataset id or table id'') s
            else (case query_row e 0 [(d_mysql d, dt_mysql t). t \<leftarrow> dtables db, d \<leftarrow> datasets db,
                         d_id d = dt_dataset t \<and> dt_id t = tableID \<and> dt_dataset t = datasetID \<and> dt_status t = ''active''] of
                    Inl _ \<Rightarrow> keep (errJSON StatusNotFound ''table not found'') s
                  | Inr (mysqlDB, mysqlTableName) \<Rightarrow>
                      (case DropTable srv datasetID mysqlDB mysqlTableName mgr of
                         (_, mgr', log) \<Rightarrow>
                           (case exec e 1 (\<lambda>x. Inr (x\<lparr>dtables := map (\<lambda>t. if dt_id t = tableID
                                     then t\<lparr>dt_status := ''inactive'', dt_updated := now e\<rparr> else t) (dtables x)\<rparr>)) db of
                              Inl _ \<Rightarrow> (errJSON StatusInternalServerError ''db error'', (db, mgr'), log)
                            | Inr db' \<Rightarrow> (JSON StatusOK (JObj [(''message'', JStr ''deleted'')]), (db', mgr'), log))))))"

definition ListFields :: "env \<Rightarrow> Claims option \<Rightarrow> string \<Rightarrow> string \<Rightarrow> platform \<Rightarrow> response" where
  "ListFields e co datasetID tableID db =
     (case co of
        None \<Rightarrow> errJSON StatusUnauthorized ''unauthorized''
      | Some c \<Rightarrow>
          if datasetID = [] \<or> tableID = [] then errJSON StatusBadRequest ''missing dataset id or table id''
          else if \<not> hasDatasetAccess e 0 (UserID c) datasetID (Role c) db then errJSON StatusForbidden ''no access to this dataset''
          else (case query e 1 (table_fields tableID db) of
                  Inl _ \<Rightarrow> errJSON StatusInternalServerError ''db error''
                | Inr rows \<Rightarrow> JSON StatusOK (JObj [(''fields'', json_slice (map field_json (scan_skip e 1 (rows_next e 1 rows))))])))"

section \<open>The transaction\<close>

lemma insert_fields_Inr:
  "insert_fields e tid i fs db = Inr db' \<Longrightarrow>
     db' = db\<lparr>tfields := tfields db @ map (\<lambda>(j, f). field_row e tid j f) (zip [i..<i + length fs] fs)\<rparr>"
proof (induction fs arbitrary: i db)
  case (Cons f fs)
  then obtain db1 where one: "insert_tfield (field_row e tid i f) db = Inr db1" and rest: "insert_fields e tid (Suc i) fs db1 = Inr db'"
    by (auto simp: exec_Inr_iff split: sum.splits)
  have "db1 = db\<lparr>tfields := tfields db @ [field_row e tid i f]\<rparr>"
    using one by (simp add: insert_tfield_def split: if_splits)
  moreover have "[i..<i + length (f # fs)] = i # [Suc i..<Suc i + length fs]"
    by (simp add: upt_conv_Cons del: upt_Suc)
  ultimately show ?case using Cons.IH [OF rest] by simp
qed simp

lemma table_tx_Inr:
  assumes "table_tx e t fs db = Inr db'"
  shows "db' = db\<lparr>dtables := dtables db @ [t],
           tfields := tfields db @ map (\<lambda>(j, f). field_row e (dt_id t) j f) (zip [0..<length fs] fs)\<rparr>
         \<and> dt_id t \<notin> dt_id ` set (dtables db)"
proof -
  obtain db1 where t: "insert_dtable t db = Inr db1" and f: "insert_fields e (dt_id t) 0 fs db1 = Inr db'"
    using assms by (auto simp: table_tx_def exec_Inr_iff split: option.splits sum.splits)
  show ?thesis
    using t insert_fields_Inr [OF f] by (auto simp: insert_dtable_def split: if_splits)
qed

text \<open>Where the handler reaches the server, and with what.\<close>

lemma CreateTable_log:
  assumes "CreateTable srv did mysqlDB tn fs mgr = (err, mgr', log)"
  shows "(mgr' = mgr \<or> pools mgr did = None \<and> mgr' = snd (Connect srv did mysqlDB mgr))
    \<and> (log = [] \<and> err \<noteq> None
       \<or> (\<exists>p. pools mgr' did = Some p \<and> log = [(opened mgr' ! p, buildCreateTableSQL tn fs)]
             \<and> (err = None \<longleftrightarrow> my_exec srv (opened mgr' ! p) (buildCreateTableSQL tn fs) = None)))"
  using assms
  by (auto simp: CreateTable_def dataset_exec_def pool_for_def GetPool_def Connect_def Let_def split: option.splits prod.splits sum.splits)

definition create_tail :: "env \<Rightarrow> mysql_server \<Rightarrow> Claims \<Rightarrow> string \<Rightarrow> table_body \<Rightarrow> string \<Rightarrow> ds_state \<Rightarrow> ds_result" where
  "create_tail e srv c did b mysqlDB s =
     (let tn = generateMySQLTableName (uuid e 0) in
      case CreateTable srv did mysqlDB tn (tb_fields b) (snd s) of
        (Some _, mgr', log) \<Rightarrow> (errJSON StatusInternalServerError ''failed to create table in mysql'', (fst s, mgr'), log)
      | (None, mgr', log) \<Rightarrow>
          (case table_tx e (table_row e c did (TrimSpace (tb_name b)) (tb_display b) tn) (tb_fields b) (fst s) of
             Inl m \<Rightarrow> (errJSON StatusInternalServerError m, (fst s, mgr'), log)
           | Inr db' \<Rightarrow>
               (JSON StatusCreated (JObj [(''id'', JStr (uuid e 1)), (''name'', JStr (TrimSpace (tb_name b))),
                  (''mysql_table_name'', JStr tn), (''fields_count'', JInt (int (length (tb_fields b))))]),
                (db', mgr'), log)))"

lemma CreateDatasetTable_tail:
  "(status (fst (CreateDatasetTable e srv co did (Some b) s)) \<noteq> StatusCreated \<and> snd (CreateDatasetTable e srv co did (Some b) s) = (s, []))
    \<or> (\<exists>c mysqlDB. co = Some c \<and> MinRole ''data_admin'' (Role c) \<and> hasDatasetAccess e 0 (UserID c) did (Role c) (fst s)
        \<and> ValidateFields (tb_fields b) = None \<and> CreateDatasetTable e srv co did (Some b) s = create_tail e srv c did b mysqlDB s)"
proof -
  obtain db mgr where s: "s = (db, mgr)" by fastforce
  show ?thesis unfolding s CreateDatasetTable_def create_tail_def keep_def Let_def fst_conv snd_conv prod.case
    by (cases co) (auto simp: MinRole_data_admin split: if_split option.split sum.split)
qed

lemma CreateDatasetTable_cases:
  assumes "CreateDatasetTable e srv co did (Some b) (db, mgr) = (r, (db', mgr'), log)"
  shows "(status r \<noteq> StatusCreated \<and> db' = db \<and> mgr' = mgr \<and> log = [])
    \<or> (\<exists>c mysqlDB err. co = Some c \<and> MinRole ''data_admin'' (Role c) \<and> hasDatasetAccess e 0 (UserID c) did (Role c) db
        \<and> ValidateFields (tb_fields b) = None
        \<and> CreateTable srv did mysqlDB (generateMySQLTableName (uuid e 0)) (tb_fields b) mgr = (err, mgr', log)
        \<and> (case (err, table_tx e (table_row e c did (TrimSpace (tb_name b)) (tb_display b) (generateMySQLTableName (uuid e 0))) (tb_fields b) db) of
             (Some _, _) \<Rightarrow> status r = StatusInternalServerError \<and> db' = db
           | (None, Inl m) \<Rightarrow> r = errJSON StatusInternalServerError m \<and> db' = db
           | (None, Inr db1) \<Rightarrow> status r = StatusCreated \<and> db' = db1))"
  using CreateDatasetTable_tail [of e srv co did b "(db, mgr)"] unfolding assms fst_conv snd_conv
proof (elim disjE exE conjE)
  fix c mysqlDB
  assume c: "co = Some c" "MinRole ''data_admin'' (Role c)" "hasDatasetAccess e 0 (UserID c) did (Role c) db"
    "ValidateFields (tb_fields b) = None" and tail: "(r, (db', mgr'), log) = create_tail e srv c did b mysqlDB (db, mgr)"
  obtain err m l where create: "CreateTable srv did mysqlDB (generateMySQLTableName (uuid e 0)) (tb_fields b) mgr = (err, m, l)"
    by (metis prod.collapse)
  from tail c have res: "m = mgr' \<and> l = log
      \<and> (case (err, table_tx e (table_row e c did (TrimSpace (tb_name b)) (tb_display b) (generateMySQLTableName (uuid e 0))) (tb_fields b) db) of
             (Some _, _) \<Rightarrow> status r = StatusInternalServerError \<and> db' = db
           | (None, Inl m) \<Rightarrow> r = errJSON StatusInternalServerError m \<and> db' = db
           | (None, Inr db1) \<Rightarrow> status r = StatusCreated \<and> db' = db1)"
    by (simp add: create_tail_def create Let_def split: option.splits sum.splits)
  with create c show ?thesis by blast
qed simp

lemma table_tx_rows:
  assumes "table_tx e (table_row e c did name disp tn) fs db = Inr db'"
  shows "\<exists>t rows. dt_dataset t = did \<and> dt_mysql t = tn \<and> dtables db' = dtables db @ [t] \<and> tfields db' = tfields db @ rows
    \<and> map tf_name rows = map fd_name fs \<and> map tf_pos rows = map int [1..<Suc (length fs)] \<and> list_all (\<lambda>f. tf_table f = dt_id t) rows"
proof -
  let ?t = "table_row e c did name disp tn"
  let ?rows = "map (\<lambda>(j, f). field_row e (dt_id ?t) j f) (zip [0..<length fs] fs)"
  have "map tf_name ?rows = map fd_name fs"
    by (rule nth_equalityI) (auto simp: field_row_def)
  moreover have "map tf_pos ?rows = map int [1..<Suc (length fs)]"
    by (rule nth_equalityI) (auto simp: field_row_def simp del: upt_Suc)
  moreover have "list_all (\<lambda>f. tf_table f = dt_id ?t) ?rows"
    by (auto simp: list_all_iff field_row_def)
  moreover have "dt_dataset ?t = did" "dt_mysql ?t = tn" by (simp_all add: table_row_def)
  ultimately show ?thesis using table_tx_Inr [OF assms] by (intro exI [of _ ?t] exI [of _ ?rows]) simp
qed

text \<open>
  C18. Creating a table: the metadata is all or nothing, the table on the server is not. At most
  one statement is sent, the \<open>CREATE TABLE\<close> of the request, through the open pool of the dataset,
  and only for a data administrator with access to it and with valid fields. When the answer is 201
  the server accepted it, and the database gained the table's row, with the name of the MySQL table,
  and one field row for every field of the request, in its order and numbered 1, 2, ...; with any
  other answer, wherever the transaction failed, the platform database is exactly as before. But if
  the server accepted the statement and the answer is not 201, the metadata transaction failed, the
  answer is its error, and no \<open>DROP TABLE\<close> follows: the MySQL table stays behind without metadata.
  The manager is unchanged, or opened the pool of the dataset.
\<close>

theorem CreateDatasetTable_atomic:
  assumes "CreateDatasetTable e srv co did (Some b) (db, mgr) = (r, (db', mgr'), log)"
    and "tn = generateMySQLTableName (uuid e 0)"
    and "accepted \<longleftrightarrow> (\<exists>p. pools mgr' did = Some p \<and> log = [(opened mgr' ! p, buildCreateTableSQL tn (tb_fields b))]
                        \<and> my_exec srv (opened mgr' ! p) (buildCreateTableSQL tn (tb_fields b)) = None)"
  shows "(log = [] \<or>
           (\<exists>c p. co = Some c \<and> MinRole ''data_admin'' (Role c) \<and> hasDatasetAccess e 0 (UserID c) did (Role c) db
              \<and> ValidateFields (tb_fields b) = None
              \<and> pools mgr' did = Some p \<and> log = [(opened mgr' ! p, buildCreateTableSQL tn (tb_fields b))]))
    \<and> (if status r = StatusCreated
       then accepted \<and> (\<exists>t fs. dt_dataset t = did \<and> dt_mysql t = tn \<and> dtables db' = dtables db @ [t]
                \<and> tfields db' = tfields db @ fs \<and> map tf_name fs = map fd_name (tb_fields b)
                \<and> map tf_pos fs = map int [1..<Suc (length (tb_fields b))] \<and> list_all (\<lambda>f. tf_table f = dt_id t) fs)
       else db' = db
            \<and> (accepted \<longrightarrow> (\<exists>c m. co = Some c \<and> r = errJSON StatusInternalServerError m
                  \<and> table_tx e (table_row e c did (TrimSpace (tb_name b)) (tb_display b) tn) (tb_fields b) db = Inl m)))
    \<and> (mgr' = mgr \<or> (\<exists>mysqlDB. pools mgr did = None \<and> mgr' = snd (Connect srv did mysqlDB mgr)))"
  using CreateDatasetTable_cases [OF assms(1)]
proof (elim disjE exE conjE)
  assume "status r \<noteq> StatusCreated" "db' = db" "mgr' = mgr" "log = []"
  with assms(3) show ?thesis by simp
next
  fix c mysqlDB err
  assume c: "co = Some c" "MinRole ''data_admin'' (Role c)" "hasDatasetAccess e 0 (UserID c) did (Role c) db"
      "ValidateFields (tb_fields b) = None"
    and create: "CreateTable srv did mysqlDB (generateMySQLTableName (uuid e 0)) (tb_fields b) mgr = (err, mgr', log)"
    and res: "case (err, table_tx e (table_row e c did (TrimSpace (tb_name b)) (tb_display b) (generateMySQLTableName (uuid e 0))) (tb_fields b) db) of
             (Some _, _) \<Rightarrow> status r = StatusInternalServerError \<and> db' = db
           | (None, Inl m) \<Rightarrow> r = errJSON StatusInternalServerError m \<and> db' = db
           | (None, Inr db1) \<Rightarrow> status r = StatusCreated \<and> db' = db1"
  note log = CreateTable_log [OF create, folded assms(2)]
  have acc: "accepted \<longleftrightarrow> err = None" using conjunct2 [OF log] unfolding assms(3) by (elim disjE exE conjE) simp_all
  show ?thesis
  proof (cases err)
    case None
    then show ?thesis using log acc c res table_tx_rows [of e c did _ _ tn "tb_fields b" db db'] unfolding assms(2) [symmetric]
      by (cases "table_tx e (table_row e c did (TrimSpace (tb_name b)) (tb_display b) tn) (tb_fields b) db") auto
  next
    case (Some m)
    then show ?thesis using log acc c res by auto
  qed
qed

definition demo_table_body :: table_body where
  "demo_table_body = \<lparr>tb_name = ''orders'', tb_display = [],
     tb_fields = [\<lparr>fd_name = ''n'', fd_type = ''INT'', fd_len = 0, fd_nullable = False\<rparr>]\<rparr>"

lemma demo_table_checks:
  "TrimSpace ''orders'' = ''orders''" "ValidateFields (tb_fields demo_table_body) = None"
  by (simp_all add: trim_eval demo_table_body_def ValidateFields_def validTypes_def go_str)

text \<open>A creation up to the transaction, and its two ends: the rows, or a table without metadata.\<close>

definition broken_tx_env :: env where
  "broken_tx_env = calm_env\<lparr>db_err := (\<lambda>i. if i = 4 then Some ''gone away'' else None)\<rparr>"

lemma demo_create_table_run:
  assumes "e \<in> {calm_env, broken_tx_env}"
  shows "\<exists>m l. l \<noteq> [] \<and> CreateDatasetTable e calm_server (Some (demo_super ''a'')) ''d1'' (Some demo_table_body) (demo_ds_db [], demo_mgr) =
    (case table_tx e (table_row e (demo_super ''a'') ''d1'' ''orders'' (tb_display demo_table_body) (generateMySQLTableName (uuid e 0)))
            (tb_fields demo_table_body) (demo_ds_db []) of
       Inl msg \<Rightarrow> (errJSON StatusInternalServerError msg, (demo_ds_db [], m), l)
     | Inr db' \<Rightarrow> (JSON StatusCreated (JObj [(''id'', JStr (uuid e 1)), (''name'', JStr ''orders''),
          (''mysql_table_name'', JStr (generateMySQLTableName (uuid e 0))), (''fields_count'', JInt (int (length (tb_fields demo_table_body))))]), (db', m), l))"
proof -
  let ?tn = "generateMySQLTableName (uuid e 0)" and ?fs = "tb_fields demo_table_body"
  have "fst (CreateTable calm_server ''d1'' ''ds_1'' tn ?fs demo_mgr) = None \<and> snd (snd (CreateTable calm_server ''d1'' ''ds_1'' tn ?fs demo_mgr)) \<noteq> []" for tn
    by (simp add: CreateTable_def demo_table_checks dataset_exec_def pool_for_def GetPool_def demo_mgr_def NewManager_def Connect_def
        calm_server_def Let_def)
  then obtain m l where create: "CreateTable calm_server ''d1'' ''ds_1'' ?tn ?fs demo_mgr = (None, m, l)" "l \<noteq> []"
    by (metis prod.collapse)
  have q: "query_row e 1 (map d_mysql (filter (\<lambda>d. d_id d = ''d1'' \<and> d_status d \<noteq> ''deleted'') (datasets (demo_ds_db [])))) = Inr ''ds_1''"
    "count_or_zero e 2 (filter (\<lambda>t. dt_dataset t = ''d1'' \<and> dt_name t = ''orders'' \<and> dt_status t = ''active'') (dtables (demo_ds_db []))) = 0"
    using assms by (auto simp: query_row_def count_or_zero_def demo_ds_db_def demo_dataset_def empty_platform_def broken_tx_env_def)
  have b: "tb_name demo_table_body = ''orders''" "?fs \<noteq> []" by (simp_all add: demo_table_body_def)
  have acc: "hasDatasetAccess e 0 ''a'' ''d1'' ''super_admin'' (demo_ds_db [])" by (simp add: hasDatasetAccess_def)
  have role: "IsSuperAdmin ''super_admin''" by (simp add: IsSuperAdmin_def)
  show ?thesis
    unfolding CreateDatasetTable_def prod.case option.case demo_super_simps b demo_table_checks Let_def q create(1) sum.case
    by (rule exI [of _ m], rule exI [of _ l]) (simp add: acc role b create(2))
qed

lemma demo_create_table:
  "status (fst (CreateDatasetTable calm_env calm_server (Some (demo_super ''a'')) ''d1'' (Some demo_table_body) (demo_ds_db [], demo_mgr))) = StatusCreated"
proof -
  have "\<not> isl (table_tx calm_env t (tb_fields demo_table_body) (demo_ds_db []))" for t
    by (simp add: table_tx_def exec_def insert_dtable_def insert_tfield_def demo_table_body_def demo_ds_db_def empty_platform_def)
  then obtain db' where "table_tx calm_env (table_row calm_env (demo_super ''a'') ''d1'' ''orders'' (tb_display demo_table_body)
      (generateMySQLTableName (uuid calm_env 0))) (tb_fields demo_table_body) (demo_ds_db []) = Inr db'"
    by (metis isl_def sum.exhaust)
  with demo_create_table_run [OF insertI1] show ?thesis by (elim exE conjE) auto
qed

text \<open>The server accepts the table, the transaction fails: the table exists and no metadata names it.\<close>

lemma CreateDatasetTable_orphan:
  "\<exists>m l. l \<noteq> [] \<and> CreateDatasetTable broken_tx_env calm_server (Some (demo_super ''a'')) ''d1'' (Some demo_table_body) (demo_ds_db [], demo_mgr)
     = (errJSON StatusInternalServerError ''failed to create table metadata'', (demo_ds_db [], m), l)
     \<and> (\<forall>(dsn, stmt) \<in> set l. my_exec calm_server dsn stmt = None)"
proof -
  have "table_tx broken_tx_env t (tb_fields demo_table_body) (demo_ds_db []) = Inl ''failed to create table metadata''" for t
    by (simp add: table_tx_def exec_def broken_tx_env_def)
  then show ?thesis using demo_create_table_run [of broken_tx_env] by (auto simp: calm_server_def)
qed

theorem CreateDatasetTable_atomic_witness:
  "\<exists>t. dtables (fst (fst (snd (CreateDatasetTable calm_env calm_server (Some (demo_super ''a'')) ''d1'' (Some demo_table_body) (demo_ds_db [], demo_mgr)))))
       = dtables (demo_ds_db []) @ [t]"
proof -
  obtain r db' mgr' log where eq:
    "CreateDatasetTable calm_env calm_server (Some (demo_super ''a'')) ''d1'' (Some demo_table_body) (demo_ds_db [], demo_mgr) = (r, (db', mgr'), log)"
    by (metis prod.collapse)
  have "status r = StatusCreated" using demo_create_table eq by simp
  with CreateDatasetTable_atomic [OF eq refl refl, THEN conjunct2, THEN conjunct1] eq show ?thesis by auto
qed

section \<open>Who may touch a dataset\<close>

text \<open>
  C28. Datasets are closed to strangers. Without access to a dataset, reading it, listing its tables,
  creating a table in it, reading a table and listing fields are all refused (400, 401 or 403), and
  the creation changes nothing and sends nothing to the dataset server.
\<close>

theorem dataset_access_enforced:
  assumes "\<forall>c. co = Some c \<longrightarrow> \<not> hasDatasetAccess e 0 (UserID c) did (Role c) db"
  shows "status (GetDataset e co did db) \<in> {400, 401, 403}
         \<and> status (ListDatasetTables e co did db) \<in> {400, 401, 403}
         \<and> status (GetDatasetTable e co did tid db) \<in> {400, 401, 403}
         \<and> status (ListFields e co did tid db) \<in> {400, 401, 403}
         \<and> (\<exists>r. CreateDatasetTable e srv co did b (db, mgr) = (r, (db, mgr), []) \<and> status r \<in> {400, 403})"
proof (cases co)
  case None
  then show ?thesis
    by (simp add: GetDataset_def ListDatasetTables_def GetDatasetTable_def ListFields_def CreateDatasetTable_def keep_def)
next
  case (Some c)
  then have "\<not> hasDatasetAccess e 0 (UserID c) did (Role c) db" using assms by simp
  then show ?thesis
    by (simp add: Some GetDataset_def ListDatasetTables_def GetDatasetTable_def ListFields_def CreateDatasetTable_def keep_def)
qed

definition demo_admin :: Claims where
  "demo_admin = (demo_super ''u9'')\<lparr>Role := ''data_admin''\<rparr>"

lemma demo_admin_no_access: "\<not> hasDatasetAccess calm_env 0 ''u9'' ''d1'' ''data_admin'' (demo_ds_db [])"
  by (simp add: hasDatasetAccess_iff demo_ds_db_def empty_platform_def)

theorem dataset_access_enforced_witness:
  "status (GetDataset calm_env (Some demo_admin) ''d1'' (demo_ds_db [])) \<in> {400, 401, 403}"
  using dataset_access_enforced [of "Some demo_admin" calm_env "''d1''" "demo_ds_db []"] demo_admin_no_access
  by (simp add: demo_admin_def)

definition demo_tables_db :: platform where
  "demo_tables_db = (demo_ds_db [\<lparr>dp_dataset = ''d2'', dp_user = ''u9'', dp_level = ''read''\<rparr>])
     \<lparr>datasets := [demo_dataset, demo_dataset\<lparr>d_id := ''d2''\<rparr>],
      dtables := [\<lparr>dt_id = ''t1'', dt_dataset = ''d1'', dt_name = ''n'', dt_display = None, dt_mysql = ''tbl_1'', dt_status = ''active'',
                   dt_by = None, dt_created = 0, dt_updated = 0\<rparr>],
      tfields := [\<lparr>tf_id = ''f1'', tf_table = ''t1'', tf_name = ''salary'', tf_display = None, tf_type = ''INT'', tf_length = None,
                   tf_nullable = True, tf_pos = 1\<rparr>]\<rparr>"

text \<open>
  Two endpoints are open. \<open>DeleteDatasetTable\<close> never asks for access to the dataset, and
  \<open>ListFields\<close> asks for access to the dataset in the address but reads the fields of whatever
  table is named: a data administrator with access to dataset \<open>d2\<close> only deletes table
  \<open>t1\<close> of \<open>d1\<close>, and reads its fields through \<open>d2\<close>.
\<close>

theorem table_endpoints_unchecked:
  "\<not> hasDatasetAccess calm_env 0 (UserID demo_admin) ''d1'' (Role demo_admin) demo_tables_db
   \<and> (\<exists>r db' mgr' log. DeleteDatasetTable calm_env calm_server (Some demo_admin) ''d1'' ''t1'' (demo_tables_db, demo_mgr) = (r, (db', mgr'), log)
        \<and> status r = StatusOK \<and> map dt_status (dtables db') = [''inactive''])
   \<and> status (ListFields calm_env (Some demo_admin) ''d2'' ''t1'' demo_tables_db) = StatusOK
   \<and> body (ListFields calm_env (Some demo_admin) ''d2'' ''t1'' demo_tables_db) = JObj [(''fields'', JArr (map field_json (tfields demo_tables_db)))]"
proof -
  have acc: "\<not> hasDatasetAccess calm_env 0 ''u9'' ''d1'' ''data_admin'' demo_tables_db" "hasDatasetAccess calm_env 0 ''u9'' ''d2'' ''data_admin'' demo_tables_db"
    by (simp_all add: hasDatasetAccess_iff demo_tables_db_def demo_ds_db_def demo_dataset_def)
  have tf: "table_fields ''t1'' demo_tables_db = tfields demo_tables_db" "tfields demo_tables_db \<noteq> []"
    by (simp_all add: table_fields_def demo_tables_db_def)
  have "ListFields calm_env (Some demo_admin) ''d2'' ''t1'' demo_tables_db = JSON StatusOK (JObj [(''fields'', JArr (map field_json (tfields demo_tables_db)))])"
    by (simp add: ListFields_def demo_admin_def acc query_def rows_next_def scan_skip_def tf json_slice_def)
  moreover have "\<exists>r db' mgr' log. DeleteDatasetTable calm_env calm_server (Some demo_admin) ''d1'' ''t1'' (demo_tables_db, demo_mgr) = (r, (db', mgr'), log)
        \<and> status r = StatusOK \<and> map dt_status (dtables db') = [''inactive'']"
    by (simp add: DeleteDatasetTable_def demo_admin_def IsDataAdmin_def query_row_def demo_tables_db_def demo_ds_db_def demo_dataset_def
        exec_def split: prod.split)
  ultimately show ?thesis using acc(1) by (simp add: demo_admin_def)
qed

end
