(* ===== verification/Sqlrun.thy ===== *)
theory Sqlrun
  imports Rbac "HOL-Library.AList"
begin

text \<open>
  The SQL gate of \<open>internal/sqlrun\<close>: the lexer and \<open>IsReadOnlySQL\<close>, the statement
  classifier, the role table and the system table check, and the two functions that talk to a
  MySQL pool (\<open>run.go\<close>). The loops of the Go lexer keep their byte indices. A pool is the
  pair of functions the driver offers; what is sent to it is recorded as a list of
  \<open>dbcall\<close>s, so that a theorem can speak of the statements that reach the server.
\<close>

section \<open>classify.go: data\<close>

datatype SQLType =
    SQLTypeSelect
  | SQLTypeInsert
  | SQLTypeUpdate
  | SQLTypeDelete
  | SQLTypeCreateTable
  | SQLTypeCreateDB
  | SQLTypeDrop
  | SQLTypeAlter
  | SQLTypeTruncate
  | SQLTypeUnknown

text \<open>The string each constant stands for.\<close>

primrec sqltype_str :: "SQLType \<Rightarrow> string" where
  "sqltype_str SQLTypeSelect = ''SELECT''"
| "sqltype_str SQLTypeInsert = ''INSERT''"
| "sqltype_str SQLTypeUpdate = ''UPDATE''"
| "sqltype_str SQLTypeDelete = ''DELETE''"
| "sqltype_str SQLTypeCreateTable = ''CREATE_TABLE''"
| "sqltype_str SQLTypeCreateDB = ''CREATE_DATABASE''"
| "sqltype_str SQLTypeDrop = ''DROP''"
| "sqltype_str SQLTypeAlter = ''ALTER''"
| "sqltype_str SQLTypeTruncate = ''TRUNCATE''"
| "sqltype_str SQLTypeUnknown = ''UNKNOWN''"

definition writeKeywords :: "string list" where
  "writeKeywords =
     [''INSERT'', ''UPDATE'', ''DELETE'', ''DROP'',
      ''ALTER'', ''TRUNCATE'', ''CREATE'', ''REPLACE'',
      ''MERGE'', ''EXEC'', ''EXECUTE'', ''CALL'',
      ''GRANT'', ''REVOKE'', ''LOAD'', ''IMPORT'', ''COPY'']"

section \<open>classify.go: the lexer\<close>

definition isAlpha :: "char \<Rightarrow> bool" where
  "isAlpha c \<longleftrightarrow> in_range CHR ''a'' CHR ''z'' c \<or> in_range CHR ''A'' CHR ''Z'' c"

definition isAlnum :: "char \<Rightarrow> bool" where
  "isAlnum c \<longleftrightarrow> isAlpha c \<or> in_range CHR ''0'' CHR ''9'' c"

text \<open>The inner loop over a string literal, a quote written twice being an escaped quote.\<close>

function skip_squote :: "string \<Rightarrow> nat \<Rightarrow> nat" where
  "skip_squote sql j =
     (if j < length sql then
        (if sql ! j = CHR 0x27 then
           (if j + 1 < length sql \<and> sql ! (j + 1) = CHR 0x27 then skip_squote sql (j + 2) else j + 1)
         else skip_squote sql (j + 1))
      else j)"
  by pat_completeness auto
termination by (relation "measure (\<lambda>(sql, j). length sql - j)") auto

text \<open>The inner loop over a double quoted identifier; a backslash skips one byte.\<close>

function dquote_end :: "string \<Rightarrow> nat \<Rightarrow> nat" where
  "dquote_end sql j =
     (if j < length sql \<and> sql ! j \<noteq> CHR 0x22 then
        dquote_end sql ((if sql ! j = CHR 0x5C then j + 1 else j) + 1)
      else j)"
  by pat_completeness auto
termination by (relation "measure (\<lambda>(sql, j). length sql - j)") auto

function btick_end :: "string \<Rightarrow> nat \<Rightarrow> nat" where
  "btick_end sql j =
     (if j < length sql \<and> sql ! j \<noteq> CHR 0x60 then btick_end sql (j + 1) else j)"
  by pat_completeness auto
termination by (relation "measure (\<lambda>(sql, j). length sql - j)") auto

function word_end :: "string \<Rightarrow> nat \<Rightarrow> nat" where
  "word_end sql j =
     (if j < length sql \<and> (isAlnum (sql ! j) \<or> sql ! j = CHR ''_'') then word_end sql (j + 1) else j)"
  by pat_completeness auto
termination by (relation "measure (\<lambda>(sql, j). length sql - j)") auto

function digits_end :: "string \<Rightarrow> nat \<Rightarrow> nat" where
  "digits_end sql j =
     (if j < length sql \<and> in_range CHR ''0'' CHR ''9'' (sql ! j) then digits_end sql (j + 1) else j)"
  by pat_completeness auto
termination by (relation "measure (\<lambda>(sql, j). length sql - j)") auto

declare skip_squote.simps [simp del] dquote_end.simps [simp del] btick_end.simps [simp del]
  word_end.simps [simp del] digits_end.simps [simp del]

lemma skip_squote_ge: "j \<le> skip_squote sql j"
proof (induction sql j rule: skip_squote.induct)
  case (1 sql j)
  then show ?case by (subst skip_squote.simps) auto
qed

lemma dquote_end_ge: "j \<le> dquote_end sql j"
proof (induction sql j rule: dquote_end.induct)
  case (1 sql j)
  then show ?case by (subst dquote_end.simps) (auto split: if_splits)
qed

lemma btick_end_ge: "j \<le> btick_end sql j"
proof (induction sql j rule: btick_end.induct)
  case (1 sql j)
  then show ?case by (subst btick_end.simps) auto
qed

lemma word_end_ge: "j \<le> word_end sql j"
proof (induction sql j rule: word_end.induct)
  case (1 sql j)
  then show ?case by (subst word_end.simps) auto
qed

lemma digits_end_ge: "j \<le> digits_end sql j"
proof (induction sql j rule: digits_end.induct)
  case (1 sql j)
  then show ?case by (subst digits_end.simps) auto
qed

lemma word_end_gt:
  "i < length sql \<Longrightarrow> isAlpha (sql ! i) \<or> sql ! i = CHR ''_'' \<Longrightarrow> i < word_end sql i"
  using word_end_ge [of "i + 1" sql]
  by (subst word_end.simps) (auto simp: isAlnum_def)

lemma digits_end_gt:
  "i < length sql \<Longrightarrow> in_range CHR ''0'' CHR ''9'' (sql ! i) \<Longrightarrow> i < digits_end sql i"
  using digits_end_ge [of "i + 1" sql] by (subst digits_end.simps) auto

definition close_at :: "string \<Rightarrow> nat \<Rightarrow> nat" where
  "close_at sql j = (if j < length sql then j + 1 else j)"

lemma close_at_ge: "j \<le> close_at sql j"
  by (simp add: close_at_def)

text \<open>
  The main loop from index \<open>i\<close>; the words found from there on. A \<open>break\<close> ends the
  list. The measure is the distance to the end of the text.
\<close>

function tokenize_from :: "string \<Rightarrow> nat \<Rightarrow> string list" where
  "tokenize_from sql i =
     (if i < length sql then
        (let c = sql ! i in
         if c = CHR '' '' \<or> c = CHR 0x09 \<or> c = CHR 0x0A \<or> c = CHR 0x0D then tokenize_from sql (i + 1)
         else if c = CHR ''-'' \<and> i + 1 < length sql \<and> sql ! (i + 1) = CHR ''-'' then
           (case Index (drop i sql) [newline] of
              None \<Rightarrow> []
            | Some e \<Rightarrow> tokenize_from sql (i + (e + 1)))
         else if c = CHR ''/'' \<and> i + 1 < length sql \<and> sql ! (i + 1) = CHR ''*'' then
           (case Index (drop (i + 2) sql) ''*/'' of
              None \<Rightarrow> []
            | Some e \<Rightarrow> tokenize_from sql (i + (e + 4)))
         else if c = CHR 0x27 then tokenize_from sql (skip_squote sql (i + 1))
         else if c = CHR 0x22 then tokenize_from sql (close_at sql (dquote_end sql (i + 1)))
         else if c = CHR 0x60 then tokenize_from sql (close_at sql (btick_end sql (i + 1)))
         else if isAlpha c \<or> c = CHR ''_'' then
           take (word_end sql i - i) (drop i sql) # tokenize_from sql (word_end sql i)
         else if in_range CHR ''0'' CHR ''9'' c then tokenize_from sql (digits_end sql i)
         else tokenize_from sql (i + 1))
      else [])"
  by pat_completeness auto
termination
proof (relation "measure (\<lambda>(sql, i). length sql - i)", goal_cases)
  case (5 sql i c)
  then show ?case using skip_squote_ge [of "i + 1" sql] by auto
next
  case (6 sql i c)
  then show ?case
    using dquote_end_ge [of "i + 1" sql] close_at_ge [of "dquote_end sql (i + 1)" sql] by auto
next
  case (7 sql i c)
  then show ?case
    using btick_end_ge [of "i + 1" sql] close_at_ge [of "btick_end sql (i + 1)" sql] by auto
next
  case (8 sql i c)
  then show ?case using word_end_gt [of i sql] by auto
next
  case (9 sql i c)
  then show ?case using digits_end_gt [of i sql] by auto
qed auto

declare tokenize_from.simps [simp del]

definition tokenize :: "string \<Rightarrow> string list" where
  "tokenize sql = tokenize_from sql 0"

fun first_write_keyword :: "string list \<Rightarrow> err" where
  "first_write_keyword [] = None"
| "first_write_keyword (w # words) =
     (let upper = ToUpper w in
      if upper \<in> set writeKeywords
      then Some (''only read-only SQL is allowed (found keyword: '' @ upper @ '')'')
      else first_write_keyword words)"

definition IsReadOnlySQL :: "string \<Rightarrow> err" where
  "IsReadOnlySQL sql = first_write_keyword (tokenize sql)"

section \<open>classify.go: the classifier\<close>

definition hasPrefixWord :: "string \<Rightarrow> string \<Rightarrow> bool" where
  "hasPrefixWord s word =
     (if \<not> HasPrefix s word then False
      else (case drop (length word) s of
              [] \<Rightarrow> True
            | c # _ \<Rightarrow> c = CHR '' '' \<or> c = CHR 0x09 \<or> c = CHR 0x0A))"

function stripParens :: "string \<Rightarrow> string" where
  "stripParens s = (if HasPrefix s ''('' then stripParens (TrimSpace (drop 1 s)) else s)"
  by pat_completeness auto
termination
proof (relation "measure length", simp)
  fix s :: string
  assume "HasPrefix s ''(''"
  then have "s \<noteq> []" by (auto simp: HasPrefix_def)
  then have "length (drop 1 s) < length s" by (cases s) auto
  then show "(TrimSpace (drop 1 s), s) \<in> measure length"
    using length_TrimSpace [of "drop 1 s"] by (simp del: length_TrimSpace)
qed

declare stripParens.simps [simp del]

definition ClassifySQL :: "string \<Rightarrow> SQLType" where
  "ClassifySQL sql =
     (let u = stripParens (ToUpper (TrimSpace sql)) in
      if hasPrefixWord u ''SELECT'' then SQLTypeSelect
      else if hasPrefixWord u ''WITH'' then SQLTypeSelect
      else if hasPrefixWord u ''INSERT'' then SQLTypeInsert
      else if hasPrefixWord u ''UPDATE'' then SQLTypeUpdate
      else if hasPrefixWord u ''DELETE'' then SQLTypeDelete
      else if hasPrefixWord u ''TRUNCATE'' then SQLTypeTruncate
      else if hasPrefixWord u ''CREATE TABLE'' then SQLTypeCreateTable
      else if hasPrefixWord u ''CREATE DATABASE'' then SQLTypeCreateDB
      else if hasPrefixWord u ''CREATE'' then SQLTypeCreateTable
      else if hasPrefixWord u ''DROP'' then SQLTypeDrop
      else if hasPrefixWord u ''ALTER'' then SQLTypeAlter
      else SQLTypeUnknown)"

section \<open>permissions.go\<close>

definition systemTables :: "string list" where
  "systemTables =
     [''users'', ''workspaces'', ''sessions'', ''messages'', ''runs'', ''audit_events'',
      ''async_tasks'', ''knowledge_docs'', ''data_sources'', ''agent_run_steps'', ''datasets'',
      ''dataset_permissions'', ''dataset_tables'', ''table_fields'', ''permission_requests'']"

fun minRoleForSQLType :: "SQLType \<Rightarrow> string option" where
  "minRoleForSQLType SQLTypeSelect = Some ''read_only_visitor''"
| "minRoleForSQLType SQLTypeInsert = Some ''normal_user''"
| "minRoleForSQLType SQLTypeUpdate = Some ''normal_user''"
| "minRoleForSQLType SQLTypeCreateTable = Some ''data_admin''"
| "minRoleForSQLType SQLTypeCreateDB = Some ''super_admin''"
| "minRoleForSQLType SQLTypeDelete = Some ''data_admin''"
| "minRoleForSQLType SQLTypeDrop = Some ''super_admin''"
| "minRoleForSQLType SQLTypeAlter = Some ''data_admin''"
| "minRoleForSQLType SQLTypeTruncate = Some ''data_admin''"
| "minRoleForSQLType SQLTypeUnknown = Some ''super_admin''"

definition IsSystemTable :: "string \<Rightarrow> bool" where
  "IsSystemTable tableName \<longleftrightarrow> tableName \<in> set systemTables"

definition isIdentChar :: "char \<Rightarrow> bool" where
  "isIdentChar c \<longleftrightarrow>
     in_range CHR ''A'' CHR ''Z'' c \<or> in_range CHR ''a'' CHR ''z'' c
     \<or> in_range CHR ''0'' CHR ''9'' c \<or> c = CHR ''_''"

text \<open>The body of the loop for one table: its first occurrence, delimited on both sides.\<close>

definition mentions_table :: "string \<Rightarrow> string \<Rightarrow> bool" where
  "mentions_table upper tbl =
     (let upperTbl = ToUpper tbl in
      case Index upper upperTbl of
        None \<Rightarrow> False
      | Some idx \<Rightarrow>
          (let before = (idx = 0 \<or> \<not> isIdentChar (upper ! (idx - 1)));
               after = (length upper \<le> idx + length upperTbl
                        \<or> \<not> isIdentChar (upper ! (idx + length upperTbl)))
           in before \<and> after))"

text \<open>
  Go iterates over the map \<open>systemTables\<close> in an unspecified order; \<open>order\<close> is the order
  of one such iteration, a permutation of \<open>systemTables\<close>.
\<close>

definition CheckSystemTableInSQL :: "string list \<Rightarrow> string \<Rightarrow> string option" where
  "CheckSystemTableInSQL order sql = List.find (mentions_table (ToUpper sql)) order"

definition IsAllowedForRole :: "SQLType \<Rightarrow> string \<Rightarrow> err" where
  "IsAllowedForRole sqlType role =
     (case minRoleForSQLType sqlType of
        None \<Rightarrow> Some (''unsupported SQL type: '' @ sqltype_str sqlType)
      | Some minRole \<Rightarrow>
          if role_level role < role_level minRole
          then Some (''role '' @ role @ '' is not allowed to perform '' @ sqltype_str sqlType
                     @ '' (requires '' @ minRole @ '' or above)'')
          else None)"

section \<open>run.go\<close>

text \<open>Values of a row: \<open>DbStr\<close> is a \<open>[]byte\<close>, as the driver scans texts, \<open>DbText\<close> a Go string.\<close>

datatype dbval = DbNull | DbInt int | DbStr string | DbText string

type_synonym row = "(string \<times> dbval) list"

text \<open>
  What \<open>QueryContext\<close> gives: the column names (or the error of \<open>Columns\<close>), for each
  \<open>Next\<close> the scanned values (or the error of \<open>Scan\<close>), and the error of \<open>Err\<close>.
\<close>

record rowset =
  rs_cols :: "string list res"
  rs_rows :: "dbval list res list"
  rs_err :: err

record pool =
  pool_query :: "string \<Rightarrow> rowset res"
  pool_exec :: "string \<Rightarrow> int res"

datatype dbcall = Query string | Exec string

definition mk_row :: "string list \<Rightarrow> dbval list \<Rightarrow> row" where
  "mk_row cols vals = fold (\<lambda>(c, v). AList.update c v) (zip cols vals) []"

fun scan_rows :: "string list \<Rightarrow> dbval list res list \<Rightarrow> row list res" where
  "scan_rows cols [] = Inr []"
| "scan_rows cols (Inl e # rs) = Inl e"
| "scan_rows cols (Inr vals # rs) =
     (case scan_rows cols rs of Inl e \<Rightarrow> Inl e | Inr out \<Rightarrow> Inr (mk_row cols vals # out))"

definition trim_stmt :: "string \<Rightarrow> string" where
  "trim_stmt sqlStr = TrimSpace (TrimSuffix (TrimSpace sqlStr) '';'')"

definition wrap_limit :: "string \<Rightarrow> int \<Rightarrow> string" where
  "wrap_limit sqlStr maxRows = ''SELECT * FROM ('' @ sqlStr @ '') AS _q LIMIT '' @ int_dec maxRows"

definition QueryRows :: "pool \<Rightarrow> string \<Rightarrow> int \<Rightarrow> dbcall list \<times> row list res" where
  "QueryRows p sql0 maxRows =
     (let sqlStr = trim_stmt sql0 in
      case IsReadOnlySQL sqlStr of
        Some e \<Rightarrow> ([], Inl e)
      | None \<Rightarrow>
          (let wrapped = wrap_limit sqlStr maxRows in
           ([Query wrapped],
            case pool_query p wrapped of
              Inl e \<Rightarrow> Inl e
            | Inr rows \<Rightarrow>
                (case rs_cols rows of
                   Inl e \<Rightarrow> Inl e
                 | Inr cols \<Rightarrow>
                     (case scan_rows cols (rs_rows rows) of
                        Inl e \<Rightarrow> Inl e
                      | Inr out \<Rightarrow> (case rs_err rows of Some e \<Rightarrow> Inl e | None \<Rightarrow> Inr out))))))"

definition ExecuteWrite :: "pool \<Rightarrow> string \<Rightarrow> dbcall list \<times> int res" where
  "ExecuteWrite p sql0 =
     (let sqlStr = trim_stmt sql0 in ([Exec sqlStr], pool_exec p sqlStr))"

section \<open>Evaluation by the simplifier\<close>

lemmas lexer_eval = tokenize_def tokenize_from.simps skip_squote.simps dquote_end.simps btick_end.simps
  word_end.simps digits_end.simps close_at_def isAlpha_def isAlnum_def

lemmas classify_eval = ClassifySQL_def stripParens.simps hasPrefixWord_def HasPrefix_def trim_eval

lemmas system_table_eval = CheckSystemTableInSQL_def systemTables_def mentions_table_def isIdentChar_def

lemmas readonly_eval = IsReadOnlySQL_def lexer_eval writeKeywords_def

end
