(* ===== verification/Sql_Lexer.thy ===== *)
theory Sql_Lexer
  imports Sqlrun
begin

text \<open>
  A specification of the lexer of \<open>internal/sqlrun/classify.go\<close>: a finite automaton that
  reads the text one byte at a time, and the proof that the index-driven Go loop computes the
  same words. The automaton composes over concatenation, which is what makes it possible to say
  \<^emph>\<open>where\<close> in a text a keyword stands: in code, in a comment, in a quoted region.
\<close>

section \<open>The automaton\<close>

datatype mode =
    Code          \<comment> \<open>between tokens\<close>
  | Dash          \<comment> \<open>one minus sign read\<close>
  | Slash         \<comment> \<open>one slash read\<close>
  | LineComment
  | BlockComment
  | Star          \<comment> \<open>an asterisk read inside a block comment\<close>
  | SQuote
  | SQuoteEnd     \<comment> \<open>a quote read inside a string literal: the end, or half of an escape\<close>
  | DQuote
  | DQuoteEsc     \<comment> \<open>a backslash read inside a double quoted identifier\<close>
  | BTick
  | InWord string \<comment> \<open>the word read so far\<close>

definition identByte :: "char \<Rightarrow> bool" where
  "identByte c \<longleftrightarrow> isAlnum c \<or> c = CHR ''_''"

definition from_code :: "char \<Rightarrow> mode" where
  "from_code c =
     (if c = CHR ''-'' then Dash
      else if c = CHR ''/'' then Slash
      else if c = CHR 0x27 then SQuote
      else if c = CHR 0x22 then DQuote
      else if c = CHR 0x60 then BTick
      else if isAlpha c \<or> c = CHR ''_'' then InWord [c]
      else Code)"

fun delta :: "mode \<Rightarrow> char \<Rightarrow> mode" where
  "delta Code c = from_code c"
| "delta Dash c = (if c = CHR ''-'' then LineComment else from_code c)"
| "delta Slash c = (if c = CHR ''*'' then BlockComment else from_code c)"
| "delta LineComment c = (if c = newline then Code else LineComment)"
| "delta BlockComment c = (if c = CHR ''*'' then Star else BlockComment)"
| "delta Star c = (if c = CHR ''/'' then Code else if c = CHR ''*'' then Star else BlockComment)"
| "delta SQuote c = (if c = CHR 0x27 then SQuoteEnd else SQuote)"
| "delta SQuoteEnd c = (if c = CHR 0x27 then SQuote else from_code c)"
| "delta DQuote c = (if c = CHR 0x22 then Code else if c = CHR 0x5C then DQuoteEsc else DQuote)"
| "delta DQuoteEsc c = DQuote"
| "delta BTick c = (if c = CHR 0x60 then Code else BTick)"
| "delta (InWord w) c = (if identByte c then InWord (w @ [c]) else from_code c)"

text \<open>The words completed by reading \<open>c\<close>, and by the end of the text.\<close>

fun emit :: "mode \<Rightarrow> char \<Rightarrow> string list" where
  "emit (InWord w) c = (if identByte c then [] else [w])"
| "emit m c = []"

fun flush :: "mode \<Rightarrow> string list" where
  "flush (InWord w) = [w]"
| "flush m = []"

fun scan :: "mode \<Rightarrow> string \<Rightarrow> string list" where
  "scan m [] = flush m"
| "scan m (c # s) = emit m c @ scan (delta m c) s"

text \<open>The mode after a text, and the words completed inside it.\<close>

fun mode_after :: "mode \<Rightarrow> string \<Rightarrow> mode" where
  "mode_after m [] = m"
| "mode_after m (c # s) = mode_after (delta m c) s"

fun completed :: "mode \<Rightarrow> string \<Rightarrow> string list" where
  "completed m [] = []"
| "completed m (c # s) = emit m c @ completed (delta m c) s"

lemma scan_append: "scan m (xs @ ys) = completed m xs @ scan (mode_after m xs) ys"
  by (induction xs arbitrary: m) auto

lemma mode_after_append: "mode_after m (xs @ ys) = mode_after (mode_after m xs) ys"
  by (induction xs arbitrary: m) auto

lemma completed_append: "completed m (xs @ ys) = completed m xs @ completed (mode_after m xs) ys"
  by (induction xs arbitrary: m) auto

lemma scan_completed: "scan m s = completed m s @ flush (mode_after m s)"
  using scan_append [of m s "[]"] by simp

section \<open>Regions\<close>

text \<open>Each region of the automaton, as the Go code finds its end.\<close>

lemma scan_LineComment:
  "scan LineComment s = (case Index s [newline] of None \<Rightarrow> [] | Some e \<Rightarrow> scan Code (drop (e + 1) s))"
  by (induction s) (auto split: option.splits)

lemma scan_BlockComment_Star:
  "scan BlockComment s = (case Index s ''*/'' of None \<Rightarrow> [] | Some e \<Rightarrow> scan Code (drop (e + 2) s)) \<and>
   scan Star s = (case Index (CHR ''*'' # s) ''*/'' of None \<Rightarrow> [] | Some e \<Rightarrow> scan Code (drop (e + 1) s))"
proof (induction s)
  case Nil
  then show ?case by simp
next
  case (Cons c s)
  then show ?case by (auto split: option.splits simp: prefix_Cons)
qed

lemmas scan_BlockComment = scan_BlockComment_Star [THEN conjunct1]

lemma drop_nth: "j < length s \<Longrightarrow> drop j s = s ! j # drop (Suc j) s"
  by (simp add: Cons_nth_drop_Suc)

lemma scan_SQuoteEnd:
  "scan SQuoteEnd s = (case s of c # t \<Rightarrow> (if c = CHR 0x27 then scan SQuote t else scan Code s) | [] \<Rightarrow> [])"
  by (cases s) auto

lemma scan_SQuote: "scan SQuote (drop j sql) = scan Code (drop (skip_squote sql j) sql)"
proof (induction sql j rule: skip_squote.induct)
  case (1 sql j)
  show ?case
  proof (cases "j < length sql")
    case False
    then show ?thesis by (simp add: skip_squote.simps [of sql j])
  next
    case j: True
    show ?thesis
    proof (cases "sql ! j = CHR 0x27")
      case False
      with 1 j show ?thesis by (simp add: drop_nth skip_squote.simps [of sql j])
    next
      case True
      show ?thesis
      proof (cases "j + 1 < length sql \<and> sql ! (j + 1) = CHR 0x27")
        case esc: True
        with 1 j True show ?thesis
          by (simp add: drop_nth [of j] drop_nth [of "Suc j"] skip_squote.simps [of sql j])
      next
        case False
        with j True show ?thesis
          by (cases "j + 1 < length sql")
            (auto simp: drop_nth [of j] drop_nth [of "Suc j"] scan_SQuoteEnd skip_squote.simps [of sql j])
      qed
    qed
  qed
qed

lemma scan_DQuoteEsc: "scan DQuoteEsc s = scan DQuote (drop 1 s)"
  by (cases s) auto

lemma scan_DQuote: "scan DQuote (drop j sql) = scan Code (drop (close_at sql (dquote_end sql j)) sql)"
proof (induction sql j rule: dquote_end.induct)
  case (1 sql j)
  show ?case
  proof (cases "j < length sql \<and> sql ! j \<noteq> CHR 0x22")
    case True
    with 1 show ?thesis
      by (auto simp: drop_nth [of j] scan_DQuoteEsc dquote_end.simps [of sql j] split: if_splits)
  next
    case False
    then show ?thesis
      by (cases "j < length sql") (auto simp: drop_nth [of j] dquote_end.simps [of sql j] close_at_def)
  qed
qed

lemma scan_BTick: "scan BTick (drop j sql) = scan Code (drop (close_at sql (btick_end sql j)) sql)"
proof (induction sql j rule: btick_end.induct)
  case (1 sql j)
  show ?case
  proof (cases "j < length sql \<and> sql ! j \<noteq> CHR 0x60")
    case True
    with 1 show ?thesis by (auto simp: drop_nth [of j] btick_end.simps [of sql j])
  next
    case False
    then show ?thesis
      by (cases "j < length sql") (auto simp: drop_nth [of j] btick_end.simps [of sql j] close_at_def)
  qed
qed

lemma scan_InWord:
  "scan (InWord w) (drop j sql) =
     (w @ take (word_end sql j - j) (drop j sql)) # scan Code (drop (word_end sql j) sql)"
proof (induction sql j arbitrary: w rule: word_end.induct)
  case (1 sql j)
  show ?case
  proof (cases "j < length sql \<and> identByte (sql ! j)")
    case True
    then have e: "word_end sql j = word_end sql (j + 1)"
      by (simp add: word_end.simps [of sql j] identByte_def)
    have ge: "j + 1 \<le> word_end sql (j + 1)" by (rule word_end_ge)
    from True 1 have "scan (InWord w) (drop j sql) =
        (w @ [sql ! j] @ take (word_end sql (j + 1) - (j + 1)) (drop (j + 1) sql))
          # scan Code (drop (word_end sql (j + 1)) sql)"
      by (simp add: drop_nth [of j] identByte_def)
    also have "[sql ! j] @ take (word_end sql (j + 1) - (j + 1)) (drop (j + 1) sql)
               = take (word_end sql j - j) (drop j sql)"
      using True e ge by (simp add: drop_nth [of j] Suc_diff_Suc [symmetric] Suc_le_eq)
    finally show ?thesis by (simp add: e)
  next
    case False
    then have e: "word_end sql j = j"
      by (auto simp: word_end.simps [of sql j] identByte_def)
    show ?thesis
      using False by (cases "j < length sql") (auto simp: e drop_nth [of j])
  qed
qed

text \<open>A digit is skipped like any other byte, so the digit loop can be read byte by byte.\<close>

lemma digit_not_special:
  assumes "in_range CHR ''0'' CHR ''9'' c"
  shows "from_code c = Code"
  using assms by (auto simp: from_code_def in_range_def byte_def isAlpha_def)

lemma scan_digits: "scan Code (drop j sql) = scan Code (drop (digits_end sql j) sql)"
proof (induction sql j rule: digits_end.induct)
  case (1 sql j)
  show ?case
  proof (cases "j < length sql \<and> in_range CHR ''0'' CHR ''9'' (sql ! j)")
    case True
    with 1 show ?thesis
      by (simp add: drop_nth [of j] digits_end.simps [of sql j] digit_not_special)
  next
    case False
    then have "digits_end sql j = j" by (subst digits_end.simps) auto
    then show ?thesis by simp
  qed
qed

section \<open>The Go loop implements the automaton\<close>

lemma scan_Dash:
  assumes "\<not> (j < length sql \<and> sql ! j = CHR ''-'')"
  shows "scan Dash (drop j sql) = scan Code (drop j sql)"
  using assms by (cases "j < length sql") (simp_all add: drop_nth)

lemma scan_Slash:
  assumes "\<not> (j < length sql \<and> sql ! j = CHR ''*'')"
  shows "scan Slash (drop j sql) = scan Code (drop j sql)"
  using assms by (cases "j < length sql") (simp_all add: drop_nth)

lemma Index_dashes:
  assumes "i + 1 < length sql" "sql ! i = CHR ''-''" "sql ! (i + 1) = CHR ''-''"
  shows "Index (drop i sql) [newline] = map_option (\<lambda>e. e + 2) (Index (drop (i + 2) sql) [newline])"
  using assms by (simp add: drop_nth [of i] drop_nth [of "Suc i"] option.map_comp o_def)

text \<open>One equation per branch of the Go loop.\<close>

definition blankByte :: "char \<Rightarrow> bool" where
  "blankByte c \<longleftrightarrow> c = CHR '' '' \<or> c = CHR 0x09 \<or> c = CHR 0x0A \<or> c = CHR 0x0D"

lemma blankByte_code: "blankByte c \<Longrightarrow> from_code c = Code"
  by (auto simp: blankByte_def from_code_def isAlpha_def in_range_def byte_def)

lemma tokenize_end: "\<not> i < length sql \<Longrightarrow> tokenize_from sql i = []"
  by (simp add: tokenize_from.simps [of sql i])

lemma tokenize_blank:
  "i < length sql \<Longrightarrow> blankByte (sql ! i) \<Longrightarrow> tokenize_from sql i = tokenize_from sql (i + 1)"
  by (subst tokenize_from.simps) (auto simp: blankByte_def Let_def)

lemma tokenize_line:
  "i + 1 < length sql \<Longrightarrow> sql ! i = CHR ''-'' \<Longrightarrow> sql ! (i + 1) = CHR ''-'' \<Longrightarrow>
   tokenize_from sql i =
     (case Index (drop i sql) [newline] of None \<Rightarrow> [] | Some e \<Rightarrow> tokenize_from sql (i + (e + 1)))"
  by (subst tokenize_from.simps) (simp add: Let_def)

lemma tokenize_block:
  "i + 1 < length sql \<Longrightarrow> sql ! i = CHR ''/'' \<Longrightarrow> sql ! (i + 1) = CHR ''*'' \<Longrightarrow>
   tokenize_from sql i =
     (case Index (drop (i + 2) sql) ''*/'' of None \<Rightarrow> [] | Some e \<Rightarrow> tokenize_from sql (i + (e + 4)))"
  by (subst tokenize_from.simps) (simp add: Let_def)

lemma tokenize_squote:
  "i < length sql \<Longrightarrow> sql ! i = CHR 0x27 \<Longrightarrow>
   tokenize_from sql i = tokenize_from sql (skip_squote sql (i + 1))"
  by (subst tokenize_from.simps) (simp add: Let_def)

lemma tokenize_dquote:
  "i < length sql \<Longrightarrow> sql ! i = CHR 0x22 \<Longrightarrow>
   tokenize_from sql i = tokenize_from sql (close_at sql (dquote_end sql (i + 1)))"
  by (subst tokenize_from.simps) (simp add: Let_def)

lemma tokenize_btick:
  "i < length sql \<Longrightarrow> sql ! i = CHR 0x60 \<Longrightarrow>
   tokenize_from sql i = tokenize_from sql (close_at sql (btick_end sql (i + 1)))"
  by (subst tokenize_from.simps) (simp add: Let_def)

lemma special_not_ident:
  "\<not> isAlpha CHR ''-''" "\<not> isAlpha CHR ''/''" "\<not> in_range CHR ''0'' CHR ''9'' CHR ''-''"
  "\<not> in_range CHR ''0'' CHR ''9'' CHR ''/''"
  by (simp_all add: isAlpha_def in_range_def byte_def)

lemma tokenize_dash:
  "i < length sql \<Longrightarrow> sql ! i = CHR ''-'' \<Longrightarrow> \<not> (i + 1 < length sql \<and> sql ! (i + 1) = CHR ''-'') \<Longrightarrow>
   tokenize_from sql i = tokenize_from sql (i + 1)"
  by (subst tokenize_from.simps) (auto simp: Let_def special_not_ident)

lemma tokenize_slash:
  "i < length sql \<Longrightarrow> sql ! i = CHR ''/'' \<Longrightarrow> \<not> (i + 1 < length sql \<and> sql ! (i + 1) = CHR ''*'') \<Longrightarrow>
   tokenize_from sql i = tokenize_from sql (i + 1)"
  by (subst tokenize_from.simps) (auto simp: Let_def special_not_ident)

lemma tokenize_word:
  assumes "i < length sql" and "isAlpha (sql ! i) \<or> sql ! i = CHR ''_''"
  shows "tokenize_from sql i =
           take (word_end sql i - i) (drop i sql) # tokenize_from sql (word_end sql i)"
proof -
  have "\<not> blankByte (sql ! i)" "sql ! i \<noteq> CHR ''-''" "sql ! i \<noteq> CHR ''/''" "sql ! i \<noteq> CHR 0x27"
    "sql ! i \<noteq> CHR 0x22" "sql ! i \<noteq> CHR 0x60"
    using assms(2) by (auto simp: blankByte_def isAlpha_def in_range_def byte_def)
  with assms show ?thesis
    by (subst tokenize_from.simps) (simp add: Let_def blankByte_def)
qed

lemma tokenize_digit:
  assumes "i < length sql" and "in_range CHR ''0'' CHR ''9'' (sql ! i)"
  shows "tokenize_from sql i = tokenize_from sql (digits_end sql i)"
proof -
  have "\<not> blankByte (sql ! i)" "sql ! i \<noteq> CHR ''-''" "sql ! i \<noteq> CHR ''/''" "sql ! i \<noteq> CHR 0x27"
    "sql ! i \<noteq> CHR 0x22" "sql ! i \<noteq> CHR 0x60" "\<not> isAlpha (sql ! i)" "sql ! i \<noteq> CHR ''_''"
    using assms(2) by (auto simp: blankByte_def isAlpha_def in_range_def byte_def)
  with assms show ?thesis
    by (subst tokenize_from.simps) (simp add: Let_def blankByte_def)
qed

lemma tokenize_other:
  assumes "i < length sql" and "from_code (sql ! i) = Code" and "\<not> in_range CHR ''0'' CHR ''9'' (sql ! i)"
  shows "tokenize_from sql i = tokenize_from sql (i + 1)"
  using assms
  by (subst tokenize_from.simps) (auto simp: Let_def from_code_def split: if_splits)

lemma scan_word:
  assumes "i < length sql" and "isAlpha (sql ! i) \<or> sql ! i = CHR ''_''"
  shows "scan Code (drop i sql) = take (word_end sql i - i) (drop i sql) # scan Code (drop (word_end sql i) sql)"
proof -
  have fc: "from_code (sql ! i) = InWord [sql ! i]"
    using assms(2) by (auto simp: from_code_def isAlpha_def in_range_def byte_def)
  have e: "word_end sql i = word_end sql (i + 1)"
    using assms by (subst word_end.simps) (auto simp: isAlnum_def)
  have "i + 1 \<le> word_end sql (i + 1)" by (rule word_end_ge)
  with assms(1) e show ?thesis
    using scan_InWord [of "[sql ! i]" "i + 1" sql]
    by (simp add: drop_nth [of i] fc Suc_diff_Suc [symmetric] Suc_le_eq)
qed

lemma from_code_cases:
  "c = CHR ''-'' \<or> c = CHR ''/'' \<or> c = CHR 0x27 \<or> c = CHR 0x22 \<or> c = CHR 0x60
   \<or> isAlpha c \<or> c = CHR ''_'' \<or> from_code c = Code"
  by (simp add: from_code_def)

lemma tokenize_from_scan: "tokenize_from sql i = scan Code (drop i sql)"
proof (induction "length sql - i" arbitrary: i rule: less_induct)
  case less
  show ?case
  proof (cases "i < length sql")
    case False
    then show ?thesis by (simp add: tokenize_end)
  next
    case i: True
    let ?c = "sql ! i"
    have IH: "tokenize_from sql k = scan Code (drop k sql)" if "i < k" for k
      using that i by (intro less.hyps) simp
    have step: "scan Code (drop i sql) = scan (from_code ?c) (drop (i + 1) sql)"
      using i by (simp add: drop_nth)
    consider (line) "?c = CHR ''-''" "i + 1 < length sql" "sql ! (i + 1) = CHR ''-''"
      | (dash) "?c = CHR ''-''" "\<not> (i + 1 < length sql \<and> sql ! (i + 1) = CHR ''-'')"
      | (block) "?c = CHR ''/''" "i + 1 < length sql" "sql ! (i + 1) = CHR ''*''"
      | (slash) "?c = CHR ''/''" "\<not> (i + 1 < length sql \<and> sql ! (i + 1) = CHR ''*'')"
      | (sq) "?c = CHR 0x27" | (dq) "?c = CHR 0x22" | (bt) "?c = CHR 0x60"
      | (word) "isAlpha ?c \<or> ?c = CHR ''_''" | (digit) "in_range CHR ''0'' CHR ''9'' ?c"
      | (other) "from_code ?c = Code" "\<not> in_range CHR ''0'' CHR ''9'' ?c"
      using from_code_cases [of ?c] by blast
    then show ?thesis
    proof cases
      case line
      then have "scan Code (drop i sql) = scan LineComment (drop (i + 2) sql)"
        by (simp add: drop_nth [of i] drop_nth [of "Suc i"] from_code_def)
      with line show ?thesis
        by (simp add: tokenize_line scan_LineComment Index_dashes IH add.commute split: option.splits)
    next
      case dash
      with i step IH [of "i + 1"] scan_Dash [of "i + 1" sql] show ?thesis
        by (simp add: tokenize_dash from_code_def)
    next
      case block
      then have "scan Code (drop i sql) = scan BlockComment (drop (i + 2) sql)"
        by (simp add: drop_nth [of i] drop_nth [of "Suc i"] from_code_def)
      with block show ?thesis
        by (simp add: tokenize_block scan_BlockComment IH numeral_eq_Suc add.commute split: option.splits)
    next
      case slash
      with i step IH [of "i + 1"] scan_Slash [of "i + 1" sql] show ?thesis
        by (simp add: tokenize_slash from_code_def)
    next
      case sq
      with i step IH [of "skip_squote sql (i + 1)"] skip_squote_ge [of "i + 1" sql] show ?thesis
        by (simp add: tokenize_squote from_code_def scan_SQuote)
    next
      case dq
      with i step IH [of "close_at sql (dquote_end sql (i + 1))"] dquote_end_ge [of "i + 1" sql]
        close_at_ge [of "dquote_end sql (i + 1)" sql] show ?thesis
        by (simp add: tokenize_dquote from_code_def scan_DQuote)
    next
      case bt
      with i step IH [of "close_at sql (btick_end sql (i + 1))"] btick_end_ge [of "i + 1" sql]
        close_at_ge [of "btick_end sql (i + 1)" sql] show ?thesis
        by (simp add: tokenize_btick from_code_def scan_BTick)
    next
      case word
      with i IH [of "word_end sql i"] word_end_gt [of i sql] show ?thesis
        by (simp add: tokenize_word scan_word)
    next
      case digit
      with i IH [of "digits_end sql i"] digits_end_gt [of i sql] scan_digits [of i sql] show ?thesis
        by (simp add: tokenize_digit)
    next
      case other
      with i step IH [of "i + 1"] show ?thesis by (simp add: tokenize_other)
    qed
  qed
qed

section \<open>Words in code position\<close>

text \<open>
  The modes in which the next letter starts a word: outside comments, quotes and words.
  \<open>code_word sql w\<close>: the text \<open>sql\<close> has the word \<open>w\<close> standing in code, delimited on
  both sides.
\<close>

fun code_position :: "mode \<Rightarrow> bool" where
  "code_position Code = True"
| "code_position Dash = True"
| "code_position Slash = True"
| "code_position SQuoteEnd = True"
| "code_position _ = False"

definition wordStart :: "char \<Rightarrow> bool" where
  "wordStart c \<longleftrightarrow> isAlpha c \<or> c = CHR ''_''"

definition is_word :: "string \<Rightarrow> bool" where
  "is_word w \<longleftrightarrow> (case w of [] \<Rightarrow> False | c # v \<Rightarrow> wordStart c \<and> list_all identByte v)"

definition boundary :: "string \<Rightarrow> bool" where
  "boundary post \<longleftrightarrow> (case post of [] \<Rightarrow> True | c # _ \<Rightarrow> \<not> identByte c)"

definition code_word :: "string \<Rightarrow> string \<Rightarrow> bool" where
  "code_word sql w \<longleftrightarrow>
     (\<exists>pre post. sql = pre @ w @ post \<and> code_position (mode_after Code pre) \<and> is_word w \<and> boundary post)"

lemma wordStart_from_code: "wordStart c \<Longrightarrow> from_code c = InWord [c]"
  by (auto simp: wordStart_def from_code_def isAlpha_def in_range_def byte_def)

lemma wordStart_ident: "wordStart c \<Longrightarrow> identByte c"
  by (auto simp: wordStart_def identByte_def isAlnum_def)

lemma code_position_wordStart:
  "code_position m \<Longrightarrow> wordStart c \<Longrightarrow> delta m c = InWord [c] \<and> emit m c = []"
  by (cases m)
    (auto simp: wordStart_from_code, auto simp: wordStart_def isAlpha_def in_range_def byte_def)

lemma scan_InWord_ident:
  "list_all identByte v \<Longrightarrow> scan (InWord u) (v @ post) = scan (InWord (u @ v)) post"
  by (induction v arbitrary: u) auto

lemma scan_InWord_boundary: "boundary post \<Longrightarrow> u \<in> set (scan (InWord u) post)"
  by (cases post) (auto simp: boundary_def)

lemma scan_complete: "code_word sql w \<Longrightarrow> w \<in> set (scan Code sql)"
proof -
  assume "code_word sql w"
  then obtain pre post c v where d: "sql = pre @ (c # v) @ post" "code_position (mode_after Code pre)"
      "wordStart c" "list_all identByte v" "boundary post" "w = c # v"
    by (auto simp: code_word_def is_word_def split: list.splits)
  then have "scan Code sql = completed Code pre @ scan (InWord (c # v)) post"
    using scan_InWord_ident [of v "[c]" post]
    by (simp add: scan_append code_position_wordStart)
  with d show ?thesis using scan_InWord_boundary [of post "c # v"] by simp
qed

lemma delta_InWord:
  assumes "delta m c = InWord u"
  obtains v where "m = InWord v" "identByte c" "u = v @ [c]"
  | "code_position m" "wordStart c" "u = [c]"
proof -
  have fc: "wordStart c \<and> u = [c]" if "from_code c = InWord u"
    using that by (auto simp: from_code_def wordStart_def split: if_splits)
  from assms that show thesis
    by (cases m) (auto split: if_splits dest: fc wordStart_ident)
qed

lemma emit_elem:
  "w \<in> set (emit m c) \<Longrightarrow> m = InWord w \<and> \<not> identByte c"
  by (cases m) (auto split: if_splits)

lemma scan_sound:
  "w \<in> set (scan m s) \<Longrightarrow>
     (\<exists>pre post. s = pre @ w @ post \<and> code_position (mode_after m pre) \<and> is_word w \<and> boundary post)
     \<or> (\<exists>u v post. m = InWord u \<and> w = u @ v \<and> s = v @ post \<and> list_all identByte v \<and> boundary post)"
proof (induction s arbitrary: m)
  case Nil
  then show ?case by (cases m) (auto simp: boundary_def)
next
  case (Cons c s)
  from Cons.prems consider (now) "w \<in> set (emit m c)" | (later) "w \<in> set (scan (delta m c) s)" by auto
  then show ?case
  proof cases
    case now
    then have "m = InWord w" "boundary (c # s)"
      using emit_elem by (auto simp: boundary_def)
    then show ?thesis by auto
  next
    case later
    from Cons.IH [OF this] show ?thesis
    proof (elim disjE exE conjE)
      fix pre post
      assume "s = pre @ w @ post" "code_position (mode_after (delta m c) pre)" "is_word w" "boundary post"
      then show ?thesis by (intro disjI1 exI [of _ "c # pre"] exI [of _ post]) simp
    next
      fix u v post
      assume d: "delta m c = InWord u" "w = u @ v" "s = v @ post" "list_all identByte v" "boundary post"
      from d(1) show ?thesis
      proof (cases rule: delta_InWord)
        case (1 u')
        with d show ?thesis by auto
      next
        case 2
        with d have "c # s = [] @ w @ post" "code_position (mode_after m [])" "is_word w"
          by (auto simp: is_word_def)
        with d(5) show ?thesis by blast
      qed
    qed
  qed
qed

lemma scan_code_word: "w \<in> set (scan Code sql) \<longleftrightarrow> code_word sql w"
proof
  assume "w \<in> set (scan Code sql)"
  from scan_sound [OF this] show "code_word sql w" by (auto simp: code_word_def)
qed (rule scan_complete)

lemma first_write_keyword_None:
  "first_write_keyword ws = None \<longleftrightarrow> (\<forall>w\<in>set ws. ToUpper w \<notin> set writeKeywords)"
  by (induction ws) (auto simp: Let_def)

section \<open>Properties of IsReadOnlySQL\<close>

text \<open>
  C1. The index-driven lexer of the SQL gate computes exactly the words of the reference
  automaton, on every byte string: comments, string literals with doubled quotes, double quoted
  and backtick identifiers, unterminated regions and digits included.
\<close>

theorem tokenize_refines_automaton: "tokenize sql = scan Code sql"
  by (simp add: tokenize_def tokenize_from_scan)

text \<open>
  C2. The read-only check accepts a text exactly when no delimited word in code position is,
  in any letter case, one of the write keywords. Text in comments and quotes never decides, and
  no arrangement of comments or quotes hides a keyword that stands in code.
\<close>

theorem IsReadOnlySQL_iff:
  "IsReadOnlySQL sql = None \<longleftrightarrow> \<not> (\<exists>w. code_word sql w \<and> ToUpper w \<in> set writeKeywords)"
  by (auto simp: IsReadOnlySQL_def first_write_keyword_None tokenize_def tokenize_from_scan
    scan_code_word)

text \<open>
  A closed block comment in front of a statement does not change the verdict, whatever the
  comment holds.
\<close>

theorem IsReadOnlySQL_comment:
  assumes "\<not> Contains cmt ''*/''"
  shows "IsReadOnlySQL (''/*'' @ cmt @ ''*/'' @ sql) = IsReadOnlySQL sql"
proof -
  have "Index (cmt @ ''*/'' @ s) ''*/'' = Some (length cmt)" if "\<not> sublist ''*/'' cmt" for s
    using that
  proof (induction cmt)
    case (Cons c cmt)
    then show ?case by (cases cmt) (auto simp: sublist_Cons_right prefix_Cons)
  qed simp
  with assms have "scan Code (''/*'' @ cmt @ ''*/'' @ sql) = scan Code sql"
    by (simp add: from_code_def scan_BlockComment Contains_iff)
  then show ?thesis by (simp add: IsReadOnlySQL_def tokenize_def tokenize_from_scan)
qed

theorem IsReadOnlySQL_comment_witness:
  "\<not> Contains ''x'' ''*/'' \<and> IsReadOnlySQL (''/*'' @ ''x'' @ ''*/'' @ ''drop'') = IsReadOnlySQL ''drop''"
proof -
  have "\<not> Contains ''x'' ''*/''" by (simp add: Contains_def)
  with IsReadOnlySQL_comment [OF this, of "''drop''"] show ?thesis by simp
qed

end
