(* ===== verification/Sql_Gate.thy ===== *)
theory Sql_Gate
  imports Sql_Lexer
begin

text \<open>
  What the SQL gate of \<open>internal/sqlrun\<close> promises to its callers: the classifier and the
  read-only check agree, the role table is monotone and is the same check as
  \<open>rbac.MinRole\<close>, and the system table check returns a table that really is mentioned,
  with a verdict that does not depend on the iteration order of the Go map.
\<close>

section \<open>Bytes that carry no word\<close>

definition space_byte :: "char \<Rightarrow> bool" where
  "space_byte c \<longleftrightarrow> c \<in> set (concat space_seqs)"

lemma space_byte_neutral: "space_byte c \<Longrightarrow> from_code c = Code \<and> \<not> identByte c \<and> ascii_up c = c"
proof -
  have "list_all (\<lambda>c. from_code c = Code \<and> \<not> identByte c \<and> ascii_up c = c) (concat space_seqs)"
    by code_simp
  then show "space_byte c \<Longrightarrow> ?thesis" by (auto simp: space_byte_def list_all_iff)
qed

lemma paren_neutral: "from_code CHR ''('' = Code \<and> \<not> identByte CHR ''(''"
  by code_simp

lemma mode_after_neutral: "list_all (\<lambda>c. from_code c = Code) a \<Longrightarrow> mode_after Code a = Code"
  by (induction a) auto

lemma strip_seqs_split: "\<exists>a. s = a @ strip_seqs ws s \<and> set a \<subseteq> set (concat ws)"
proof (induction ws s rule: strip_seqs.induct)
  case (1 ws s)
  show ?case
  proof (cases "List.find (\<lambda>w. w \<noteq> [] \<and> prefix w s) ws")
    case None
    then show ?thesis by (simp add: strip_seqs.simps [of ws s])
  next
    case (Some w)
    then have w: "w \<in> set ws" "prefix w s" by (auto simp: find_Some_iff)
    from "1.IH" [OF Some] obtain a where
      a: "drop (length w) s = a @ strip_seqs ws (drop (length w) s)" "set a \<subseteq> set (concat ws)"
      by blast
    have eq: "strip_seqs ws s = strip_seqs ws (drop (length w) s)"
      using Some by (simp add: strip_seqs.simps [of ws s])
    have "s = (w @ a) @ strip_seqs ws s"
      using prefix_drop_length [OF w(2)] a(1) unfolding eq by simp
    with w(1) a(2) show ?thesis by (intro exI [of _ "w @ a"]) auto
  qed
qed

lemma TrimSpace_split: "\<exists>a b. s = a @ TrimSpace s @ b \<and> list_all space_byte a \<and> list_all space_byte b"
proof -
  let ?l = "strip_seqs space_seqs s"
  obtain a where a: "s = a @ ?l" "set a \<subseteq> set (concat space_seqs)"
    using strip_seqs_split by blast
  obtain b where b: "rev ?l = b @ strip_seqs (map rev space_seqs) (rev ?l)"
      "set b \<subseteq> set (concat (map rev space_seqs))"
    using strip_seqs_split by blast
  have "?l = TrimSpace s @ rev b"
    using arg_cong [OF b(1), of rev] by (simp add: TrimSpace_def TrimRightSpace_def TrimLeftSpace_def)
  with a b(2) show ?thesis
    by (intro exI [of _ a] exI [of _ "rev b"]) (auto simp: list_all_iff space_byte_def)
qed

definition lead_byte :: "char \<Rightarrow> bool" where
  "lead_byte c \<longleftrightarrow> space_byte c \<or> c = CHR ''(''"

lemma stripParens_split:
  "\<exists>a b. s = a @ stripParens s @ b \<and> list_all lead_byte a \<and> list_all space_byte b"
proof (induction s rule: stripParens.induct)
  case (1 s)
  show ?case
  proof (cases "HasPrefix s ''(''")
    case False
    then show ?thesis by (intro exI [of _ "[]"]) (simp add: stripParens.simps [of s])
  next
    case True
    then have s: "s = CHR ''('' # drop 1 s" by (auto simp: HasPrefix_def prefix_def)
    obtain a b where t: "drop 1 s = a @ TrimSpace (drop 1 s) @ b" "list_all space_byte a" "list_all space_byte b"
      using TrimSpace_split by blast
    from "1.IH" [OF True] obtain a' b' where
      u: "TrimSpace (drop 1 s) = a' @ stripParens (TrimSpace (drop 1 s)) @ b'"
         "list_all lead_byte a'" "list_all space_byte b'" by blast
    have eq: "stripParens s = stripParens (TrimSpace (drop 1 s))"
      using True by (simp add: stripParens.simps [of s])
    have "s = (CHR ''('' # a @ a') @ stripParens s @ (b' @ b)"
      unfolding eq append_Cons append_assoc u(1) [symmetric] using s t(1)
      by (metis append_assoc u(1))
    with t(2,3) u(2,3) show ?thesis
      by (intro exI [of _ "CHR ''('' # a @ a'"] exI [of _ "b' @ b"])
        (auto simp: lead_byte_def list_all_iff)
  qed
qed

section \<open>Classifier and read-only check\<close>

lemma ascii_up_isAlpha: "isAlpha (ascii_up c) \<longleftrightarrow> isAlpha c"
  by (auto simp: isAlpha_def ascii_up_def in_range_def byte_def)

lemma ascii_up_non_letter: "\<not> isAlpha (ascii_up c) \<Longrightarrow> ascii_up c = c"
  by (auto simp: ascii_up_isAlpha) (auto simp: isAlpha_def ascii_up_def)

lemma isAlpha_not_lead: "lead_byte c \<Longrightarrow> \<not> isAlpha c"
  using space_byte_neutral [of c] paren_neutral
  by (auto simp: lead_byte_def identByte_def isAlnum_def)

lemma ascii_up_lead: "lead_byte (ascii_up c) \<Longrightarrow> ascii_up c = c"
  by (blast dest: isAlpha_not_lead ascii_up_non_letter)

lemma map_ascii_up_lead: "map ascii_up a' = a \<Longrightarrow> list_all lead_byte a \<Longrightarrow> a' = a"
  by (induction a' arbitrary: a) (auto intro: ascii_up_lead [symmetric])

lemma writeKeywords_alpha: "kw \<in> set writeKeywords \<Longrightarrow> kw \<noteq> [] \<and> list_all isAlpha kw"
proof -
  have "list_all (\<lambda>kw. kw \<noteq> [] \<and> list_all isAlpha kw) writeKeywords" by code_simp
  then show "kw \<in> set writeKeywords \<Longrightarrow> ?thesis" by (auto simp: list_all_iff)
qed

lemma is_ascii_append [simp]: "is_ascii (a @ b) \<longleftrightarrow> is_ascii a \<and> is_ascii b"
  by (simp add: is_ascii_def)

lemma alpha_is_word: "w \<noteq> [] \<Longrightarrow> list_all isAlpha w \<Longrightarrow> is_word w"
  by (cases w) (auto simp: is_word_def wordStart_def identByte_def isAlnum_def list_all_iff)

lemma hasPrefixWord_split:
  assumes "hasPrefixWord s kw"
  obtains rest where "s = kw @ rest" "rest = [] \<or> space_byte (hd rest)"
proof -
  from assms have "prefix kw s"
    by (auto simp: hasPrefixWord_def HasPrefix_def split: if_splits)
  then obtain rest where s: "s = kw @ rest" by (auto simp: prefix_def)
  moreover have "rest = [] \<or> space_byte (hd rest)"
    using assms unfolding s
    by (auto simp: hasPrefixWord_def space_byte_def space_seqs_def split: list.splits if_splits)
  ultimately show thesis by (rule that)
qed

lemma hasPrefixWord_keyword:
  assumes ascii: "is_ascii sql" and kw: "kw \<in> set writeKeywords"
    and pre: "hasPrefixWord (stripParens (ToUpper (TrimSpace sql))) kw"
  shows "\<exists>w. code_word sql w \<and> ToUpper w \<in> set writeKeywords"
proof -
  obtain a0 b0 where s0: "sql = a0 @ TrimSpace sql @ b0" "list_all space_byte a0" "list_all space_byte b0"
    using TrimSpace_split by blast
  let ?t = "TrimSpace sql"
  have at: "is_ascii ?t" using ascii s0(1) is_ascii_append by metis
  obtain a b where s1: "map ascii_up ?t = a @ stripParens (ToUpper ?t) @ b"
      "list_all lead_byte a" "list_all space_byte b"
    using stripParens_split [of "ToUpper ?t"] at by (auto simp: ToUpper_def)
  obtain rest where r: "stripParens (ToUpper ?t) = kw @ rest" "rest = [] \<or> space_byte (hd rest)"
    using pre by (rule hasPrefixWord_split)
  have "map ascii_up ?t = a @ kw @ rest @ b" using s1(1) r(1) by simp
  then obtain a' w rest' b' where t: "?t = a' @ w @ rest' @ b'" "map ascii_up a' = a"
      "map ascii_up w = kw" "map ascii_up rest' = rest" "map ascii_up b' = b"
    by (auto simp: map_eq_append_conv append_eq_map_conv)
  have w: "w \<noteq> []" "list_all isAlpha w"
    using writeKeywords_alpha [OF kw] t(3) by (auto simp: list_all_iff ascii_up_isAlpha)
  have aa: "a' = a" using map_ascii_up_lead [OF t(2) s1(2)] .
  have bb: "b' = b" using map_ascii_up_lead [OF t(5)] s1(3) by (auto simp: lead_byte_def list_all_iff)
  have "is_ascii w" using at t(1) by simp
  then have up: "ToUpper w = kw" using t(3) by (simp add: ToUpper_def)
  have bd: "boundary (rest' @ b' @ b0)"
  proof (cases rest')
    case (Cons c cs)
    then have "space_byte (ascii_up c)" using r(2) t(4) by auto
    then have "\<not> identByte (ascii_up c)" "\<not> isAlpha (ascii_up c)"
      using space_byte_neutral by (auto simp: identByte_def isAlnum_def)
    then show ?thesis using Cons ascii_up_non_letter [of c] by (simp add: boundary_def)
  next
    case Nil
    have "list_all space_byte (b' @ b0)" using bb s1(3) s0(3) by simp
    then show ?thesis using Nil space_byte_neutral
      by (cases "b' @ b0") (auto simp: boundary_def)
  qed
  have "list_all (\<lambda>c. from_code c = Code) (a0 @ a')"
    using s0(2) s1(2) aa space_byte_neutral paren_neutral by (auto simp: list_all_iff lead_byte_def)
  then have "code_position (mode_after Code (a0 @ a'))" by (simp add: mode_after_neutral)
  moreover have "sql = (a0 @ a') @ w @ (rest' @ b' @ b0)"
    using s0(1) t(1) by (metis append.assoc)
  ultimately have "code_word sql w"
    using bd alpha_is_word [OF w] unfolding code_word_def by blast
  with up kw show ?thesis by auto
qed

lemma hasPrefixWord_longer:
  "hasPrefixWord s (kw @ '' '' @ kw2) \<Longrightarrow> hasPrefixWord s kw"
  by (auto simp: hasPrefixWord_def HasPrefix_def prefix_def split: if_splits)

lemma ClassifySQL_keyword:
  assumes "ClassifySQL sql \<notin> {SQLTypeSelect, SQLTypeUnknown}"
  shows "\<exists>kw\<in>set writeKeywords. hasPrefixWord (stripParens (ToUpper (TrimSpace sql))) kw"
  using assms
    hasPrefixWord_longer [of "stripParens (ToUpper (TrimSpace sql))" "''CREATE''" "''TABLE''"]
    hasPrefixWord_longer [of "stripParens (ToUpper (TrimSpace sql))" "''CREATE''" "''DATABASE''"]
  by (auto simp: ClassifySQL_def Let_def writeKeywords_def split: if_splits)

text \<open>
  On ASCII text the two filters agree: whatever the classifier calls a write (INSERT,
  UPDATE, DELETE, TRUNCATE, CREATE, DROP, ALTER) is refused by the read-only check.
\<close>

theorem classified_write_not_read_only:
  assumes "is_ascii sql" and "ClassifySQL sql \<notin> {SQLTypeSelect, SQLTypeUnknown}"
  shows "IsReadOnlySQL sql \<noteq> None"
proof -
  from ClassifySQL_keyword [OF assms(2)] obtain kw where
    "kw \<in> set writeKeywords" "hasPrefixWord (stripParens (ToUpper (TrimSpace sql))) kw" by blast
  with assms(1) have "\<exists>w. code_word sql w \<and> ToUpper w \<in> set writeKeywords"
    by (rule hasPrefixWord_keyword)
  then show ?thesis
    by (auto simp: IsReadOnlySQL_def first_write_keyword_None tokenize_def tokenize_from_scan scan_code_word)
qed

lemma classify_example: "is_ascii '' ( drop table t'' \<and> ClassifySQL '' ( drop table t'' = SQLTypeDrop"
  by (simp add: go_str classify_eval)

theorem classified_write_not_read_only_witness:
  "is_ascii '' ( drop table t'' \<and> ClassifySQL '' ( drop table t'' = SQLTypeDrop
   \<and> IsReadOnlySQL '' ( drop table t'' \<noteq> None"
  using classified_write_not_read_only [of "'' ( drop table t''"] classify_example by simp

section \<open>Roles\<close>

text \<open>
  C36. The permission table is the same check as \<open>rbac.MinRole\<close>: a role may run a statement
  type exactly when \<open>MinRole\<close> of the type's minimum role accepts it. So the permission is
  monotone in the role level, and a role string outside the four known ones may run nothing.
\<close>

theorem IsAllowedForRole_MinRole:
  "IsAllowedForRole t role = None \<longleftrightarrow> (\<exists>m. minRoleForSQLType t = Some m \<and> MinRole m role)"
  by (cases t) (auto simp: IsAllowedForRole_def MinRole_level)

lemma IsAllowedForRole_level:
  "IsAllowedForRole t role = None \<longleftrightarrow> role_level (the (minRoleForSQLType t)) \<le> role_level role"
  by (cases t) (auto simp: IsAllowedForRole_def)

lemma unknown_role_denied: "RoleOrder role = None \<Longrightarrow> IsAllowedForRole t role \<noteq> None"
  by (cases t) (auto simp: IsAllowedForRole_level role_level_def)

section \<open>System tables\<close>

definition delimited_in :: "string \<Rightarrow> string \<Rightarrow> bool" where
  "delimited_in name text \<longleftrightarrow>
     (\<exists>pre post. text = pre @ name @ post
        \<and> (pre = [] \<or> \<not> isIdentChar (last pre)) \<and> (post = [] \<or> \<not> isIdentChar (hd post)))"

lemma mentions_table_delimited:
  assumes "mentions_table upper tbl"
  shows "delimited_in (ToUpper tbl) upper"
proof -
  from assms obtain i where i: "Index upper (ToUpper tbl) = Some i"
      "i = 0 \<or> \<not> isIdentChar (upper ! (i - 1))"
      "length upper \<le> i + length (ToUpper tbl) \<or> \<not> isIdentChar (upper ! (i + length (ToUpper tbl)))"
    by (auto simp: mentions_table_def Let_def split: option.splits)
  let ?n = "length (ToUpper tbl)"
  have sp: "upper = take i upper @ ToUpper tbl @ drop (i + ?n) upper"
    by (rule Index_Some_split [OF i(1)])
  have le: "i + ?n \<le> length upper" using Index_SomeD [OF i(1)] by simp
  have "take i upper = [] \<or> \<not> isIdentChar (last (take i upper))"
  proof (cases "i = 0")
    case False
    then have "min (length upper) i = i" "take i upper \<noteq> []" using le by auto
    then have "last (take i upper) = upper ! (i - 1)" using False by (subst last_conv_nth) auto
    with False i(2) show ?thesis by simp
  qed simp
  moreover have "drop (i + ?n) upper = [] \<or> \<not> isIdentChar (hd (drop (i + ?n) upper))"
    using i(3) by (auto simp: hd_drop_conv_nth)
  ultimately show ?thesis using sp unfolding delimited_in_def by blast
qed

text \<open>
  The system table check is sound and its verdict does not depend on the order in which Go
  walks the map: a reported name is a system table that occurs in the upper-cased text as a whole
  identifier, and any two iteration orders agree on whether something is reported.
\<close>

theorem CheckSystemTableInSQL_sound:
  assumes "set order = set systemTables"
  shows "(CheckSystemTableInSQL order sql \<noteq> None \<longleftrightarrow> CheckSystemTableInSQL systemTables sql \<noteq> None)
    \<and> (\<forall>tbl. CheckSystemTableInSQL order sql = Some tbl \<longrightarrow>
          IsSystemTable tbl \<and> delimited_in (ToUpper tbl) (ToUpper sql))"
  using assms
  by (auto simp: CheckSystemTableInSQL_def IsSystemTable_def find_None_iff find_Some_iff
      dest: mentions_table_delimited nth_mem)

theorem CheckSystemTableInSQL_sound_witness:
  "set (rev systemTables) = set systemTables
   \<and> (CheckSystemTableInSQL (rev systemTables) ''delete from users'' \<noteq> None
      \<longleftrightarrow> CheckSystemTableInSQL systemTables ''delete from users'' \<noteq> None)"
  using CheckSystemTableInSQL_sound [of "rev systemTables" "''delete from users''"] by simp

text \<open>
  The check looks at the first occurrence of each name only: a longer identifier in front hides
  the table itself.
\<close>

lemma system_table_check_misses_second_occurrence:
  "CheckSystemTableInSQL systemTables ''update users_v2, users set role = 1'' = None
   \<and> delimited_in (ToUpper ''users'') (ToUpper ''update users_v2, users set role = 1'')"
proof
  show "CheckSystemTableInSQL systemTables ''update users_v2, users set role = 1'' = None"
    by (simp add: go_str system_table_eval)
  have "ToUpper ''update users_v2, users set role = 1''
        = ''UPDATE USERS_V2, '' @ ToUpper ''users'' @ '' SET ROLE = 1''" by (simp add: go_str)
  moreover have "\<not> isIdentChar (last ''UPDATE USERS_V2, '')" "\<not> isIdentChar (hd '' SET ROLE = 1'')"
    by (simp_all add: go_str isIdentChar_def)
  ultimately show "delimited_in (ToUpper ''users'') (ToUpper ''update users_v2, users set role = 1'')"
    unfolding delimited_in_def by blast
qed

section \<open>run.go\<close>

lemma QueryRows_calls:
  "(calls, r) = QueryRows p sql n \<Longrightarrow>
     calls = [] \<and> IsReadOnlySQL (trim_stmt sql) \<noteq> None
     \<or> calls = [Query (wrap_limit (trim_stmt sql) n)] \<and> IsReadOnlySQL (trim_stmt sql) = None"
  by (auto simp: QueryRows_def Let_def split: option.splits)

lemma ExecuteWrite_calls [simp]: "fst (ExecuteWrite p sql) = [Exec (trim_stmt sql)]"
  by (simp add: ExecuteWrite_def Let_def)

lemma scan_rows_length: "scan_rows cols rs = Inr out \<Longrightarrow> length out = length rs"
  by (induction cols rs arbitrary: out rule: scan_rows.induct) (auto split: sum.splits)

end
