(* ===== verification/Sql_File.thy ===== *)
theory Sql_File
  imports Sql_Gate
begin

text \<open>
  The SQL import and the checks of the SQL terminal in \<open>internal/handlers/data.go\<close>:
  splitting a file into statements, validating each of them and running the valid ones one by one.
  The pool answers each call on its own: \<open>pool_at k\<close> is the pool at its \<open>k\<close>-th call.
\<close>

section \<open>Splitting a file\<close>

text \<open>\<open>s[start+2:]\<close> is \<open>drop (start + 2) s\<close>; the loop ends because the text shrinks.\<close>

function removeBlockComments :: "string \<Rightarrow> string" where
  "removeBlockComments s =
     (case Index s ''/*'' of
        None \<Rightarrow> s
      | Some start \<Rightarrow>
          (case Index (drop (start + 2) s) ''*/'' of
             None \<Rightarrow> take start s
           | Some e \<Rightarrow> removeBlockComments (take start s @ drop (start + e + 4) s)))"
  by pat_completeness auto
termination
  by (relation "measure length") (auto dest: Index_SomeD)

declare removeBlockComments.simps [simp del]

definition cut_line_comment :: "string \<Rightarrow> string" where
  "cut_line_comment line = (case Index line ''--'' of Some idx \<Rightarrow> take idx line | None \<Rightarrow> line)"

definition nonblank :: "string list \<Rightarrow> string list" where
  "nonblank xs = filter (\<lambda>x. x \<noteq> []) (map TrimSpace xs)"

definition parseSQL :: "string \<Rightarrow> string list" where
  "parseSQL content =
     (let cleaned = removeBlockComments content;
          ls = nonblank (map cut_line_comment (Split cleaned newline));
          joined = Join ls '' ''
      in nonblank (Split joined CHR '';''))"

section \<open>Validating and running\<close>

definition validateSQLStatement :: "string \<Rightarrow> err" where
  "validateSQLStatement stmt =
     (let st = ClassifySQL stmt in
      case st of
        SQLTypeSelect \<Rightarrow> Some ''SELECT is not allowed in SQL files''
      | SQLTypeDrop \<Rightarrow> Some (''dangerous statement not allowed: '' @ sqltype_str st)
      | SQLTypeAlter \<Rightarrow> Some (''dangerous statement not allowed: '' @ sqltype_str st)
      | SQLTypeTruncate \<Rightarrow> Some (''dangerous statement not allowed: '' @ sqltype_str st)
      | SQLTypeDelete \<Rightarrow> Some (''dangerous statement not allowed: '' @ sqltype_str st)
      | SQLTypeInsert \<Rightarrow> None
      | SQLTypeUpdate \<Rightarrow> None
      | _ \<Rightarrow> Some (''unsupported statement type: '' @ sqltype_str st))"

record sqlFileResult =
  sf_ok :: bool
  sf_rows :: int
  sf_total :: nat
  sf_succeeded :: nat
  sf_failed :: nat
  sf_errors :: "string list"

definition stmt_error :: "nat \<Rightarrow> string \<Rightarrow> string" where
  "stmt_error i m = ''statement '' @ nat_dec (i + 1) @ '': '' @ m"

text \<open>The loop at statement \<open>i\<close>, after \<open>k\<close> calls of the pool.\<close>

fun sql_file_loop :: "(nat \<Rightarrow> pool) \<Rightarrow> nat \<Rightarrow> nat \<Rightarrow> string list \<Rightarrow> sqlFileResult \<Rightarrow> dbcall list \<times> sqlFileResult" where
  "sql_file_loop pool_at i k [] res = ([], res)"
| "sql_file_loop pool_at i k (stmt # stmts) res =
     (case validateSQLStatement stmt of
        Some m \<Rightarrow> sql_file_loop pool_at (Suc i) k stmts
                    (res\<lparr>sf_failed := sf_failed res + 1, sf_errors := sf_errors res @ [stmt_error i m]\<rparr>)
      | None \<Rightarrow>
          (case ExecuteWrite (pool_at k) stmt of
             (calls, Inl m) \<Rightarrow>
               (case sql_file_loop pool_at (Suc i) (k + length calls) stmts
                       (res\<lparr>sf_failed := sf_failed res + 1, sf_errors := sf_errors res @ [stmt_error i m]\<rparr>) of
                  (later, r) \<Rightarrow> (calls @ later, r))
           | (calls, Inr affected) \<Rightarrow>
               (case sql_file_loop pool_at (Suc i) (k + length calls) stmts
                       (res\<lparr>sf_rows := sf_rows res + affected, sf_succeeded := sf_succeeded res + 1\<rparr>) of
                  (later, r) \<Rightarrow> (calls @ later, r))))"

definition executeSQLFile :: "(nat \<Rightarrow> pool) \<Rightarrow> string \<Rightarrow> dbcall list \<times> sqlFileResult" where
  "executeSQLFile pool_at fileData =
     (let statements = parseSQL fileData in
      case sql_file_loop pool_at 0 0 statements
             \<lparr>sf_ok = False, sf_rows = 0, sf_total = length statements, sf_succeeded = 0, sf_failed = 0, sf_errors = []\<rparr> of
        (calls, r) \<Rightarrow> (calls, r\<lparr>sf_ok := sf_failed r = 0\<rparr>))"

definition terminalKeywordWhitelist :: "string list" where
  "terminalKeywordWhitelist = [''SELECT'', ''INSERT'', ''UPDATE'']"

definition validateSQLTerminal :: "string \<Rightarrow> SQLType \<times> err" where
  "validateSQLTerminal sql =
     (let st = ClassifySQL sql in
      if sqltype_str st \<notin> set terminalKeywordWhitelist
      then (st, Some (''only SELECT/INSERT/UPDATE are allowed, got: '' @ sqltype_str st @ ''. DROP/ALTER/TRUNCATE/DELETE are not permitted''))
      else if st = SQLTypeUpdate \<and> \<not> Contains (ToUpper sql) ''WHERE''
      then (st, Some ''UPDATE must include a WHERE clause for safety'')
      else (st, None))"

section \<open>Substrings\<close>

lemma sublist_trans3: "sublist x y \<Longrightarrow> sublist y z \<Longrightarrow> sublist x z"
  by (rule sublist_order.order_trans)

lemma sublist_TrimSpace: "sublist (TrimSpace s) s"
proof -
  have "prefix (TrimSpace s) (TrimLeftSpace s)" by (simp add: TrimSpace_def TrimRightSpace_prefix)
  moreover have "suffix (TrimLeftSpace s) s" by (simp add: TrimLeftSpace_def strip_seqs_suffix)
  ultimately show ?thesis by (meson prefix_imp_sublist suffix_imp_sublist sublist_trans3)
qed

lemma sublist_Split: "w \<in> set (Split s sep) \<Longrightarrow> sublist w s"
proof -
  have "prefix (hd (Split s sep)) s \<and> (\<forall>w \<in> set (Split s sep). sublist w s)"
  proof (induction s)
    case (Cons c s)
    then show ?case
      by (cases "Split s sep") (auto simp: sublist_Cons_right)
  qed simp
  then show "w \<in> set (Split s sep) \<Longrightarrow> sublist w s" by blast
qed

lemma sublist_sep:
  assumes "sep \<notin> set p" and "sublist p (a @ sep # b)"
  shows "sublist p a \<or> sublist p b"
proof -
  from assms(2) consider "sublist p a" | "sublist p (sep # b)"
    | xs1 xs2 where "p = xs1 @ xs2" "suffix xs1 a" "prefix xs2 (sep # b)"
    by (auto simp: sublist_append)
  then show ?thesis
  proof cases
    case 2
    then show ?thesis using assms(1) by (auto simp: sublist_Cons_right prefix_Cons)
  next
    case (3 xs1 xs2)
    then have "xs2 = []" using assms(1) by (auto simp: prefix_Cons)
    with 3 show ?thesis by (simp add: suffix_imp_sublist)
  qed simp
qed

lemma sublist_Join:
  assumes "sep \<notin> set p" and "p \<noteq> []" and "sublist p (Join xs [sep])"
  shows "\<exists>x \<in> set xs. sublist p x"
  using assms(3)
proof (induction xs "[sep]" rule: Join.induct)
  case 1
  then show ?case using assms(2) by simp
next
  case (3 x y ys)
  then show ?case using sublist_sep [OF assms(1), of x] by fastforce
qed simp

lemma Index_take_clean: "Index s sub = Some i \<Longrightarrow> sub \<noteq> [] \<Longrightarrow> \<not> sublist sub (take i s)"
proof
  assume a: "Index s sub = Some i" "sub \<noteq> []" "sublist sub (take i s)"
  then obtain us vs where t: "take i s = us @ sub @ vs" by (auto simp: sublist_def)
  then have "length (us @ sub @ vs) \<le> i" by (metis length_take min.cobounded2)
  with a(2) have lt: "length us < i" by (cases sub) auto
  have "s = us @ sub @ vs @ drop i s" using t by (metis append.assoc append_take_drop_id)
  then have "prefix sub (drop (length us) s)" by (metis append_eq_conv_conj prefixI)
  with Index_SomeD [OF a(1)] lt show False by blast
qed

section \<open>What a file is split into\<close>

lemma removeBlockComments_clean: "\<not> sublist ''/*'' (removeBlockComments s)"
proof (induction s rule: removeBlockComments.induct)
  case (1 s)
  then show ?case
    by (subst removeBlockComments.simps) (auto split: option.splits simp: Index_None_iff dest: Index_take_clean)
qed

lemma cut_line_comment_clean: "\<not> sublist ''--'' (cut_line_comment line)" "sublist (cut_line_comment line) line"
  by (auto simp: cut_line_comment_def Index_None_iff split: option.splits dest: Index_take_clean)

lemma nonblank_props: "x \<in> set (nonblank xs) \<Longrightarrow> x \<noteq> [] \<and> TrimSpace x = x \<and> (\<exists>y \<in> set xs. x = TrimSpace y \<and> sublist x y)"
  by (auto simp: nonblank_def sublist_TrimSpace)

text \<open>A statement is a trimmed, nonempty text without separators and comment marks.\<close>

definition clean_statement :: "string \<Rightarrow> bool" where
  "clean_statement stmt \<longleftrightarrow> stmt \<noteq> [] \<and> TrimSpace stmt = stmt \<and> CHR '';'' \<notin> set stmt \<and> newline \<notin> set stmt
     \<and> \<not> Contains stmt ''--'' \<and> \<not> Contains stmt ''/*''"

lemma parseSQL_lines_clean:
  assumes "l \<in> set (nonblank (map cut_line_comment (Split (removeBlockComments s) newline)))"
  shows "\<not> sublist ''--'' l \<and> \<not> sublist ''/*'' l \<and> newline \<notin> set l"
proof -
  from nonblank_props [OF assms] obtain y where y: "y \<in> set (Split (removeBlockComments s) newline)"
      and l: "sublist l (cut_line_comment y)" by auto
  from l cut_line_comment_clean have ly: "sublist l y" "\<not> sublist ''--'' l"
    by (meson sublist_trans3)+
  moreover have "newline \<notin> set l" using Split_no_sep [OF y] set_mono_sublist [OF ly(1)] by auto
  moreover have "\<not> sublist ''/*'' l"
    using sublist_Split [OF y] ly(1) removeBlockComments_clean by (meson sublist_trans3)
  ultimately show ?thesis by simp
qed

lemma parseSQL_clean: "list_all clean_statement (parseSQL content)"
proof -
  let ?ls = "nonblank (map cut_line_comment (Split (removeBlockComments content) newline))"
  have "clean_statement st" if "st \<in> set (parseSQL content)" for st
  proof -
    from that have mem: "st \<in> set (nonblank (Split (Join ?ls '' '') CHR '';''))" by (simp add: parseSQL_def Let_def)
    from nonblank_props [OF mem] obtain w where w: "w \<in> set (Split (Join ?ls '' '') CHR '';'')" and st: "st \<noteq> []" "TrimSpace st = st" "sublist st w"
      by auto
    have sub: "sublist st (Join ?ls '' '')" using sublist_Split [OF w] st(3) by (meson sublist_trans3)
    have no: "\<not> sublist p st" if "CHR '' '' \<notin> set p" "p \<noteq> []" "\<And>l. l \<in> set ?ls \<Longrightarrow> \<not> sublist p l" for p
      using sublist_Join [OF that(1,2)] sub that(3) by (meson sublist_trans3)
    have "CHR '';'' \<notin> set st" using Split_no_sep [OF w] set_mono_sublist [OF st(3)] by auto
    moreover have "\<not> sublist [newline] st"
      by (rule no) (auto dest!: parseSQL_lines_clean simp: sublist_def)
    moreover have "\<not> sublist ''--'' st" "\<not> sublist ''/*'' st"
      by (rule no; simp add: parseSQL_lines_clean)+
    ultimately show ?thesis using st(1,2) by (auto simp: clean_statement_def Contains_iff sublist_def in_set_conv_decomp)
  qed
  then show ?thesis by (simp add: list_all_iff)
qed

section \<open>What is executed\<close>

lemma validateSQLStatement_None: "validateSQLStatement stmt = None \<longleftrightarrow> ClassifySQL stmt = SQLTypeInsert \<or> ClassifySQL stmt = SQLTypeUpdate"
  by (auto simp: validateSQLStatement_def Let_def split: SQLType.splits)

lemma sqltype_whitelist: "sqltype_str st \<in> set terminalKeywordWhitelist \<longleftrightarrow> st \<in> {SQLTypeSelect, SQLTypeInsert, SQLTypeUpdate}"
  by (cases st) (simp_all add: terminalKeywordWhitelist_def)

lemma validateSQLTerminal_None:
  "validateSQLTerminal sql = (st, None) \<longleftrightarrow>
     st = ClassifySQL sql \<and> st \<in> {SQLTypeSelect, SQLTypeInsert, SQLTypeUpdate}
     \<and> (st = SQLTypeUpdate \<longrightarrow> Contains (ToUpper sql) ''WHERE'')"
  by (auto simp: validateSQLTerminal_def Let_def sqltype_whitelist)

lemma trim_clean: "clean_statement st \<Longrightarrow> trim_stmt st = st"
  by (auto simp: clean_statement_def trim_stmt_def TrimSuffix_def suffix_def)

text \<open>The outcomes of a list of writes, each on the pool of its call.\<close>

definition write_outcomes :: "(nat \<Rightarrow> pool) \<Rightarrow> string list \<Rightarrow> int res list" where
  "write_outcomes pool_at stmts = map (\<lambda>(k, st). pool_exec (pool_at k) st) (enumerate 0 stmts)"

abbreviation importable :: "string \<Rightarrow> bool" where
  "importable st \<equiv> ClassifySQL st = SQLTypeInsert \<or> ClassifySQL st = SQLTypeUpdate"

definition accounted :: "int res list \<Rightarrow> nat \<Rightarrow> sqlFileResult \<Rightarrow> sqlFileResult \<Rightarrow> bool" where
  "accounted outs rejected res r \<longleftrightarrow>
     sf_total r = sf_total res
     \<and> sf_succeeded r = sf_succeeded res + length (filter (\<lambda>x. \<not> isl x) outs)
     \<and> sf_failed r = sf_failed res + rejected + length (filter isl outs)
     \<and> length (sf_errors r) = length (sf_errors res) + rejected + length (filter isl outs)
     \<and> sf_rows r = sf_rows res + sum_list (map projr (filter (\<lambda>x. \<not> isl x) outs))"

lemma sql_file_loop_account:
  assumes "sql_file_loop pool_at i k stmts res = (calls, r)" and "list_all clean_statement stmts"
  shows "calls = map Exec (filter importable stmts)
     \<and> accounted (map (\<lambda>(j, st). pool_exec (pool_at j) st) (enumerate k (filter importable stmts)))
         (length (filter (\<lambda>st. \<not> importable st) stmts)) res r"
  using assms
proof (induction pool_at i k stmts res arbitrary: calls r rule: sql_file_loop.induct)
  case (1 pool_at i k res)
  then show ?case by (simp add: accounted_def)
next
  case (2 pool_at i k stmt stmts res)
  show ?case
  proof (cases "validateSQLStatement stmt")
    case (Some m)
    then have rej: "\<not> importable stmt" using validateSQLStatement_None [of stmt] by auto
    with 2(3) [OF Some] 2(4,5) Some show ?thesis by (simp add: accounted_def)
  next
    case None
    then have imp: "importable stmt" by (simp add: validateSQLStatement_None)
    have ex: "ExecuteWrite (pool_at k) stmt = ([Exec stmt], pool_exec (pool_at k) stmt)"
      using 2(5) by (simp add: ExecuteWrite_def trim_clean)
    have cl: "list_all clean_statement stmts" using 2(5) by simp
    show ?thesis
    proof (cases "pool_exec (pool_at k) stmt")
      case (Inl m)
      then obtain later where l: "sql_file_loop pool_at (Suc i) (k + length [Exec stmt]) stmts
            (res\<lparr>sf_failed := sf_failed res + 1, sf_errors := sf_errors res @ [stmt_error i m]\<rparr>) = (later, r)" "calls = Exec stmt # later"
        using 2(4) None ex by (auto split: prod.splits)
      show ?thesis using 2(1) [OF None ex [symmetric] Inl l(1) cl] imp l(2) Inl by (simp add: accounted_def)
    next
      case (Inr n)
      then obtain later where l: "sql_file_loop pool_at (Suc i) (k + length [Exec stmt]) stmts
            (res\<lparr>sf_rows := sf_rows res + n, sf_succeeded := sf_succeeded res + 1\<rparr>) = (later, r)" "calls = Exec stmt # later"
        using 2(4) None ex by (auto split: prod.splits)
      show ?thesis using 2(2) [OF None ex [symmetric] Inr l(1) cl] imp l(2) Inr by (simp add: accounted_def)
    qed
  qed
qed

text \<open>
  Importing a \<open>.sql\<close> file runs, in order and once each, exactly the statements of the file
  that are an \<open>INSERT\<close> or an \<open>UPDATE\<close>; a statement reaches the database without separator,
  line break or comment mark. A failing statement does not stop the others, and the report adds up:
  succeeded plus failed is the number of statements, every failure has its error line, the row
  count is the sum over the successful statements, and \<open>ok\<close> means that nothing failed.
\<close>

theorem executeSQLFile_account:
  "let (calls, r) = executeSQLFile pool_at fileData;
       run = filter importable (parseSQL fileData);
       outs = write_outcomes pool_at run
   in calls = map Exec run \<and> list_all clean_statement run
      \<and> sf_total r = length (parseSQL fileData) \<and> sf_succeeded r + sf_failed r = sf_total r
      \<and> sf_succeeded r = length (filter (\<lambda>x. \<not> isl x) outs)
      \<and> length (sf_errors r) = sf_failed r
      \<and> sf_rows r = sum_list (map projr (filter (\<lambda>x. \<not> isl x) outs))
      \<and> (sf_ok r \<longleftrightarrow> sf_failed r = 0)"
proof -
  let ?res = "\<lparr>sf_ok = False, sf_rows = 0, sf_total = length (parseSQL fileData), sf_succeeded = 0, sf_failed = 0, sf_errors = []\<rparr>"
  let ?run = "filter importable (parseSQL fileData)"
  obtain calls r where l: "sql_file_loop pool_at 0 0 (parseSQL fileData) ?res = (calls, r)" by (cases "sql_file_loop pool_at 0 0 (parseSQL fileData) ?res")
  have a: "calls = map Exec ?run"
      "accounted (write_outcomes pool_at ?run) (length (filter (\<lambda>st. \<not> importable st) (parseSQL fileData))) ?res r"
    using sql_file_loop_account [OF l parseSQL_clean] by (simp_all add: write_outcomes_def)
  have "length (write_outcomes pool_at ?run) = length ?run" by (simp add: write_outcomes_def)
  with sum_length_filter_compl [of isl "write_outcomes pool_at ?run"] sum_length_filter_compl [of importable "parseSQL fileData"]
  have "sf_succeeded r + sf_failed r = length (parseSQL fileData)" using a(2) by (simp add: accounted_def)
  moreover have "list_all clean_statement ?run" using parseSQL_clean [of fileData] by (auto simp: list_all_iff)
  ultimately show ?thesis using l a by (simp add: executeSQLFile_def Let_def accounted_def)
qed

end
