(* ===== verification/Csv.thy ===== *)
theory Csv
  imports Go_Strings
begin

text \<open>
  Reading the tables of an upload (\<open>parseCSV\<close> and \<open>parseXLSX\<close> of
  \<open>internal/handlers/data.go\<close>). \<open>encoding/csv\<close> is modelled as \<open>Reader.ReadAll\<close>
  works with the settings of the code: comma separated, no comments, \<open>LazyQuotes\<close>, the number
  of fields fixed by the first record. The spreadsheet library is the parameter \<open>excelize\<close>.
\<close>

section \<open>Package encoding/csv\<close>

abbreviation dquote :: char where "dquote \<equiv> CHR 0x22"
abbreviation creturn :: char where "creturn \<equiv> CHR 0x0D"

fun raw_lines :: "string \<Rightarrow> string list" where
  "raw_lines [] = []"
| "raw_lines (c # s) =
     (if c = newline then [c] # raw_lines s
      else (case raw_lines s of [] \<Rightarrow> [[c]] | l # ls \<Rightarrow> (c # l) # ls))"

text \<open>\<open>Reader.readLine\<close>: a final line loses a trailing CR, and CR LF becomes LF.\<close>

definition csv_line :: "string \<Rightarrow> string" where
  "csv_line l =
     (if suffix [creturn, newline] l then take (length l - 2) l @ [newline]
      else if suffix [creturn] l then butlast l else l)"

definition lengthNL :: "string \<Rightarrow> nat" where
  "lengthNL b = (if suffix [newline] b then 1 else 0)"

lemma length_after_cut: "drop (Suc i) line = r # rest \<Longrightarrow> Suc (length rest) < length line"
  using length_drop [of "Suc i" line] by simp

text \<open>
  The rest of a quoted field: the field, the rest of its line when another field follows, the
  lines after it and the number of lines read. \<open>buf\<close> is \<open>recordBuffer\<close> from the field on.
\<close>

function csv_quoted :: "string \<Rightarrow> string \<Rightarrow> string list \<Rightarrow> nat \<Rightarrow> string \<times> string option \<times> string list \<times> nat" where
  "csv_quoted buf line ls n =
     (case Index line [dquote] of
        Some i \<Rightarrow>
          (case drop (i + 1) line of
             [] \<Rightarrow> (buf @ take i line, None, ls, n)
           | r # rest \<Rightarrow>
               if r = dquote then csv_quoted (buf @ take i line @ [dquote]) rest ls n
               else if r = CHR '','' then (buf @ take i line, Some rest, ls, n)
               else if r = newline \<and> rest = [] then (buf @ take i line, None, ls, n)
               else csv_quoted (buf @ take i line @ [dquote]) (r # rest) ls n)
      | None \<Rightarrow>
          if line = [] then (buf, None, ls, n)
          else (case ls of
                  [] \<Rightarrow> (buf @ line, None, [], n + 1)
                | l # ls' \<Rightarrow> csv_quoted (buf @ line) l ls' (n + 1)))"
  by pat_completeness auto
termination
  by (relation "measure (\<lambda>(buf, line, ls, n). length line + sum_list (map length ls))") (auto dest: length_after_cut)

declare csv_quoted.simps [simp del]

lemma csv_quoted_lines: "csv_quoted buf line ls n = (f, ro, ls', n') \<Longrightarrow> length ls' \<le> length ls"
proof (induction buf line ls n arbitrary: f ro ls' n' rule: csv_quoted.induct)
  case (1 buf line ls n)
  from "1.prems" show ?case
    by (subst (asm) csv_quoted.simps) (auto split: option.splits list.splits if_splits dest: "1.IH")
qed

lemma csv_quoted_shrinks:
  "csv_quoted buf line ls n = (f, Some rest, ls', n') \<Longrightarrow>
     length rest + sum_list (map length ls') < length line + sum_list (map length ls)"
proof (induction buf line ls n arbitrary: f rest ls' n' rule: csv_quoted.induct)
  case (1 buf line ls n)
  note eq = csv_quoted.simps [of buf line ls n]
  show ?case
  proof (cases "Index line [dquote]")
    case None
    with "1.prems" eq show ?thesis
      by (auto split: list.splits if_splits dest!: "1.IH"(1) [OF None])
  next
    case (Some i)
    show ?thesis
    proof (cases "drop (Suc i) line")
      case Nil
      with Some "1.prems" eq show ?thesis by simp
    next
      case (Cons r rest')
      then have lt: "Suc (length rest') < length line" by (rule length_after_cut)
      have c: "drop (i + 1) line = r # rest'" using Cons by simp
      show ?thesis
        using "1.prems" eq Some c lt "1.IH"(2) [OF Some c] "1.IH"(3) [OF Some c]
        by (fastforce split: if_splits)
    qed
  qed
qed

function csv_fields :: "string \<Rightarrow> string list \<Rightarrow> nat \<Rightarrow> string list \<times> string list \<times> nat" where
  "csv_fields line ls n =
     (if line = [] \<or> hd line \<noteq> dquote then
        (case Index line '','' of
           Some i \<Rightarrow> (case csv_fields (drop (i + 1) line) ls n of (fs, r) \<Rightarrow> (take i line # fs, r))
         | None \<Rightarrow> ([take (length line - lengthNL line) line], ls, n))
      else (case csv_quoted [] (tl line) ls n of
              (f, Some rest, ls', n') \<Rightarrow> (case csv_fields rest ls' n' of (fs, r) \<Rightarrow> (f # fs, r))
            | (f, None, ls', n') \<Rightarrow> ([f], ls', n')))"
  by pat_completeness auto
termination
  by (relation "measure (\<lambda>(line, ls, n). length line + sum_list (map length ls))")
    (auto dest: Index_SomeD csv_quoted_shrinks [OF sym])

declare csv_fields.simps [simp del]

lemma csv_fields_lines: "csv_fields line ls n = (fs, ls', n') \<Longrightarrow> length ls' \<le> length ls"
proof (induction line ls n arbitrary: fs ls' n' rule: csv_fields.induct)
  case (1 line ls n)
  note eq = csv_fields.simps [of line ls n]
  show ?case
  proof (cases "line = [] \<or> hd line \<noteq> dquote")
    case True
    with "1.prems" eq show ?thesis by (auto split: option.splits prod.splits dest: "1.IH"(1) [OF True])
  next
    case False
    obtain f ro ls1 n1 where q: "csv_quoted [] (tl line) ls n = (f, ro, ls1, n1)" by (metis prod_cases4)
    note le = csv_quoted_lines [OF q]
    show ?thesis
    proof (cases ro)
      case None
      with "1.prems" eq False q le show ?thesis by simp
    next
      case (Some rest)
      with "1.prems" eq False q obtain fs' where "csv_fields rest ls1 n1 = (fs', ls', n')" by (auto split: prod.splits)
      with "1.IH"(2) [OF False q [symmetric] refl Some refl] le show ?thesis by fastforce
    qed
  qed
qed

text \<open>\<open>ReadAll\<close> from line \<open>n\<close> on, with the expected number of fields once it is known.\<close>

function csv_records :: "nat option \<Rightarrow> nat \<Rightarrow> string list \<Rightarrow> string list list res" where
  "csv_records expected n [] = Inr []"
| "csv_records expected n (l # ls) =
     (if length l = lengthNL l then csv_records expected (n + 1) ls
      else (case csv_fields l ls (n + 1) of
              (record, ls', n') \<Rightarrow>
                if expected \<noteq> None \<and> expected \<noteq> Some (length record)
                then Inl (''record on line '' @ nat_dec (n + 1) @ '': wrong number of fields'')
                else (case csv_records (Some (length record)) n' ls' of
                        Inl e \<Rightarrow> Inl e
                      | Inr records \<Rightarrow> Inr (record # records))))"
  by pat_completeness auto
termination
  by (relation "measure (\<lambda>(ex, n, ls). length ls)") (auto dest: csv_fields_lines [OF sym])

definition csv_ReadAll :: "string \<Rightarrow> string list list res" where
  "csv_ReadAll s = csv_records None 0 (map csv_line (raw_lines s))"

section \<open>Tables\<close>

record parseResult =
  Columns :: "string list"
  pRows :: "string list list"
  RowCount :: nat

definition parseCSV :: "string \<Rightarrow> parseResult res" where
  "parseCSV data =
     (case csv_ReadAll data of
        Inl e \<Rightarrow> Inl (''CSV format error: '' @ e)
      | Inr [] \<Rightarrow> Inl ''CSV file is empty''
      | Inr (cols # rows) \<Rightarrow> Inr \<lparr>Columns = cols, pRows = rows, RowCount = length rows\<rparr>)"

record excelize =
  OpenReader :: "string \<Rightarrow> err"
  GetSheetName :: "string \<Rightarrow> nat \<Rightarrow> string"
  GetRows :: "string \<Rightarrow> string \<Rightarrow> string list list res"

definition parseXLSX :: "excelize \<Rightarrow> string \<Rightarrow> parseResult res" where
  "parseXLSX x data =
     (case OpenReader x data of
        Some e \<Rightarrow> Inl (''XLSX parse failed: '' @ e)
      | None \<Rightarrow>
          (case GetRows x data (GetSheetName x data 0) of
             Inl e \<Rightarrow> Inl (''read sheet failed: '' @ e)
           | Inr [] \<Rightarrow> Inl ''XLSX file is empty''
           | Inr (cols # rows) \<Rightarrow> Inr \<lparr>Columns = cols, pRows = rows, RowCount = length rows\<rparr>))"

section \<open>Reading what was written\<close>

text \<open>The usual writing of a table: every field in quotes, quotes doubled, one line end per record.\<close>

definition csv_escape :: "string \<Rightarrow> string" where
  "csv_escape f = concat (map (\<lambda>c. if c = dquote then [c, c] else [c]) f)"

definition csv_field :: "string \<Rightarrow> string" where
  "csv_field f = dquote # csv_escape f @ [dquote]"

definition csv_row :: "string list \<Rightarrow> string" where
  "csv_row fs = Join (map csv_field fs) '','' @ [newline]"

definition csv_table :: "string list list \<Rightarrow> string" where
  "csv_table rows = concat (map csv_row rows)"

lemma csv_escape_simps [simp]:
  "csv_escape [] = []"
  "csv_escape (c # f) = (if c = dquote then [dquote, dquote] else [c]) @ csv_escape f"
  by (simp_all add: csv_escape_def)

lemma raw_lines_nonempty: "s \<noteq> [] \<Longrightarrow> \<exists>l ls. raw_lines s = l # ls \<and> l \<noteq> []"
  by (cases s) (auto split: list.splits)

lemma raw_lines_char:
  assumes "c \<noteq> newline" and "raw_lines s = l # ls"
  shows "raw_lines (c # s) = (c # l) # ls"
  using assms by simp

lemma csv_quoted_plain:
  assumes "c \<noteq> dquote" and "l \<noteq> []"
  shows "csv_quoted buf (c # l) ls n = csv_quoted (buf @ [c]) l ls n"
  using assms by (subst (1 2) csv_quoted.simps) (auto split: option.splits list.splits simp: prefix_Cons)

lemma csv_quoted_escaped: "csv_quoted buf (dquote # dquote # l) ls n = csv_quoted (buf @ [dquote]) l ls n"
  by (subst csv_quoted.simps) (simp add: prefix_Cons)

lemma csv_quoted_newline: "csv_quoted buf [newline] (l # ls) n = csv_quoted (buf @ [newline]) l ls (n + 1)"
  by (subst csv_quoted.simps) (simp add: prefix_Cons)

text \<open>A written field is read to its closing quote, over as many lines as it has.\<close>

lemma csv_quoted_read:
  assumes "raw_lines (csv_escape f @ dquote # t) = l # ls" and "t \<noteq> []"
  shows "\<exists>lt lst n'. raw_lines (dquote # t) = (dquote # lt) # lst
           \<and> csv_quoted buf l ls n = csv_quoted (buf @ f) (dquote # lt) lst n'"
  using assms(1)
proof (induction f arbitrary: buf l ls n)
  case Nil
  obtain lt lst where "raw_lines t = lt # lst" using raw_lines_nonempty [OF assms(2)] by auto
  with Nil show ?case by auto
next
  case (Cons c f)
  obtain l1 ls1 where l1: "raw_lines (csv_escape f @ dquote # t) = l1 # ls1" "l1 \<noteq> []"
    using raw_lines_nonempty [of "csv_escape f @ dquote # t"] by auto
  note IH = Cons.IH [OF l1(1)]
  consider "c = dquote" | "c = newline" | "c \<noteq> dquote" "c \<noteq> newline" by blast
  then show ?case
  proof cases
    case 1
    then have "l = dquote # dquote # l1" "ls = ls1" using Cons.prems l1(1) by auto
    then show ?thesis using 1 IH [of "buf @ [dquote]" n] by (simp add: csv_quoted_escaped)
  next
    case 2
    then have "l = [newline]" "ls = l1 # ls1" using Cons.prems l1(1) by auto
    then show ?thesis using 2 IH [of "buf @ [newline]" "n + 1"] by (simp add: csv_quoted_newline)
  next
    case 3
    then have "l = c # l1" "ls = ls1" using Cons.prems l1(1) by auto
    then show ?thesis using 3 l1(2) IH [of "buf @ [c]" n] by (simp add: csv_quoted_plain)
  qed
qed

lemma csv_quoted_end:
  "csv_quoted buf (dquote # CHR '','' # rest) ls n = (buf, Some rest, ls, n)"
  "csv_quoted buf [dquote, newline] ls n = (buf, None, ls, n)"
  by (subst csv_quoted.simps; simp add: prefix_Cons)+

lemma csv_fields_read:
  assumes "fs \<noteq> []" and "raw_lines (csv_row fs @ t) = l # ls"
  shows "\<exists>n'. csv_fields l ls n = (fs, raw_lines t, n')"
  using assms
proof (induction fs arbitrary: l ls n rule: list_nonempty_induct)
  case (single f)
  obtain l1 ls1 where l1: "raw_lines (csv_escape f @ dquote # newline # t) = l1 # ls1"
    using raw_lines_nonempty [of "csv_escape f @ dquote # newline # t"] by auto
  with single have l: "l = dquote # l1" "ls = ls1" by (auto simp: csv_row_def csv_field_def)
  from csv_quoted_read [OF l1, of "[]" n] obtain n' where "csv_quoted [] l1 ls1 n = (f, None, raw_lines t, n')"
    by (auto simp: csv_quoted_end)
  then show ?case using l by (subst csv_fields.simps) auto
next
  case (cons f fs)
  have row: "csv_row (f # fs) @ t = dquote # csv_escape f @ dquote # CHR '','' # csv_row fs @ t"
    using cons.hyps by (cases fs) (simp_all add: csv_row_def csv_field_def)
  obtain l1 ls1 where l1: "raw_lines (csv_escape f @ dquote # CHR '','' # csv_row fs @ t) = l1 # ls1"
    using raw_lines_nonempty [of "csv_escape f @ dquote # CHR '','' # csv_row fs @ t"] by auto
  with cons.prems row have l: "l = dquote # l1" "ls = ls1" by auto
  obtain l2 ls2 where l2: "raw_lines (csv_row fs @ t) = l2 # ls2"
    using raw_lines_nonempty [of "csv_row fs @ t"] by (auto simp: csv_row_def)
  from csv_quoted_read [OF l1, of "[]" n] l2 obtain n1 where q: "csv_quoted [] l1 ls1 n = (f, Some l2, ls2, n1)"
    by (auto simp: csv_quoted_end)
  from cons.IH [OF l2, of n1] obtain n' where "csv_fields l2 ls2 n1 = (fs, raw_lines t, n')" by blast
  then show ?case using l q by (subst csv_fields.simps) auto
qed

lemma csv_line_id: "creturn \<notin> set l \<Longrightarrow> csv_line l = l"
  by (auto simp: csv_line_def suffix_def)

lemma concat_raw_lines: "concat (raw_lines s) = s"
  by (induction s) (auto split: list.splits)

lemma set_raw_lines: "l \<in> set (raw_lines s) \<Longrightarrow> set l \<subseteq> set s"
  by (metis concat_raw_lines set_concat UN_upper)

lemma csv_records_read:
  assumes "list_all (\<lambda>r. length r = w \<and> r \<noteq> []) rows" and "expected = None \<or> expected = Some w"
  shows "csv_records expected n (raw_lines (csv_table rows)) = Inr rows"
  using assms
proof (induction rows arbitrary: expected n)
  case (Cons r rows)
  then have r: "r \<noteq> []" "length r = w" by auto
  obtain l ls where l: "raw_lines (csv_row r @ csv_table rows) = l # ls"
    using raw_lines_nonempty [of "csv_row r @ csv_table rows"] by (auto simp: csv_row_def)
  obtain s where "csv_row r = dquote # s" "s \<noteq> []" using r(1)
    by (cases r; cases "tl r") (auto simp: csv_row_def csv_field_def)
  with l have "length l \<noteq> lengthNL l"
    using raw_lines_nonempty [of "s @ csv_table rows"] by (auto simp: lengthNL_def suffix_def)
  moreover obtain n' where "csv_fields l ls (n + 1) = (r, raw_lines (csv_table rows), n')"
    using csv_fields_read [OF r(1) l] by blast
  moreover have "csv_table (r # rows) = csv_row r @ csv_table rows" by (simp add: csv_table_def)
  ultimately show ?case using Cons l r by auto
qed (simp add: csv_table_def)

lemma set_csv_field: "creturn \<in> set (csv_field f) \<Longrightarrow> creturn \<in> set f"
proof -
  have "set (csv_escape f) \<subseteq> set f \<union> {dquote}" by (induction f) auto
  then show "creturn \<in> set (csv_field f) \<Longrightarrow> creturn \<in> set f" by (auto simp: csv_field_def)
qed

lemma set_csv_row: "creturn \<in> set (csv_row r) \<Longrightarrow> \<exists>f \<in> set r. creturn \<in> set f"
proof -
  have "set (Join xs '','') \<subseteq> \<Union> (set ` set xs) \<union> {CHR '',''}" for xs
    by (induction xs "'',''" rule: Join.induct) auto
  from this [of "map csv_field r"] show "creturn \<in> set (csv_row r) \<Longrightarrow> \<exists>f \<in> set r. creturn \<in> set f"
    by (auto simp: csv_row_def dest: set_csv_field)
qed

lemma set_csv_table: "creturn \<in> set (csv_table rows) \<Longrightarrow> \<exists>r \<in> set rows. \<exists>f \<in> set r. creturn \<in> set f"
  by (auto simp: csv_table_def dest!: set_csv_row)

lemma csv_ReadAll_written:
  assumes "cols \<noteq> []" and "list_all (\<lambda>r. length r = length cols) rows"
    and "list_all (list_all (\<lambda>f. creturn \<notin> set f)) (cols # rows)"
  shows "csv_ReadAll (csv_table (cols # rows)) = Inr (cols # rows)"
proof -
  let ?t = "csv_table (cols # rows)"
  have "creturn \<notin> set ?t" using assms(3) set_csv_table [of "cols # rows"] by (auto simp: list_all_iff)
  then have "map csv_line (raw_lines ?t) = raw_lines ?t"
    by (intro map_idI csv_line_id) (auto dest: set_raw_lines)
  moreover have "list_all (\<lambda>r. length r = length cols \<and> r \<noteq> []) (cols # rows)"
    using assms(1,2) by (auto simp: list_all_iff)
  ultimately show ?thesis
    unfolding csv_ReadAll_def by (simp add: csv_records_read [of "length cols"])
qed

text \<open>
  C24. Reading a CSV file gives back the table that was written: for every table whose rows are as
  wide as its header, with commas, quotes and line breaks inside the fields but no carriage
  return, \<open>parseCSV\<close> of its quoted form returns the header, the rows in order and their number.
\<close>

theorem parseCSV_written:
  assumes "cols \<noteq> []" and "list_all (\<lambda>r. length r = length cols) rows"
    and "list_all (list_all (\<lambda>f. creturn \<notin> set f)) (cols # rows)"
  shows "parseCSV (csv_table (cols # rows)) = Inr \<lparr>Columns = cols, pRows = rows, RowCount = length rows\<rparr>"
  by (simp add: parseCSV_def csv_ReadAll_written [OF assms])

theorem parseCSV_written_witness:
  "parseCSV (csv_table [[''id'', ''note''], [''1'', ''a,b'' @ [newline, dquote]]])
   = Inr \<lparr>Columns = [''id'', ''note''], pRows = [[''1'', ''a,b'' @ [newline, dquote]]], RowCount = 1\<rparr>"
  using parseCSV_written [of "[''id'', ''note'']" "[[''1'', ''a,b'' @ [newline, dquote]]]"] by simp

end
