(* ===== verification/Go_Json.thy ===== *)
theory Go_Json
  imports Http "HOL-Library.List_Lexorder"
begin

text \<open>
  The text of JSON values: \<open>encoding/json\<close> as \<open>json.Marshal\<close> and \<open>json.Encoder\<close> write it, with
  the keys of a map in byte order, HTML characters escaped and invalid UTF-8 replaced; and a
  reference reader after RFC 8259, which says what any client reads in such a text. The reader
  undoes the writer: nothing of a value is lost or ambiguous on the way.
\<close>

section \<open>Writing\<close>

definition hex_digit :: "nat \<Rightarrow> char" where
  "hex_digit n = (if n < 10 then char_of (48 + n) else char_of (87 + n))"

definition u_escape :: "nat \<Rightarrow> string" where
  "u_escape r = [CHR 0x5C, CHR ''u'', hex_digit (r div 4096 mod 16), hex_digit (r div 256 mod 16), hex_digit (r div 16 mod 16), hex_digit (r mod 16)]"

text \<open>The table \<open>htmlSafeSet\<close> and the switch for the other ASCII bytes.\<close>

definition ascii_escape :: "nat \<Rightarrow> string" where
  "ascii_escape b =
     (if b = 0x5C \<or> b = 0x22 then [CHR 0x5C, char_of b]
      else if b = 8 then [CHR 0x5C, CHR ''b'']
      else if b = 12 then [CHR 0x5C, CHR ''f'']
      else if b = 10 then [CHR 0x5C, CHR ''n'']
      else if b = 13 then [CHR 0x5C, CHR ''r'']
      else if b = 9 then [CHR 0x5C, CHR ''t'']
      else if b < 32 \<or> b = 60 \<or> b = 62 \<or> b = 38 then u_escape b
      else [char_of b])"

function append_string :: "nat list \<Rightarrow> string" where
  "append_string [] = []"
| "append_string (b # bs) =
     (if b < 128 then ascii_escape b @ append_string bs
      else case utf8_multi b bs of
             None \<Rightarrow> u_escape RuneError @ append_string bs
           | Some (r, n) \<Rightarrow>
               (if r = 0x2028 \<or> r = 0x2029 then u_escape r else map char_of (b # take n bs)) @ append_string (drop n bs))"
  by pat_completeness auto
termination by (relation "measure length") auto

definition json_string :: "string \<Rightarrow> string" where
  "json_string s = CHR 0x22 # append_string (map byte s) @ [CHR 0x22]"

definition key_order :: "string \<times> 'a \<Rightarrow> nat list" where
  "key_order kv = map byte (fst kv)"

text \<open>An array; a struct, with its fields in the order of their declaration; a map, in the order of its keys.\<close>

definition json_array :: "string list \<Rightarrow> string" where
  "json_array ts = ''['' @ Join ts '','' @ '']''"

definition json_struct :: "(string \<times> string) list \<Rightarrow> string" where
  "json_struct ms = ''{'' @ Join (map (\<lambda>(k, t). json_string k @ '':'' @ t) ms) '','' @ ''}''"

definition json_object :: "(string \<times> string) list \<Rightarrow> string" where
  "json_object ms = json_struct (sort_key key_order ms)"

primrec json_encode :: "json \<Rightarrow> string" where
  "json_encode JNull = ''null''"
| "json_encode (JBool b) = (if b then ''true'' else ''false'')"
| "json_encode (JInt i) = int_dec i"
| "json_encode (JStr s) = json_string s"
| "json_encode (JArr vs) = json_array (map json_encode vs)"
| "json_encode (JObj kvs) = json_object (map (map_prod id json_encode) kvs)"
| "json_encode (JRaw s) = s"

section \<open>Reading\<close>

datatype jtree = TNull | TBool bool | TNum string | TStr string | TArr "jtree list" | TObj "(string \<times> jtree) list"

definition json_space :: "char \<Rightarrow> bool" where
  "json_space c \<longleftrightarrow> c = CHR '' '' \<or> c = CHR 0x09 \<or> c = CHR 0x0A \<or> c = CHR 0x0D"

definition skip_space :: "string \<Rightarrow> string" where
  "skip_space s = dropWhile json_space s"

definition hex_value :: "char \<Rightarrow> nat option" where
  "hex_value c =
     (if in_range CHR ''0'' CHR ''9'' c then Some (byte c - 48)
      else if in_range CHR ''a'' CHR ''f'' c then Some (byte c - 87)
      else if in_range CHR ''A'' CHR ''F'' c then Some (byte c - 55) else None)"

definition hex4 :: "char \<Rightarrow> char \<Rightarrow> char \<Rightarrow> char \<Rightarrow> nat option" where
  "hex4 a b c d =
     (case (hex_value a, hex_value b, hex_value c, hex_value d) of
        (Some w, Some x, Some y, Some z) \<Rightarrow> Some (w * 4096 + x * 256 + y * 16 + z)
      | _ \<Rightarrow> None)"

text \<open>The characters that may follow a backslash, other than \<open>u\<close>.\<close>

definition short_escape :: "char \<Rightarrow> char option" where
  "short_escape c =
     map_of [(CHR 0x22, CHR 0x22), (CHR 0x5C, CHR 0x5C), (CHR ''/'', CHR ''/''), (CHR ''b'', CHR 0x08), (CHR ''f'', CHR 0x0C),
             (CHR ''n'', CHR 0x0A), (CHR ''r'', CHR 0x0D), (CHR ''t'', CHR 0x09)] c"

definition read_hex4 :: "string \<Rightarrow> (nat \<times> string) option" where
  "read_hex4 s = (case s of a # b # c # d # r \<Rightarrow> map_option (\<lambda>n. (n, r)) (hex4 a b c d) | _ \<Rightarrow> None)"

text \<open>
  What follows a backslash: the bytes it stands for and the rest. Two escapes that form a surrogate
  pair are one rune; a lone surrogate is read as the replacement character.
\<close>

definition low_surrogate :: "nat \<Rightarrow> string \<Rightarrow> (nat \<times> string) option" where
  "low_surrogate hi s =
     (if 0xD800 \<le> hi \<and> hi < 0xDC00 \<and> HasPrefix s [CHR 0x5C, CHR ''u''] then
        (case read_hex4 (drop 2 s) of
           Some (lo, r) \<Rightarrow> if 0xDC00 \<le> lo \<and> lo < 0xE000 then Some (0x10000 + (hi - 0xD800) * 1024 + (lo - 0xDC00), r) else None
         | None \<Rightarrow> None)
      else None)"

definition read_escape :: "string \<Rightarrow> (string \<times> string) option" where
  "read_escape s =
     (case s of
        [] \<Rightarrow> None
      | e # s1 \<Rightarrow>
          if e \<noteq> CHR ''u'' then map_option (\<lambda>x. ([x], s1)) (short_escape e)
          else (case read_hex4 s1 of
                  None \<Rightarrow> None
                | Some (hi, s2) \<Rightarrow>
                    (case low_surrogate hi s2 of
                       Some (r, s3) \<Rightarrow> Some (map char_of (encode_rune r), s3)
                     | None \<Rightarrow> Some (map char_of (encode_rune hi), s2))))"

lemma read_hex4_shorter: "read_hex4 s = Some (n, r) \<Longrightarrow> length r < length s"
  by (auto simp: read_hex4_def split: list.splits)

lemma read_escape_shorter: "read_escape s = Some (x, r) \<Longrightarrow> length r < length s"
  by (auto simp: read_escape_def low_surrogate_def split: list.splits option.splits if_splits dest!: read_hex4_shorter)

text \<open>The rest of a string after its opening quote.\<close>

function read_string :: "string \<Rightarrow> (string \<times> string) option" where
  "read_string [] = None"
| "read_string (c # s) =
     (if c = CHR 0x22 then Some ([], s)
      else if byte c < 32 then None
      else if c \<noteq> CHR 0x5C then map_option (\<lambda>(t, r). (c # t, r)) (read_string s)
      else (case read_escape s of
              None \<Rightarrow> None
            | Some (x, s') \<Rightarrow> map_option (\<lambda>(t, r). (x @ t, r)) (read_string s')))"
  by pat_completeness auto
termination by (relation "measure length") (auto dest: read_escape_shorter)

definition num_char :: "char \<Rightarrow> bool" where
  "num_char c \<longleftrightarrow> is_digit c \<or> c \<in> {CHR ''-'', CHR ''+'', CHR ''.'', CHR ''e'', CHR ''E''}"

definition digits_only :: "string \<Rightarrow> bool" where
  "digits_only s \<longleftrightarrow> s \<noteq> [] \<and> list_all is_digit s"

text \<open>An optional minus, an integer without leading zero, an optional fraction, an optional exponent.\<close>

definition is_number :: "string \<Rightarrow> bool" where
  "is_number t =
     (let s = (if HasPrefix t ''-'' then drop 1 t else t);
          i = takeWhile is_digit s; s1 = dropWhile is_digit s;
          f = takeWhile is_digit (drop 1 s1); s2 = (if HasPrefix s1 ''.'' then dropWhile is_digit (drop 1 s1) else s1)
      in i \<noteq> [] \<and> (length i = 1 \<or> hd i \<noteq> CHR ''0'') \<and> (HasPrefix s1 ''.'' \<longrightarrow> f \<noteq> [])
         \<and> (s2 = [] \<or> (hd s2 = CHR ''e'' \<or> hd s2 = CHR ''E'') \<and>
              digits_only (if HasPrefix (tl s2) ''+'' \<or> HasPrefix (tl s2) ''-'' then drop 1 (tl s2) else tl s2)))"

function parse_value :: "string \<Rightarrow> (jtree \<times> string) option"
  and parse_elems :: "string \<Rightarrow> (jtree list \<times> string) option"
  and parse_members :: "string \<Rightarrow> ((string \<times> jtree) list \<times> string) option" where
  "parse_value s0 =
     (case skip_space s0 of
        [] \<Rightarrow> None
      | c # s1 \<Rightarrow>
          if c = CHR 0x22 then map_option (\<lambda>(t, r). (TStr t, r)) (read_string s1)
          else if c = CHR ''['' then
            (if HasPrefix (skip_space s1) '']'' then Some (TArr [], tl (skip_space s1))
             else if length s1 < length s0 then map_option (\<lambda>(vs, r). (TArr vs, r)) (parse_elems s1) else None)
          else if c = CHR ''{'' then
            (if HasPrefix (skip_space s1) ''}'' then Some (TObj [], tl (skip_space s1))
             else if length s1 < length s0 then map_option (\<lambda>(ms, r). (TObj ms, r)) (parse_members s1) else None)
          else if HasPrefix (c # s1) ''null'' then Some (TNull, drop 4 (c # s1))
          else if HasPrefix (c # s1) ''true'' then Some (TBool True, drop 4 (c # s1))
          else if HasPrefix (c # s1) ''false'' then Some (TBool False, drop 5 (c # s1))
          else if is_number (takeWhile num_char (c # s1)) then Some (TNum (takeWhile num_char (c # s1)), dropWhile num_char (c # s1))
          else None)"
| "parse_elems s =
     (case parse_value s of
        None \<Rightarrow> None
      | Some (v, r) \<Rightarrow>
          (case skip_space r of
             [] \<Rightarrow> None
           | d # r' \<Rightarrow>
               if d = CHR '']'' then Some ([v], r')
               else if d = CHR '','' \<and> length r' < length s then map_option (\<lambda>(vs, q). (v # vs, q)) (parse_elems r')
               else None))"
| "parse_members s =
     (case skip_space s of
        [] \<Rightarrow> None
      | q # s1 \<Rightarrow>
          if q \<noteq> CHR 0x22 then None
          else (case read_string s1 of
                  None \<Rightarrow> None
                | Some (k, r) \<Rightarrow>
                    (case skip_space r of
                       [] \<Rightarrow> None
                     | c # r1 \<Rightarrow>
                         if c \<noteq> CHR '':'' \<or> length s \<le> length r1 then None
                         else (case parse_value r1 of
                                 None \<Rightarrow> None
                               | Some (v, r2) \<Rightarrow>
                                   (case skip_space r2 of
                                      [] \<Rightarrow> None
                                    | d # r3 \<Rightarrow>
                                        if d = CHR ''}'' then Some ([(k, v)], r3)
                                        else if d = CHR '','' \<and> length r3 < length s
                                        then map_option (\<lambda>(ms, q). ((k, v) # ms, q)) (parse_members r3)
                                        else None)))))"
  by pat_completeness auto
termination
  by (relation "measure (\<lambda>x. case x of Inl s \<Rightarrow> 2 * length s | Inr (Inl s) \<Rightarrow> 2 * length s + 1 | Inr (Inr s) \<Rightarrow> 2 * length s + 1)") auto

declare parse_value.simps [simp del] parse_elems.simps [simp del] parse_members.simps [simp del]

definition json_read :: "string \<Rightarrow> jtree option" where
  "json_read s = (case parse_value s of Some (v, r) \<Rightarrow> if skip_space r = [] then Some v else None | None \<Rightarrow> None)"

section \<open>Strings read back\<close>

function valid_utf8 :: "nat list \<Rightarrow> bool" where
  "valid_utf8 [] = True"
| "valid_utf8 (b # bs) =
     (if b < 128 then valid_utf8 bs
      else case utf8_multi b bs of None \<Rightarrow> False | Some (r, n) \<Rightarrow> valid_utf8 (drop n bs))"
  by pat_completeness auto
termination by (relation "measure length") auto

declare char_of_byte [simp] byte_lt [simp]

lemma char_of_iff: "n < 256 \<Longrightarrow> (char_of (n :: nat) = c) \<longleftrightarrow> n = byte c"
  using byte_char_of by fastforce

lemma byte_quotes [simp]: "byte CHR 0x22 = 34" "byte CHR 0x5C = 92"
  by (simp_all add: byte_def)

lemma utf8_multi_bytes:
  assumes "utf8_multi b bs = Some (r, n)"
  shows "128 \<le> b \<and> b < 256 \<and> n \<le> length bs \<and> (\<forall>x \<in> set (take n bs). 128 \<le> x \<and> x < 256)"
  using assms by (auto simp: utf8_multi_def cont_byte_def split: list.splits if_splits)

lemma utf8_multi_encode:
  assumes "utf8_multi b bs = Some (r, n)" and "r = 0x2028 \<or> r = 0x2029"
  shows "b # take n bs = encode_rune r"
proof -
  have three: "x = 2 \<and> y = 0 \<and> (z = 40 \<or> z = 41)" if "x * 4096 + y * 64 + z = r" "y < 64" "z < 64" for x y z :: nat
  proof -
    have "x \<le> 2" "2 \<le> x" using assms(2) that by linarith+
    then have x: "x = 2" by simp
    then have "y \<le> 0" using assms(2) that by linarith
    with x show ?thesis using assms(2) that by auto
  qed
  have "224 \<le> b \<and> b < 240"
    using assms by (auto simp: utf8_multi_def cont_byte_def split: list.splits if_splits)
  with assms(1) obtain b1 b2 bs' where bs: "bs = b1 # b2 # bs'" "n = 2" "128 \<le> b1" "b1 < 192" "128 \<le> b2" "b2 < 192"
      and r: "(b - 224) * 4096 + (b1 - 128) * 64 + (b2 - 128) = r"
    by (auto simp: utf8_multi_def cont_byte_def split: list.splits if_splits)
  have "b - 224 = 2 \<and> b1 - 128 = 0 \<and> (b2 - 128 = 40 \<or> b2 - 128 = 41)" using three [OF r] bs by simp
  with bs \<open>224 \<le> b \<and> b < 240\<close> r assms(2) have "b = 226 \<and> b1 = 128 \<and> (b2 = 168 \<and> r = 8232 \<or> b2 = 169 \<and> r = 8233)" by auto
  with bs show ?thesis by (auto simp: encode_rune_def)
qed

lemma hex_value_digit [simp]: "n < 16 \<Longrightarrow> hex_value (hex_digit n) = Some n"
  by (auto simp: hex_value_def hex_digit_def in_range_def byte_char_of byte_def)

lemma read_u_escape:
  assumes "r < 0x10000" and "\<not> (0xD800 \<le> r \<and> r < 0xDC00)"
  shows "read_string (u_escape r @ s) = map_option (\<lambda>(t, q). (map char_of (encode_rune r) @ t, q)) (read_string s)"
proof -
  have "hex4 (hex_digit (r div 4096 mod 16)) (hex_digit (r div 256 mod 16)) (hex_digit (r div 16 mod 16)) (hex_digit (r mod 16)) = Some r"
  proof -
    have "r = r div 16 * 16 + r mod 16" "r div 16 = r div 256 * 16 + r div 16 mod 16" "r div 256 = r div 4096 * 16 + r div 256 mod 16"
      using div_mult_mod_eq [of "r div 16" 16] div_mult_mod_eq [of "r div 256" 16] by (simp_all add: div_mult2_eq [symmetric])
    then have "r div 4096 * 4096 + r div 256 mod 16 * 256 + r div 16 mod 16 * 16 + r mod 16 = r" by linarith
    moreover have "r div 4096 mod 16 = r div 4096" using assms(1) by (simp add: div_less_iff_less_mult mod_less)
    moreover have "hex_value (hex_digit (r div 4096)) = Some (r div 4096)" using assms(1) by (simp add: div_less_iff_less_mult)
    ultimately show ?thesis by (simp add: hex4_def)
  qed
  moreover have "low_surrogate r s = None" using assms(2) by (auto simp: low_surrogate_def)
  ultimately show ?thesis by (simp add: u_escape_def read_escape_def read_hex4_def)
qed

lemma read_ascii_escape:
  assumes "b < 128"
  shows "read_string (ascii_escape b @ s) = map_option (\<lambda>(t, q). (char_of b # t, q)) (read_string s)"
proof -
  have plain: "read_string (char_of b # s) = map_option (\<lambda>(t, q). (char_of b # t, q)) (read_string s)" if "32 \<le> b" "b \<noteq> 0x22" "b \<noteq> 0x5C"
    using assms that by (simp add: byte_char_of char_of_iff)
  show ?thesis
  proof (cases "b \<in> {0x5C, 0x22, 8, 12, 10, 13, 9}")
    case True
    then show ?thesis
      by (elim insertE emptyE) (simp_all add: ascii_escape_def read_escape_def short_escape_def char_of_def bit_0)
  next
    case False
    then show ?thesis using assms plain read_u_escape [of b s] by (simp add: ascii_escape_def encode_rune_def)
  qed
qed

lemma read_copy:
  fixes bs :: "nat list"
  assumes "\<forall>x \<in> set bs. 128 \<le> x \<and> x < 256"
  shows "read_string (map char_of bs @ s) = map_option (\<lambda>(t, q). (map char_of bs @ t, q)) (read_string s)"
  using assms
proof (induction bs)
  case Nil
  then show ?case by (cases "read_string s") auto
next
  case (Cons x bs)
  then have "(char_of x :: char) \<noteq> CHR 0x22" "(char_of x :: char) \<noteq> CHR 0x5C" "byte (char_of x) = x"
    by (auto simp: byte_char_of char_of_iff)
  with Cons show ?case by (cases "read_string s") auto
qed

lemma read_append_string:
  assumes "valid_utf8 bs" and "\<forall>x \<in> set bs. x < 256"
  shows "read_string (append_string bs @ CHR 0x22 # rest) = Some (map char_of bs, rest)"
  using assms
proof (induction bs rule: append_string.induct)
  case (2 b bs)
  show ?case
  proof (cases "b < 128")
    case True
    with 2 show ?thesis by (simp add: read_ascii_escape)
  next
    case False
    then obtain r n where rn: "utf8_multi b bs = Some (r, n)" using 2(4) by (auto split: option.splits)
    have rest: "read_string (append_string (drop n bs) @ CHR 0x22 # rest) = Some (map char_of (drop n bs), rest)"
      using 2(3) [OF False rn] 2(4,5) False rn by (auto dest: in_set_dropD)
    have copy: "\<forall>x \<in> set (b # take n bs). 128 \<le> x \<and> x < 256" using utf8_multi_bytes [OF rn] by auto
    have all: "map char_of (b # take n bs) @ map char_of (drop n bs) = map char_of (b # bs)"
      by (metis append_Cons append_take_drop_id map_append)
    show ?thesis
    proof (cases "r = 0x2028 \<or> r = 0x2029")
      case True
      then show ?thesis
        using False rn rest all utf8_multi_encode [OF rn True] read_u_escape [of r "append_string (drop n bs) @ CHR 0x22 # rest"] by auto
    next
      case sep: False
      then show ?thesis using False rn rest all read_copy [OF copy, of "append_string (drop n bs) @ CHR 0x22 # rest"] by simp
    qed
  qed
qed simp

lemma read_json_string:
  "valid_utf8 (map byte t) \<Longrightarrow> read_string (append_string (map byte t) @ CHR 0x22 # rest) = Some (t, rest)"
  using read_append_string [of "map byte t" rest] by (simp add: comp_def)

section \<open>Values read back\<close>

text \<open>The value as a client sees it: numerals as text, the members of an object in the order of their keys.\<close>

primrec json_tree :: "json \<Rightarrow> jtree" where
  "json_tree JNull = TNull"
| "json_tree (JBool b) = TBool b"
| "json_tree (JInt i) = TNum (int_dec i)"
| "json_tree (JStr s) = TStr s"
| "json_tree (JArr vs) = TArr (map json_tree vs)"
| "json_tree (JObj kvs) = TObj (sort_key key_order (map (map_prod id json_tree) kvs))"
| "json_tree (JRaw s) = TStr s"

text \<open>Values without raw text, whose strings are valid UTF-8.\<close>

primrec json_plain :: "json \<Rightarrow> bool" where
  "json_plain JNull = True"
| "json_plain (JBool b) = True"
| "json_plain (JInt i) = True"
| "json_plain (JStr s) = valid_utf8 (map byte s)"
| "json_plain (JArr vs) = list_all id (map json_plain vs)"
| "json_plain (JObj kvs) = list_all (\<lambda>(k, b). valid_utf8 (map byte k) \<and> b) (map (map_prod id json_plain) kvs)"
| "json_plain (JRaw s) = False"

lemma sort_key_map_prod: "sort_key key_order (map (map_prod id f) xs) = map (map_prod id f) (sort_key key_order xs)"
proof (induction xs)
  case (Cons x xs)
  have "insort_key key_order (map_prod id f x) (map (map_prod id f) ys) = map (map_prod id f) (insort_key key_order x ys)" for ys
    by (induction ys) (auto simp: key_order_def)
  then show ?case unfolding list.map(2) sort_key_simps Cons.IH .
qed simp

lemma skip_space_id [simp]: "skip_space [] = []" "\<not> json_space c \<Longrightarrow> skip_space (c # s) = c # s"
  by (simp_all add: skip_space_def)

lemma not_space [simp]:
  "\<not> json_space CHR 0x22" "\<not> json_space CHR ''[''" "\<not> json_space CHR '']''" "\<not> json_space CHR ''{''" "\<not> json_space CHR ''}''"
  "\<not> json_space CHR '':''" "\<not> json_space CHR '',''" "\<not> json_space CHR ''n''" "\<not> json_space CHR ''t''" "\<not> json_space CHR ''f''"
  "\<not> json_space CHR ''-''"
  by (simp_all add: json_space_def)

lemma digit_not_space: "is_digit c \<Longrightarrow> \<not> json_space c"
  by (auto simp: is_digit_def json_space_def byte_def)

text \<open>Where a number ends.\<close>

definition after_value :: "string \<Rightarrow> bool" where
  "after_value r \<longleftrightarrow> r = [] \<or> \<not> num_char (hd r)"

lemma after_value_simps [simp]: "after_value []" "after_value (CHR '','' # r)" "after_value (CHR '']'' # r)" "after_value (CHR ''}'' # r)"
  by (simp_all add: after_value_def num_char_def is_digit_def byte_def)

lemma num_takeWhile: "list_all num_char t \<Longrightarrow> after_value r \<Longrightarrow> takeWhile num_char (t @ r) = t \<and> dropWhile num_char (t @ r) = r"
  by (induction t) (auto simp: after_value_def, (cases r; auto)+)

lemma nat_dec_lead: "hd (nat_dec n) = CHR ''0'' \<Longrightarrow> n = 0"
proof (induction n rule: nat_dec.induct)
  case (1 n)
  show ?case
  proof (cases "n < 10")
    case True
    with 1(2) show ?thesis using byte_char_of [of "48 + n"] by (simp add: nat_dec.simps [of n] char_of_iff byte_def)
  next
    case False
    with 1(2) have "hd (nat_dec (n div 10)) = CHR ''0''" by (simp add: nat_dec.simps [of n])
    with 1(1) False show ?thesis by auto
  qed
qed

lemma nat_dec_number: "takeWhile is_digit (nat_dec n) = nat_dec n" "dropWhile is_digit (nat_dec n) = []"
  "length (nat_dec n) = 1 \<or> hd (nat_dec n) \<noteq> CHR ''0''"
proof -
  show "takeWhile is_digit (nat_dec n) = nat_dec n" "dropWhile is_digit (nat_dec n) = []"
    using nat_dec_digits [of n] by (simp_all add: list_all_iff takeWhile_eq_all_conv)
  show "length (nat_dec n) = 1 \<or> hd (nat_dec n) \<noteq> CHR ''0''"
    using nat_dec_lead [of n] by (cases "n = 0") (auto simp: nat_dec.simps [of 0])
qed

lemma nat_dec_hd: "is_digit (hd (nat_dec n))"
  using nat_dec_digits [of n] nat_dec_nonempty [of n] by (cases "nat_dec n") auto

lemma int_dec_number: "is_number (int_dec i)" "list_all num_char (int_dec i)"
proof -
  have "\<not> HasPrefix (nat_dec n) ''-''" for n
    using nat_dec_hd [of n] minus_not_digit by (cases "nat_dec n") (auto simp: HasPrefix_def)
  then show "is_number (int_dec i)"
    using nat_dec_number(3) [of "nat i"] nat_dec_number(3) [of "nat (- i)"]
    by (auto simp: is_number_def int_dec_def HasPrefix_def nat_dec_number(1,2) Let_def)
  show "list_all num_char (int_dec i)"
    using nat_dec_digits by (auto simp: int_dec_def num_char_def list_all_iff)
qed

lemma parse_number: "after_value r \<Longrightarrow> parse_value (int_dec i @ r) = Some (TNum (int_dec i), r)"
proof -
  assume r: "after_value r"
  obtain c t where ct: "int_dec i = c # t" "c = CHR ''-'' \<or> is_digit c"
    using nat_dec_hd nat_dec_nonempty by (cases "int_dec i") (auto simp: int_dec_def split: if_splits, metis list.sel(1))
  then have "c \<notin> {CHR 0x22, CHR ''['', CHR ''{'', CHR ''n'', CHR ''t'', CHR ''f''}" "\<not> json_space c"
    by (auto simp: is_digit_def byte_def json_space_def)
  moreover have "takeWhile num_char (c # t @ r) = c # t" "dropWhile num_char (c # t @ r) = r"
    using num_takeWhile [OF int_dec_number(2) [of i] r] ct(1) by simp_all
  ultimately show ?thesis
    using int_dec_number(1) [of i] ct by (auto simp: parse_value.simps [of "c # t @ r"] HasPrefix_def)
qed

lemma parse_string: "valid_utf8 (map byte t) \<Longrightarrow> parse_value (json_string t @ r) = Some (TStr t, r)"
  by (simp add: json_string_def parse_value.simps [of "CHR 0x22 # _"] read_json_string)

lemma parse_elems_Join:
  assumes "xs \<noteq> []" and "\<And>x r. x \<in> set xs \<Longrightarrow> after_value r \<Longrightarrow> parse_value (enc x @ r) = Some (f x, r)"
  shows "parse_elems (Join (map enc xs) '','' @ CHR '']'' # r) = Some (map f xs, r)"
  using assms
proof (induction xs)
  case (Cons x xs)
  show ?case
  proof (cases xs)
    case Nil
    with Cons.prems show ?thesis by (subst parse_elems.simps) simp
  next
    case (Cons y ys)
    with Cons.IH Cons.prems show ?thesis by (subst parse_elems.simps) simp
  qed
qed simp

lemma Join_Cons_append: "Join (x # xs) sep = x @ (if xs = [] then [] else sep @ Join xs sep)"
  by (cases xs) auto

lemma parse_members_step:
  assumes "valid_utf8 (map byte k)"
  shows "parse_value (e @ CHR ''}'' # q) = Some (v, CHR ''}'' # q) \<Longrightarrow> parse_members (json_string k @ CHR '':'' # e @ CHR ''}'' # q) = Some ([(k, v)], q)"
    and "parse_value (e @ CHR '','' # t) = Some (v, CHR '','' # t) \<Longrightarrow> parse_members t = Some (ms, q)
           \<Longrightarrow> parse_members (json_string k @ CHR '':'' # e @ CHR '','' # t) = Some ((k, v) # ms, q)"
  by (subst parse_members.simps; simp add: json_string_def read_json_string [OF assms])+

lemma parse_members_Join:
  assumes "xs \<noteq> []" and "\<And>k x r. (k, x) \<in> set xs \<Longrightarrow> after_value r \<Longrightarrow> parse_value (enc x @ r) = Some (f x, r)"
    and "\<And>k x. (k, x) \<in> set xs \<Longrightarrow> valid_utf8 (map byte k)"
  shows "parse_members (Join (map (\<lambda>(k, x). json_string k @ '':'' @ enc x) xs) '','' @ CHR ''}'' # r) = Some (map (map_prod id f) xs, r)"
  using assms
proof (induction xs)
  case (Cons kx xs)
  obtain k x where kx: "kx = (k, x)" by force
  have key: "valid_utf8 (map byte k)" using Cons.prems(3) [of k x] kx by simp
  have val: "after_value s \<Longrightarrow> parse_value (enc x @ s) = Some (f x, s)" for s using Cons.prems(2) [of k x] kx by simp
  show ?case
  proof (cases "xs = []")
    case True
    with kx show ?thesis using parse_members_step(1) [OF key val] by simp
  next
    case False
    then have "parse_members (Join (map (\<lambda>(k, x). json_string k @ '':'' @ enc x) xs) '','' @ CHR ''}'' # r) = Some (map (map_prod id f) xs, r)"
      by (rule Cons.IH) (use Cons.prems(2,3) in \<open>meson list.set_intros(2)\<close>)+
    from parse_members_step(2) [OF key val this] False kx show ?thesis by (simp add: Join_Cons_append id_def)
  qed
qed simp

lemma parse_value_start: "parse_value s = Some x \<Longrightarrow> \<not> HasPrefix (skip_space s) '']''"
  by (auto simp: parse_value.simps [of s] HasPrefix_def is_number_def num_char_def is_digit_def byte_def split: list.splits)

lemma parse_members_start: "parse_members s = Some x \<Longrightarrow> \<not> HasPrefix (skip_space s) ''}''"
  by (auto simp: parse_members.simps [of s] HasPrefix_def split: list.splits)

lemma parse_elems_start: "parse_elems s = Some x \<Longrightarrow> \<not> HasPrefix (skip_space s) '']''"
  using parse_value_start by (auto simp: parse_elems.simps [of s] split: option.splits)

lemma parse_array:
  assumes "\<And>x r. x \<in> set xs \<Longrightarrow> after_value r \<Longrightarrow> parse_value (enc x @ r) = Some (f x, r)"
  shows "parse_value (json_array (map enc xs) @ r) = Some (TArr (map f xs), r)"
proof (cases "xs = []")
  case True
  then show ?thesis by (simp add: json_array_def parse_value.simps [of "CHR ''['' # _"] HasPrefix_def)
next
  case False
  let ?s = "Join (map enc xs) '','' @ CHR '']'' # r"
  have e: "parse_elems ?s = Some (map f xs, r)" using False assms by (rule parse_elems_Join)
  from parse_elems_start [OF e] e show ?thesis by (simp add: json_array_def parse_value.simps [of "CHR ''['' # _"])
qed

lemma parse_struct:
  assumes "\<And>k x r. (k, x) \<in> set xs \<Longrightarrow> after_value r \<Longrightarrow> parse_value (enc x @ r) = Some (f x, r)"
    and "\<And>k x. (k, x) \<in> set xs \<Longrightarrow> valid_utf8 (map byte k)"
  shows "parse_value (json_struct (map (map_prod id enc) xs) @ r) = Some (TObj (map (map_prod id f) xs), r)"
proof (cases "xs = []")
  case True
  then show ?thesis by (simp add: json_struct_def parse_value.simps [of "CHR ''{'' # _"] HasPrefix_def)
next
  case False
  let ?s = "Join (map (\<lambda>(k, x). json_string k @ '':'' @ enc x) xs) '','' @ CHR ''}'' # r"
  have t: "json_struct (map (map_prod id enc) xs) @ r = CHR ''{'' # ?s" by (simp add: json_struct_def comp_def case_prod_unfold)
  have m: "parse_members ?s = Some (map (map_prod id f) xs, r)" using False assms by (rule parse_members_Join)
  from parse_members_start [OF m] m show ?thesis unfolding t by (simp add: parse_value.simps [of "CHR ''{'' # _"])
qed

lemma parse_json_encode: "json_plain v \<Longrightarrow> after_value r \<Longrightarrow> parse_value (json_encode v @ r) = Some (json_tree v, r)"
proof (induction v arbitrary: r)
  case (JArr vs)
  then show ?case unfolding json_encode.simps json_tree.simps by (intro parse_array) (auto simp: list_all_iff)
next
  case (JObj kvs)
  show ?case unfolding json_encode.simps json_tree.simps json_object_def sort_key_map_prod
  proof (rule parse_struct)
    fix k x s assume kx: "(k, x) \<in> set (sort_key key_order kvs)" and s: "after_value s"
    then have "json_plain x" using JObj.prems(1) by (fastforce simp: list_all_iff)
    with JObj.IH [of "(k, x)" x s] kx s show "parse_value (json_encode x @ s) = Some (json_tree x, s)" by simp
  next
    fix k x assume "(k, x) \<in> set (sort_key key_order kvs)"
    then show "valid_utf8 (map byte k)" using JObj.prems(1) by (fastforce simp: list_all_iff)
  qed
qed (simp_all add: parse_number parse_string parse_value.simps [of "CHR ''n'' # _"] parse_value.simps [of "CHR ''t'' # _"]
       parse_value.simps [of "CHR ''f'' # _"] HasPrefix_def)

lemma json_read_encode: "json_plain v \<Longrightarrow> json_read (json_encode v) = Some (json_tree v)"
  using parse_json_encode [of v "[]"] by (simp add: json_read_def)

definition utf8_ok :: "string \<Rightarrow> bool" where
  "utf8_ok s \<longleftrightarrow> valid_utf8 (map byte s)"

lemma parse_words:
  "parse_value (''null'' @ r) = Some (TNull, r)" "parse_value (''true'' @ r) = Some (TBool True, r)" "parse_value (''false'' @ r) = Some (TBool False, r)"
  using parse_value.simps [of "''null'' @ r"] parse_value.simps [of "''true'' @ r"] parse_value.simps [of "''false'' @ r"]
  by (simp_all add: HasPrefix_def)

text \<open>A struct whose fields are given with their texts and the trees they are read as.\<close>

lemma parse_fields:
  assumes "list_all (\<lambda>(k, t, v). utf8_ok k \<and> (\<forall>r. after_value r \<longrightarrow> parse_value (t @ r) = Some (v, r))) fs"
  shows "parse_value (json_struct (map (\<lambda>(k, t, v). (k, t)) fs) @ r) = Some (TObj (map (\<lambda>(k, t, v). (k, v)) fs), r)"
proof -
  have f: "map (\<lambda>(k, t, v). (k, t)) fs = map (map_prod id fst) fs" "map (\<lambda>(k, t, v). (k, v)) fs = map (map_prod id snd) fs" by auto
  have "parse_value (json_struct (map (map_prod id fst) fs) @ r) = Some (TObj (map (map_prod id snd) fs), r)"
    using assms by (intro parse_struct) (auto simp: list_all_iff utf8_ok_def)
  then show ?thesis unfolding f .
qed

section \<open>One line\<close>

text \<open>The text of a value has no control character; in particular it has no line break.\<close>

definition printable :: "string \<Rightarrow> bool" where
  "printable t \<longleftrightarrow> list_all (\<lambda>c. 32 \<le> byte c) t"

lemma printable_simps [simp]:
  "printable []" "printable (c # t) \<longleftrightarrow> 32 \<le> byte c \<and> printable t" "printable (s @ t) \<longleftrightarrow> printable s \<and> printable t"
  by (auto simp: printable_def)

lemma printable_Join: "list_all printable xs \<Longrightarrow> printable sep \<Longrightarrow> printable (Join xs sep)"
  by (induction xs) (auto simp: Join_Cons_append)

lemma hex_digit_printable: "n < 16 \<Longrightarrow> 32 \<le> byte (hex_digit n)"
  by (simp add: hex_digit_def byte_char_of)

lemma printable_escapes: "printable (u_escape r)" "b < 128 \<Longrightarrow> printable (ascii_escape b)"
proof -
  show "printable (u_escape r)" for r by (simp add: u_escape_def hex_digit_printable) (simp add: byte_def)
  then show "b < 128 \<Longrightarrow> printable (ascii_escape b)"
    by (auto simp: ascii_escape_def byte_char_of) (simp_all add: byte_def)
qed

lemma printable_append_string: "printable (append_string bs)"
proof (induction bs rule: append_string.induct)
  case (2 b bs)
  have "printable (map char_of (b # take n bs))" if "utf8_multi b bs = Some (r, n)" for r n
    using utf8_multi_bytes [OF that] by (auto simp: printable_def list_all_iff byte_char_of)
  with 2 show ?case by (auto simp: printable_escapes split: option.splits)
qed simp

lemma printable_json_string: "printable (json_string s)"
  by (simp add: json_string_def printable_append_string)

lemma printable_int_dec: "printable (int_dec i)"
proof -
  have "printable (nat_dec n)" for n using nat_dec_digits [of n] by (auto simp: printable_def list_all_iff is_digit_def)
  then show ?thesis by (simp add: int_dec_def byte_def)
qed

primrec no_raw :: "json \<Rightarrow> bool" where
  "no_raw JNull = True"
| "no_raw (JBool b) = True"
| "no_raw (JInt i) = True"
| "no_raw (JStr s) = True"
| "no_raw (JArr vs) = list_all id (map no_raw vs)"
| "no_raw (JObj kvs) = list_all snd (map (map_prod id no_raw) kvs)"
| "no_raw (JRaw s) = False"

lemma plain_no_raw: "json_plain v \<Longrightarrow> no_raw v"
proof (induction v)
  case (JArr vs)
  then show ?case by (auto simp: list_all_iff)
next
  case (JObj kvs)
  then show ?case by (fastforce simp: list_all_iff)
qed simp_all

lemma json_encode_printable: "no_raw v \<Longrightarrow> printable (json_encode v)"
proof (induction v)
  case (JArr vs)
  then show ?case by (auto simp: json_array_def list_all_iff byte_def intro!: printable_Join)
next
  case (JObj kvs)
  then show ?case by (fastforce simp: json_object_def json_struct_def list_all_iff byte_def printable_json_string intro!: printable_Join)
qed (auto simp: printable_int_dec printable_json_string byte_def)

end
