(* ===== verification/Llm.thy ===== *)
theory Llm
  imports Go_Json
begin

text \<open>
  The chat client of \<open>internal/llm/client.go\<close>: one request per attempt, repeated on transport
  errors, unreadable bodies, status 429 and status 500 or more. The network is the parameter
  \<open>llm_world\<close>: what each attempt meets (the cancelled context while waiting, the error of
  \<open>http.NewRequest\<close>, the reply of \<open>client.Do\<close>), and \<open>json.Unmarshal\<close> into
  \<open>chatResponse\<close>, reduced to the error message and the contents of the choices. The result
  is \<open>None\<close> when the code panics: indexing the last byte of an empty \<open>BaseURL\<close>.
  Waiting itself is not modelled.
\<close>

record llm_client =
  BaseURL :: string
  APIKey :: string
  MaxRetries :: int

datatype llm_reply =
    DoError string
  | BodyError string
  | Reply nat string

record chat_response =
  choice_contents :: "string list"
  api_error :: "string option"

record llm_world =
  ctx_done :: "nat \<Rightarrow> err"
  request_err :: "string \<Rightarrow> err"
  transport :: "nat \<Rightarrow> llm_reply"
  unmarshal_chat :: "string \<Rightarrow> chat_response res"

record llm_request =
  req_url :: string
  req_type :: string
  req_auth :: string
  req_body :: string

text \<open>
  The texts of \<open>chatMessage\<close> and \<open>chatRequest\<close>; a false \<open>stream\<close> and a zero \<open>temperature\<close> (\<open>None\<close>) are
  left out. The request has one message of the user.
\<close>

definition chatMessage_json :: "string \<Rightarrow> string \<Rightarrow> string" where
  "chatMessage_json role content = json_struct [(''role'', json_string role), (''content'', json_string content)]"

definition chatRequest_json :: "string \<Rightarrow> string list \<Rightarrow> bool \<Rightarrow> string option \<Rightarrow> string" where
  "chatRequest_json model messages stream temp =
     json_struct ([(''model'', json_string model), (''messages'', json_array messages)]
       @ (if stream then [(''stream'', ''true'')] else [])
       @ (case temp of None \<Rightarrow> [] | Some t \<Rightarrow> [(''temperature'', t)]))"

definition chat_body :: "string \<Rightarrow> string \<Rightarrow> string" where
  "chat_body model userPrompt = chatRequest_json model [chatMessage_json ''user'' userPrompt] False (Some ''0.1'')"

definition chat_url :: "string \<Rightarrow> string" where
  "chat_url base = (if last base = CHR ''/'' then butlast base else base) @ ''/chat/completions''"

definition retries_of :: "llm_client \<Rightarrow> nat" where
  "retries_of c = (if MaxRetries c \<le> 0 then 3 else nat (MaxRetries c))"

text \<open>What one reply means: \<open>Inl e\<close>, try again and remember \<open>e\<close>; \<open>Inr r\<close>, return \<open>r\<close>.\<close>

definition judge_reply :: "llm_world \<Rightarrow> llm_reply \<Rightarrow> string res res" where
  "judge_reply w r =
     (case r of
        DoError e \<Rightarrow> Inl e
      | BodyError e \<Rightarrow> Inl (''read body: '' @ e)
      | Reply code b \<Rightarrow>
          if code = 429 \<or> code \<ge> 500 then Inl (''upstream '' @ nat_dec code)
          else if code \<noteq> 200 then Inr (Inl (''upstream '' @ nat_dec code @ '': '' @ b))
          else (case unmarshal_chat w b of
                  Inl e \<Rightarrow> Inr (Inl e)
                | Inr out \<Rightarrow>
                    (case api_error out of
                       Some m \<Rightarrow> Inr (Inl (''api error: '' @ m))
                     | None \<Rightarrow>
                         (case choice_contents out of
                            [] \<Rightarrow> Inr (Inl ''empty choices'')
                          | c # _ \<Rightarrow> Inr (Inr c)))))"

text \<open>The loop from attempt \<open>k\<close> with \<open>n\<close> attempts left and the last error.\<close>

fun chat_loop :: "llm_world \<Rightarrow> llm_request \<Rightarrow> nat \<Rightarrow> nat \<Rightarrow> err \<Rightarrow> string res \<times> llm_request list" where
  "chat_loop w rq k 0 lastErr = (Inl (case lastErr of Some e \<Rightarrow> e | None \<Rightarrow> ''exhausted retries''), [])"
| "chat_loop w rq k (Suc n) lastErr =
     (case (if k > 0 then ctx_done w k else None) of
        Some e \<Rightarrow> (Inl e, [])
      | None \<Rightarrow>
          (case request_err w (req_url rq) of
             Some e \<Rightarrow> (Inl e, [])
           | None \<Rightarrow>
               (case judge_reply w (transport w k) of
                  Inr r \<Rightarrow> (r, [rq])
                | Inl e \<Rightarrow> (case chat_loop w rq (Suc k) n (Some e) of (r, sent) \<Rightarrow> (r, rq # sent)))))"

definition ChatCompletion :: "llm_world \<Rightarrow> llm_client \<Rightarrow> string \<Rightarrow> string \<Rightarrow> string res option \<times> llm_request list" where
  "ChatCompletion w c model userPrompt =
     (if APIKey c = [] then (Some (Inl ''missing API key''), [])
      else if BaseURL c = [] then (None, [])
      else (case chat_loop w \<lparr>req_url = chat_url (BaseURL c), req_type = ''application/json'', req_auth = ''Bearer '' @ APIKey c,
                      req_body = chat_body model userPrompt\<rparr>
                    0 (retries_of c) None of
              (r, sent) \<Rightarrow> (Some r, sent)))"

lemma ChatCompletion_no_panic:
  assumes "BaseURL c \<noteq> []"
  shows "\<exists>r. fst (ChatCompletion w c model prompt) = Some r"
  using assms by (simp add: ChatCompletion_def split: prod.split)

section \<open>The request\<close>

text \<open>Whatever the prompt contains, it is the content of the only message: it cannot add fields or messages.\<close>

definition chat_tree :: "string \<Rightarrow> string \<Rightarrow> jtree" where
  "chat_tree model userPrompt =
     TObj [(''model'', TStr model), (''messages'', TArr [TObj [(''role'', TStr ''user''), (''content'', TStr userPrompt)]]), (''temperature'', TNum ''0.1'')]"

lemma chat_keys_utf8 [simp]:
  "utf8_ok ''model''" "utf8_ok ''messages''" "utf8_ok ''temperature''" "utf8_ok ''role''" "utf8_ok ''content''" "utf8_ok ''user''"
  by (simp_all add: utf8_ok_def byte_def)

lemma parse_utf8: "utf8_ok s \<Longrightarrow> parse_value (json_string s @ r) = Some (TStr s, r)"
  by (simp add: utf8_ok_def parse_string)

lemma parse_temperature: "after_value r \<Longrightarrow> parse_value (''0.1'' @ r) = Some (TNum ''0.1'', r)"
proof -
  assume "after_value r"
  moreover have "list_all num_char ''0.1''" "is_number ''0.1''" "\<not> json_space CHR ''0''" by code_simp+
  ultimately show ?thesis
    using num_takeWhile [of "''0.1''" r] parse_value.simps [of "''0.1'' @ r"] by (simp add: HasPrefix_def)
qed

lemma json_read_chat_body:
  assumes "utf8_ok model" and "utf8_ok prompt"
  shows "json_read (chat_body model prompt) = Some (chat_tree model prompt)"
proof -
  let ?m = "json_struct [(''role'', json_string ''user''), (''content'', json_string prompt)]"
  let ?t = "TObj [(''role'', TStr ''user''), (''content'', TStr prompt)]"
  have "parse_value (?m @ r) = Some (?t, r)" for r
    using assms(2) parse_fields [of "[(''role'', json_string ''user'', TStr ''user''), (''content'', json_string prompt, TStr prompt)]" r]
    by (simp add: parse_utf8)
  then have "parse_value (json_array [?m] @ r) = Some (TArr [?t], r)" for r
    using parse_array [of "[()]" "\<lambda>_. ?m" "\<lambda>_. ?t" r] by simp
  then have "parse_value (chat_body model prompt @ []) = Some (chat_tree model prompt, [])"
    using assms(1) parse_temperature parse_fields [of "[(''model'', json_string model, TStr model), (''messages'', json_array [?m], TArr [?t]),
      (''temperature'', ''0.1'', TNum ''0.1'')]" "[]"]
    by (simp add: chat_body_def chatRequest_json_def chatMessage_json_def chat_tree_def parse_utf8)
  then show ?thesis by (simp add: json_read_def)
qed

section \<open>Retries\<close>

lemma chat_loop_sent: "set (snd (chat_loop w rq k n l)) \<subseteq> {rq} \<and> length (snd (chat_loop w rq k n l)) \<le> n"
  by (induction w rq k n l rule: chat_loop.induct) (auto split: option.splits sum.splits prod.splits)

text \<open>With a live context and a good address, the loop stops at the first conclusive reply.\<close>

lemma chat_loop_conclusive:
  assumes "\<And>i. ctx_done w i = None" and "request_err w (req_url rq) = None"
    and "\<And>i. i < m \<Longrightarrow> \<exists>e. judge_reply w (transport w (k + i)) = Inl e"
    and "judge_reply w (transport w (k + m)) = Inr r" and "m < n"
  shows "chat_loop w rq k n l = (r, replicate (Suc m) rq)"
  using assms(3-)
proof (induction m arbitrary: k n l)
  case 0
  then show ?case using assms(1,2) by (cases n) auto
next
  case (Suc m)
  obtain n' where n: "n = Suc n'" using Suc.prems(3) by (cases n) auto
  obtain e where e: "judge_reply w (transport w k) = Inl e" using Suc.prems(1) [of 0] by auto
  have "\<exists>e. judge_reply w (transport w (Suc k + i)) = Inl e" if "i < m" for i
    using Suc.prems(1) [of "Suc i"] that by simp
  then have "chat_loop w rq (Suc k) n' (Some e) = (r, replicate (Suc m) rq)"
    using Suc.prems n by (intro Suc.IH) auto
  then show ?case using assms(1,2) n e by (cases k) simp_all
qed

lemma chat_loop_exhausted:
  assumes "\<And>i. ctx_done w i = None" and "request_err w (req_url rq) = None"
    and "\<And>i. i < n \<Longrightarrow> judge_reply w (transport w (k + i)) = Inl (e i)"
  shows "chat_loop w rq k n l = (Inl (if n = 0 then (case l of Some x \<Rightarrow> x | None \<Rightarrow> ''exhausted retries'') else e (n - 1)), replicate n rq)"
  using assms(3)
proof (induction n arbitrary: k l e)
  case (Suc n)
  have "judge_reply w (transport w (Suc k + i)) = Inl ((e \<circ> Suc) i)" if "i < n" for i
    using Suc.prems [of "Suc i"] that by simp
  from Suc.IH [of "Suc k" "e \<circ> Suc", OF this] Suc.prems [of 0] show ?case
    using assms(1,2) by (cases n) auto
qed simp

text \<open>The verdict of \<open>n\<close> attempts: the first conclusive reply, or the last failure.\<close>

definition first_verdict :: "llm_world \<Rightarrow> nat \<Rightarrow> string res \<times> nat" where
  "first_verdict w n =
     (case List.find (\<lambda>k. \<not> isl (judge_reply w (transport w k))) [0..<n] of
        Some k \<Rightarrow> (projr (judge_reply w (transport w k)), Suc k)
      | None \<Rightarrow> (Inl (projl (judge_reply w (transport w (n - 1)))), n))"

lemma chat_loop_verdict:
  assumes "\<And>i. ctx_done w i = None" and "request_err w (req_url rq) = None" and "n > 0"
  shows "chat_loop w rq 0 n None = (fst (first_verdict w n), replicate (snd (first_verdict w n)) rq)"
proof (cases "List.find (\<lambda>k. \<not> isl (judge_reply w (transport w k))) [0..<n]")
  case None
  then have "judge_reply w (transport w (0 + i)) = Inl (projl (judge_reply w (transport w i)))" if "i < n" for i
    using that by (auto simp: find_None_iff)
  from chat_loop_exhausted [of w rq n 0, OF assms(1,2) this] None assms(3) show ?thesis by (simp add: first_verdict_def)
next
  case (Some k)
  then have k: "k < n" "\<not> isl (judge_reply w (transport w k))" and before: "\<And>i. i < k \<Longrightarrow> isl (judge_reply w (transport w i))"
    by (auto simp: find_Some_iff)
  have "\<exists>e. judge_reply w (transport w (0 + i)) = Inl e" if "i < k" for i
    using before [OF that] by (cases "judge_reply w (transport w i)") auto
  with k(2) have "chat_loop w rq 0 n None = (projr (judge_reply w (transport w k)), replicate (Suc k) rq)"
    by (intro chat_loop_conclusive [OF assms(1,2) _ _ k(1)]) auto
  with Some show ?thesis by (simp add: first_verdict_def)
qed

text \<open>
  C25. The chat client retries and gives up as it should. Whatever the network does, it sends at
  most \<open>MaxRetries\<close> requests (three when that is not positive), all of them the same request,
  with the bearer key and a body that any JSON reader reads as the given model and, as the only
  message, the given prompt. While the context lives, the answer is the verdict on the first reply that
  is neither a transport error nor 429 nor 5xx, and later attempts are not made; when every attempt
  fails that way, it is the last attempt's error.
\<close>

theorem ChatCompletion_retries:
  assumes "APIKey c \<noteq> []" and "BaseURL c \<noteq> []"
  shows "\<exists>rq. set (snd (ChatCompletion w c model prompt)) \<subseteq> {rq} \<and> req_auth rq = ''Bearer '' @ APIKey c
           \<and> (utf8_ok model \<and> utf8_ok prompt \<longrightarrow> json_read (req_body rq) = Some (chat_tree model prompt))
           \<and> length (snd (ChatCompletion w c model prompt)) \<le> retries_of c
           \<and> ((\<forall>i. ctx_done w i = None) \<and> request_err w (req_url rq) = None \<longrightarrow>
                ChatCompletion w c model prompt
                = (Some (fst (first_verdict w (retries_of c))), replicate (snd (first_verdict w (retries_of c))) rq))"
proof -
  let ?rq = "\<lparr>req_url = chat_url (BaseURL c), req_type = ''application/json'', req_auth = ''Bearer '' @ APIKey c, req_body = chat_body model prompt\<rparr>"
  let ?l = "chat_loop w ?rq 0 (retries_of c) None"
  have run: "ChatCompletion w c model prompt = (Some (fst ?l), snd ?l)"
    using assms by (simp add: ChatCompletion_def split: prod.splits)
  have "retries_of c > 0" by (simp add: retries_of_def)
  from chat_loop_verdict [of w ?rq, OF _ _ this]
  have "(\<forall>i. ctx_done w i = None) \<and> request_err w (req_url ?rq) = None \<longrightarrow>
          (Some (fst ?l), snd ?l) = (Some (fst (first_verdict w (retries_of c))), replicate (snd (first_verdict w (retries_of c))) ?rq)"
    by simp
  with chat_loop_sent [of w ?rq 0 "retries_of c" None] show ?thesis
    unfolding run by (intro exI [of _ ?rq]) (simp add: json_read_chat_body)
qed

text \<open>Two failures and then an answer.\<close>

definition demo_llm :: llm_client where
  "demo_llm = \<lparr>BaseURL = ''http://llm/v1/'', APIKey = ''k'', MaxRetries = 0\<rparr>"

definition demo_llm_world :: llm_world where
  "demo_llm_world =
     \<lparr>ctx_done = \<lambda>_. None, request_err = \<lambda>_. None,
      transport = (\<lambda>k. if k = 0 then DoError ''refused'' else if k = 1 then Reply 503 [] else Reply 200 ''{}''),
      unmarshal_chat = \<lambda>_. Inr \<lparr>choice_contents = [''hi''], api_error = None\<rparr>\<rparr>"

theorem ChatCompletion_retries_witness:
  "\<exists>rq. ChatCompletion demo_llm_world demo_llm ''m'' ''p'' = (Some (Inr ''hi''), [rq, rq, rq])"
proof -
  have v: "first_verdict demo_llm_world 3 = (Inr ''hi'', 3)"
    by (simp add: first_verdict_def demo_llm_world_def judge_reply_def upt_rec)
  have "retries_of demo_llm = 3" by (simp add: retries_of_def demo_llm_def)
  with v ChatCompletion_retries [of demo_llm demo_llm_world "''m''" "''p''"] show ?thesis
    by (auto simp: demo_llm_def demo_llm_world_def numeral_3_eq_3)
qed

end
