(* ===== verification/Go_Path.thy ===== *)
theory Go_Path
  imports Go_Strings
begin

text \<open>
  The functions of Go's \<open>path/filepath\<close> the hub uses, on Unix: \<open>Ext\<close>, \<open>Clean\<close> and
  \<open>Join\<close>. \<open>Clean\<close> reads the elements of a path from left to right and keeps the elements
  of the result on a stack: empty elements and \<open>.\<close> vanish, \<open>..\<close> removes the last element
  unless that is itself \<open>..\<close> or the path is rooted and has none.
\<close>

text \<open>From the last dot of the last path element on.\<close>

definition filepath_Ext :: "string \<Rightarrow> string" where
  "filepath_Ext path =
     (let base = rev (takeWhile (\<lambda>c. c \<noteq> CHR ''/'') (rev path));
          tail = rev (takeWhile (\<lambda>c. c \<noteq> CHR ''.'') (rev base))
      in if CHR ''.'' \<in> set base then CHR ''.'' # tail else [])"

abbreviation dotdot :: string where
  "dotdot \<equiv> ''..''"

text \<open>One element on the stack, whose top is its head.\<close>

definition clean_step :: "bool \<Rightarrow> string list \<Rightarrow> string \<Rightarrow> string list" where
  "clean_step rooted st x =
     (if x = [] \<or> x = ''.'' then st
      else if x = dotdot then
        (case st of
           [] \<Rightarrow> if rooted then [] else [dotdot]
         | y # st' \<Rightarrow> if y = dotdot then dotdot # st else st')
      else x # st)"

definition rooted_path :: "string \<Rightarrow> bool" where
  "rooted_path p \<longleftrightarrow> HasPrefix p ''/''"

definition clean_elems :: "string \<Rightarrow> string list" where
  "clean_elems p = rev (foldl (clean_step (rooted_path p)) [] (Split p CHR ''/''))"

definition filepath_Clean :: "string \<Rightarrow> string" where
  "filepath_Clean p =
     (let body = Join (clean_elems p) ''/'' in
      if rooted_path p then CHR ''/'' # body else if body = [] then ''.'' else body)"

definition filepath_Join :: "string list \<Rightarrow> string" where
  "filepath_Join elems =
     (case dropWhile (\<lambda>x. x = []) elems of
        [] \<Rightarrow> []
      | es \<Rightarrow> filepath_Clean (Join es ''/''))"

section \<open>Splitting and joining\<close>

lemma Split_cons_sep: "Split (a @ sep # b) sep = Split a sep @ Split b sep"
  by (induction a) (auto split: list.splits)

lemma Split_atom: "sep \<notin> set x \<Longrightarrow> Split x sep = [x]"
  by (induction x) auto

lemma Split_Join_atoms: "xs \<noteq> [] \<Longrightarrow> list_all (\<lambda>x. sep \<notin> set x) xs \<Longrightarrow> Split (Join xs [sep]) sep = xs"
  by (induction xs "[sep]" rule: Join.induct) (auto simp: Split_atom Split_cons_sep)

text \<open>A stack as \<open>Clean\<close> leaves it: proper elements, and \<open>..\<close> only at the bottom of a relative path.\<close>

definition clean_stack :: "bool \<Rightarrow> string list \<Rightarrow> bool" where
  "clean_stack rooted st \<longleftrightarrow>
     list_all (\<lambda>x. x \<noteq> [] \<and> x \<noteq> ''.'' \<and> CHR ''/'' \<notin> set x) st
     \<and> (\<exists>n ys. st = ys @ replicate n dotdot \<and> dotdot \<notin> set ys \<and> (rooted \<longrightarrow> n = 0))"

lemma clean_step_stack: "clean_stack rooted st \<Longrightarrow> CHR ''/'' \<notin> set x \<Longrightarrow> clean_stack rooted (clean_step rooted st x)"
proof -
  assume a: "clean_stack rooted st" "CHR ''/'' \<notin> set x"
  then obtain n ys where st: "st = ys @ replicate n dotdot" "dotdot \<notin> set ys" "rooted \<longrightarrow> n = 0"
    by (auto simp: clean_stack_def)
  consider "x = [] \<or> x = ''.''" | "x = dotdot" "ys = []" | y ys' where "x = dotdot" "ys = y # ys'" | "x \<noteq> []" "x \<noteq> ''.''" "x \<noteq> dotdot"
    by (cases ys) auto
  then show ?thesis
  proof cases
    case 1
    with a show ?thesis by (auto simp: clean_step_def)
  next
    case 2
    show ?thesis
    proof (cases rooted)
      case True
      with 2 st a show ?thesis by (simp add: clean_step_def)
    next
      case False
      have "clean_step rooted st x = replicate (Suc n) dotdot" using 2 st False by (cases n) (auto simp: clean_step_def)
      then show ?thesis unfolding clean_stack_def using False
        by (intro conjI exI [of _ "Suc n"] exI [of _ "[]"]) (auto simp: list_all_iff simp del: replicate.simps)
    qed
  next
    case (3 y ys')
    then have "clean_step rooted st x = ys' @ replicate n dotdot" using st by (auto simp: clean_step_def)
    with 3 st a show ?thesis by (auto simp: clean_stack_def)
  next
    case 4
    then have "clean_step rooted st x = (x # ys) @ replicate n dotdot" using st by (simp add: clean_step_def)
    with 4 st a show ?thesis unfolding clean_stack_def
      by (intro conjI exI [of _ n] exI [of _ "x # ys"]) auto
  qed
qed

lemma clean_fold_stack:
  "clean_stack rooted st \<Longrightarrow> list_all (\<lambda>x. CHR ''/'' \<notin> set x) xs \<Longrightarrow> clean_stack rooted (foldl (clean_step rooted) st xs)"
  by (induction xs arbitrary: st) (auto simp: clean_step_stack)

lemma Split_atoms: "list_all (\<lambda>x. sep \<notin> set x) (Split p sep)"
  by (auto simp: list_all_iff dest: Split_no_sep)

lemma clean_stack_Nil: "clean_stack rooted []"
  by (auto simp: clean_stack_def)

text \<open>Reading back a clean stack rebuilds it.\<close>

lemma clean_fold_again: "clean_stack rooted st \<Longrightarrow> foldl (clean_step rooted) [] (rev st) = st"
proof (induction st)
  case (Cons x st)
  from Cons.prems obtain n ys where st: "x # st = ys @ replicate n dotdot" "dotdot \<notin> set ys" "rooted \<longrightarrow> n = 0"
    unfolding clean_stack_def by blast
  have ok: "list_all (\<lambda>x. x \<noteq> [] \<and> x \<noteq> ''.'' \<and> CHR ''/'' \<notin> set x) (x # st)" using Cons.prems by (simp add: clean_stack_def)
  have rest: "clean_stack rooted st"
  proof (cases ys)
    case Nil
    then obtain m where "n = Suc m" "st = replicate m dotdot" using st by (cases n) auto
    then show ?thesis using ok st unfolding clean_stack_def by (intro conjI exI [of _ m] exI [of _ "[]"]) auto
  next
    case (Cons y ys')
    then show ?thesis using ok st unfolding clean_stack_def by (intro conjI exI [of _ n] exI [of _ ys']) auto
  qed
  have "clean_step rooted st x = x # st"
  proof (cases "x = dotdot")
    case True
    with st have "ys = []" by (cases ys) auto
    with st True obtain m where "\<not> rooted" "st = replicate m dotdot" by (cases n) auto
    then show ?thesis using True by (cases m) (auto simp: clean_step_def)
  next
    case False
    with ok show ?thesis by (simp add: clean_step_def)
  qed
  with Cons.IH [OF rest] show ?case by simp
qed simp

lemma clean_elems_stack: "clean_stack (rooted_path p) (rev (clean_elems p))"
  unfolding clean_elems_def using clean_fold_stack [OF clean_stack_Nil Split_atoms] by simp

lemma rooted_iff: "rooted_path p \<longleftrightarrow> (\<exists>q. p = CHR ''/'' # q)"
  by (auto simp: rooted_path_def HasPrefix_def prefix_def)

lemma clean_elems_rooted: "clean_elems (CHR ''/'' # q) = rev (foldl (clean_step True) [] (Split q CHR ''/''))"
proof -
  have "rooted_path (CHR ''/'' # q)" by (simp add: rooted_iff)
  moreover have "Split (CHR ''/'' # q) CHR ''/'' = [] # Split q CHR ''/''"
    using Split_cons_sep [of "[]"] by simp
  moreover have "clean_step True [] [] = []" by (simp add: clean_step_def)
  ultimately show ?thesis by (simp add: clean_elems_def)
qed

text \<open>Appending an element to a cleaned path is appending it to the path.\<close>

lemma clean_elems_append:
  assumes "p \<noteq> []"
  shows "clean_elems (p @ CHR ''/'' # x) = rev (foldl (clean_step (rooted_path p)) (rev (clean_elems p)) (Split x CHR ''/''))"
proof -
  have "rooted_path (p @ CHR ''/'' # x) = rooted_path p" using assms by (cases p) (auto simp: rooted_iff)
  then show ?thesis by (simp add: clean_elems_def Split_cons_sep)
qed

lemma clean_elems_Clean: "clean_elems (filepath_Clean p) = clean_elems p \<and> rooted_path (filepath_Clean p) = rooted_path p"
proof -
  let ?es = "clean_elems p"
  have ok: "list_all (\<lambda>x. x \<noteq> [] \<and> x \<noteq> ''.'' \<and> CHR ''/'' \<notin> set x) ?es"
    using clean_elems_stack [of p] by (simp add: clean_stack_def)
  have body: "Split (Join ?es ''/'') CHR ''/'' = (if ?es = [] then [[]] else ?es)"
  proof (cases "?es = []")
    case False
    have "list_all (\<lambda>x. CHR ''/'' \<notin> set x) ?es" using ok by (simp add: list_all_iff)
    with Split_Join_atoms [OF False] False show ?thesis by simp
  qed simp
  have again: "foldl (clean_step (rooted_path p)) [] ?es = rev ?es"
    using clean_fold_again [OF clean_elems_stack [of p]] by simp
  show ?thesis
  proof (cases "rooted_path p")
    case True
    then have c: "filepath_Clean p = CHR ''/'' # Join ?es ''/''" by (simp add: filepath_Clean_def Let_def)
    have "clean_elems (filepath_Clean p) = rev (foldl (clean_step True) [] (if ?es = [] then [[]] else ?es))"
      unfolding c clean_elems_rooted body ..
    also have "\<dots> = ?es"
      using again True by (simp add: clean_step_def)
    finally show ?thesis using True by (simp add: c rooted_iff)
  next
    case False
    show ?thesis
    proof (cases "?es = []")
      case True
      then show ?thesis using False by (simp add: filepath_Clean_def clean_elems_def [of "''.''"] clean_step_def rooted_iff)
    next
      case ne: False
      then obtain e es where e: "?es = e # es" by (cases ?es) auto
      then have "e \<noteq> [] \<and> CHR ''/'' \<notin> set e" using ok by simp
      then obtain c cs where cs: "e = c # cs" "c \<noteq> CHR ''/''" by (cases e) auto
      have c: "filepath_Clean p = Join ?es ''/''" using False e cs by (cases es) (simp_all add: filepath_Clean_def Let_def)
      have "\<not> rooted_path (Join ?es ''/'')" using e cs by (cases es) (simp_all add: rooted_iff)
      then show ?thesis using False c body again ne by (simp add: clean_elems_def [of "Join ?es ''/''"])
    qed
  qed
qed

lemma filepath_Clean_nonempty [simp]: "filepath_Clean p \<noteq> []"
  by (simp add: filepath_Clean_def Let_def)

text \<open>Joining in two steps is joining at once, and a plain name stays below its directory.\<close>

lemma rooted_append: "p \<noteq> [] \<Longrightarrow> rooted_path (p @ q) = rooted_path p"
  by (cases p) (auto simp: rooted_iff)

lemma Clean_Clean_append: "p \<noteq> [] \<Longrightarrow> filepath_Clean (filepath_Clean p @ CHR ''/'' # c) = filepath_Clean (p @ CHR ''/'' # c)"
proof -
  assume p: "p \<noteq> []"
  note c = clean_elems_Clean [of p]
  have "clean_elems (filepath_Clean p @ CHR ''/'' # c) = clean_elems (p @ CHR ''/'' # c)"
    using c p clean_elems_append [of p] clean_elems_append [of "filepath_Clean p"] by simp
  then show ?thesis
    using c p by (simp add: filepath_Clean_def [of "_ @ _ # c"] rooted_append)
qed

lemma Join_Join:
  assumes "a \<noteq> []"
  shows "filepath_Join [filepath_Join [a, b], c] = filepath_Join [a, b, c]"
  using assms Clean_Clean_append [of "a @ CHR ''/'' # b" c] by (simp add: filepath_Join_def)

lemma Join_name:
  assumes "a \<noteq> []" and "CHR ''/'' \<notin> set f" and "f \<noteq> []" and "f \<noteq> ''.''" and "f \<noteq> dotdot"
  shows "clean_elems (filepath_Join [a, f]) = clean_elems a @ [f]"
proof -
  have "clean_elems (a @ CHR ''/'' # f) = clean_elems a @ [f]"
    using assms by (simp add: clean_elems_append Split_atom clean_step_def)
  then show ?thesis using assms(1) clean_elems_Clean [of "a @ CHR ''/'' # f"] by (simp add: filepath_Join_def)
qed

end
