(* ===== verification/Data.thy ===== *)
theory Data
  imports Tables Sql_File Csv Llm Go_Path
begin

text \<open>
  Data import and the SQL terminal: the handlers of \<open>internal/handlers/data.go\<close>. They read
  the platform database (\<open>env\<close> numbers its calls: 0 the access check, 1 the table or dataset,
  2 the fields), take a pool from the connection manager and send statements to it; beside the
  answer they return the manager and the statements with the pool they went to. What the pool
  answers to its \<open>k\<close>-th call is the parameter \<open>data_server\<close>, which also has the order in
  which Go ranges over a row. A multipart form is given
  decoded. A panic is answered by chi's \<open>Recoverer\<close>: status 500 without a body.
\<close>

section \<open>Types\<close>

datatype data_call = Plain dbcall | Insert string "string list"

record data_server =
  srv_my :: mysql_server
  srv_pool :: "nat \<Rightarrow> nat \<Rightarrow> pool"
  srv_order :: "string list \<Rightarrow> string list"
  srv_insert :: "nat \<Rightarrow> nat \<Rightarrow> string \<Rightarrow> string list \<Rightarrow> int res"

type_synonym data_result = "response \<times> manager \<times> (nat \<times> data_call) list"

record uploadForm =
  FileData :: string
  FileName :: string
  form_dataset :: string
  form_table :: string
  Operation :: string
  AIHint :: string

record multipart =
  mp_err :: err
  mp_file :: "(string \<times> string res) option"
  mp_value :: "string \<Rightarrow> string"

record columnValidation =
  cv_ok :: bool
  cv_error :: string
  cv_map :: "(string \<times> string) list option"
  cv_warnings :: "string list"

text \<open>
  The service behind the column check: the client (\<open>nil\<close> when absent), the network, the
  model name, \<open>json.Unmarshal\<close> into a \<open>columnValidation\<close>, and the order in which Go
  ranges over a map, which is any enumeration of its entries.
\<close>

record column_ai =
  ai_client :: "llm_client option"
  ai_world :: llm_world
  ai_model :: string
  ai_unmarshal :: "string \<Rightarrow> columnValidation res"
  range_of :: "(string \<times> string) list \<Rightarrow> (string \<times> string) list"

section \<open>Forms\<close>

definition parseUploadForm :: "multipart \<Rightarrow> uploadForm res" where
  "parseUploadForm r =
     (case mp_err r of
        Some _ \<Rightarrow> Inl ''file too large or parse failed''
      | None \<Rightarrow>
          (case mp_file r of
             None \<Rightarrow> Inl ''missing file field''
           | Some (name, Inl _) \<Rightarrow> Inl ''failed to read file''
           | Some (name, Inr content) \<Rightarrow>
               (let op0 = TrimSpace (mp_value r ''operation'');
                    op = (if op0 = [] then ''insert'' else op0)
                in if op \<noteq> ''insert'' \<and> op \<noteq> ''update'' then Inl ''operation must be insert or update''
                   else Inr \<lparr>FileData = content, FileName = name,
                             form_dataset = TrimSpace (mp_value r ''dataset_id''),
                             form_table = TrimSpace (mp_value r ''table_id''),
                             Operation = op, AIHint = TrimSpace (mp_value r ''ai_hint'')\<rparr>)))"

section \<open>Columns\<close>

definition getDatasetTableFields :: "env \<Rightarrow> nat \<Rightarrow> string \<Rightarrow> platform \<Rightarrow> (string \<times> string) list res" where
  "getDatasetTableFields e k tableID db =
     (case query e k (table_fields tableID db) of
        Inl m \<Rightarrow> Inl m
      | Inr rows0 \<Rightarrow>
          (let rows = rows_next e k rows0 in
           if scan_fails e k rows then Inl ''sql: Scan error''
           else (case rows_Err e k of
                   Some m \<Rightarrow> Inl (''iterate table fields: '' @ m)
                 | None \<Rightarrow>
                     (let cols = fold (\<lambda>f. AList.update (ToLower (tf_name f)) (ToLower (tf_type f))) rows []
                      in if cols = [] then Inl ''table has no fields defined'' else Inr cols))))"

definition mapKeys :: "(string \<times> string) list \<Rightarrow> string list" where
  "mapKeys m = map fst m"

fun check_columns :: "column_ai \<Rightarrow> (string \<times> string) list \<Rightarrow> string list \<Rightarrow> (string \<times> string) list \<Rightarrow> columnValidation" where
  "check_columns ai target [] cm = \<lparr>cv_ok = True, cv_error = [], cv_map = Some cm, cv_warnings = []\<rparr>"
| "check_columns ai target (uc # ucs) cm =
     (let lc = ToLower (TrimSpace uc) in
      if map_of target lc \<noteq> None then check_columns ai target ucs (AList.update uc lc cm)
      else \<lparr>cv_ok = False,
            cv_error = ''column '' @ uc @ '' not found in target table, available columns: [''
                       @ Join (mapKeys (range_of ai target)) '' '' @ '']'',
            cv_map = None, cv_warnings = []\<rparr>)"

definition basicColumnCheck :: "column_ai \<Rightarrow> string list \<Rightarrow> (string \<times> string) list \<Rightarrow> columnValidation" where
  "basicColumnCheck ai uploadCols targetCols = check_columns ai targetCols uploadCols []"

definition extractJSON :: "string \<Rightarrow> string" where
  "extractJSON s0 =
     (let s = TrimSpace s0;
          s1 = (if HasPrefix s ''```''
                then (let a = (case Index s [newline] of
                                 Some idx \<Rightarrow> if idx > 0 then drop (idx + 1) s else drop 3 s
                               | None \<Rightarrow> drop 3 s)
                      in if HasSuffix a ''```'' then take (length a - 3) a else a)
                else s)
      in TrimSpace s1)"

text \<open>The prompt, in UTF-8.\<close>

definition prompt_target :: string where
  "prompt_target =
     map char_of [228, 189, 160, 230, 152, 175, 228, 184, 128, 228, 184, 170, 230, 149, 176, 230, 141, 174,
     229, 186, 147, 229, 136, 151, 229, 144, 141, 230, 160, 161, 233, 170, 140, 228, 184, 147, 229, 174, 182,
     227, 128, 130, 231, 155, 174, 230, 160, 135, 232, 161, 168, 230, 156, 137, 228, 187, 165, 228, 184, 139,
     229, 136, 151, 239, 188, 154 :: nat]"

definition prompt_upload :: string where
  "prompt_upload =
     map char_of [10, 228, 184, 138, 228, 188, 160, 230, 150, 135, 228, 187, 182, 229, 140, 133, 229, 144,
     171, 228, 187, 165, 228, 184, 139, 229, 136, 151, 229, 144, 141, 239, 188, 154 :: nat]"

definition prompt_hint :: string where
  "prompt_hint =
     map char_of [10 :: nat]"

definition prompt_task :: string where
  "prompt_task =
     map char_of [10, 10, 232, 175, 183, 229, 136, 164, 230, 150, 173, 228, 184, 138, 228, 188, 160, 229, 136,
     151, 229, 144, 141, 232, 131, 189, 229, 144, 166, 229, 140, 185, 233, 133, 141, 229, 136, 176, 231, 155,
     174, 230, 160, 135, 232, 161, 168, 231, 154, 132, 229, 136, 151, 227, 128, 130, 229, 144, 140, 228, 184,
     128, 228, 184, 170, 230, 132, 143, 230, 128, 157, 228, 184, 141, 229, 144, 140, 230, 139, 188, 229, 134,
     153, 239, 188, 136, 229, 166, 130, 32, 34, 105, 100, 34, 32, 118, 115, 32, 34, 73, 68, 34, 227, 128, 129,
     34, 231, 148, 168, 230, 136, 183, 229, 144, 141, 34, 32, 118, 115, 32, 34, 117, 115, 101, 114, 110, 97,
     109, 101, 34, 239, 188, 137, 229, 177, 158, 228, 186, 142, 230, 173, 163, 229, 184, 184, 229, 140, 185,
     233, 133, 141, 227, 128, 130, 10, 229, 166, 130, 230, 158, 156, 230, 152, 175, 231, 172, 148, 232, 175,
     175, 239, 188, 136, 229, 166, 130, 230, 139, 188, 229, 134, 153, 233, 148, 153, 232, 175, 175, 239, 188,
     137, 239, 188, 140, 232, 175, 183, 229, 156, 168, 233, 148, 153, 232, 175, 175, 228, 184, 173, 230, 140,
     135, 229, 135, 186, 230, 173, 163, 231, 161, 174, 229, 136, 151, 229, 144, 141, 227, 128, 130, 10, 10,
     232, 191, 148, 229, 155, 158, 32, 74, 83, 79, 78, 239, 188, 136, 228, 187, 133, 32, 74, 83, 79, 78, 239,
     188, 140, 230, 151, 160, 229, 133, 182, 228, 187, 150, 230, 150, 135, 229, 173, 151, 239, 188, 137, 239,
     188, 154, 10, 123, 34, 111, 107, 34, 58, 32, 116, 114, 117, 101, 47, 102, 97, 108, 115, 101, 44, 32, 34,
     101, 114, 114, 111, 114, 34, 58, 32, 34, 233, 148, 153, 232, 175, 175, 232, 175, 180, 230, 152, 142, 239,
     188, 136, 111, 107, 228, 184, 186, 102, 97, 108, 115, 101, 230, 151, 182, 229, 161, 171, 229, 134, 153,
     239, 188, 137, 34, 44, 32, 34, 99, 111, 108, 117, 109, 110, 95, 109, 97, 112, 34, 58, 32, 123, 34, 228,
     184, 138, 228, 188, 160, 229, 136, 151, 229, 144, 141, 34, 58, 32, 34, 231, 155, 174, 230, 160, 135, 232,
     161, 168, 229, 136, 151, 229, 144, 141, 34, 125, 44, 32, 34, 119, 97, 114, 110, 105, 110, 103, 115, 34,
     58, 32, 91, 34, 230, 179, 168, 230, 132, 143, 233, 161, 185, 34, 93, 125 :: nat]"

definition hint_label :: string where
  "hint_label =
     map char_of [10, 231, 148, 168, 230, 136, 183, 230, 143, 144, 231, 164, 186, 239, 188, 154 :: nat]"

definition column_prompt :: "column_ai \<Rightarrow> uploadForm \<Rightarrow> string list \<Rightarrow> (string \<times> string) list \<Rightarrow> string" where
  "column_prompt ai form cols targetCols =
     (let targetColsList = map (\<lambda>(name, typ). name @ '' ('' @ typ @ '')'') (range_of ai targetCols);
          hint = (if AIHint form = [] then [] else hint_label @ AIHint form)
      in prompt_target @ Join targetColsList '', '' @ prompt_upload @ Join cols '', '' @ prompt_hint @ hint @ prompt_task)"

text \<open>\<open>None\<close> is the panic of the chat client.\<close>

definition validateColumns :: "column_ai \<Rightarrow> uploadForm \<Rightarrow> parseResult \<Rightarrow> (string \<times> string) list \<Rightarrow> columnValidation res option" where
  "validateColumns ai form parsed targetCols =
     (case ai_client ai of
        None \<Rightarrow> Some (Inr (basicColumnCheck ai (Columns parsed) targetCols))
      | Some c \<Rightarrow>
          if APIKey c = [] then Some (Inr (basicColumnCheck ai (Columns parsed) targetCols))
          else (case fst (ChatCompletion (ai_world ai) c (ai_model ai) (column_prompt ai form (Columns parsed) targetCols)) of
                  None \<Rightarrow> None
                | Some (Inl m) \<Rightarrow> Some (Inl m)
                | Some (Inr resp) \<Rightarrow>
                    (case ai_unmarshal ai (extractJSON resp) of
                       Inl m \<Rightarrow> Some (Inl (''AI returned unexpected format: '' @ m))
                     | Inr v \<Rightarrow> Some (Inr v))))"

section \<open>Import\<close>

definition insert_sql :: "string \<Rightarrow> string list \<Rightarrow> (string \<times> string) list \<Rightarrow> string" where
  "insert_sql table cols colMap =
     (let targetCols = map (\<lambda>c. case map_of colMap c of Some m \<Rightarrow> m | None \<Rightarrow> c) cols;
          placeholders = map (\<lambda>_. ''?'') cols
      in ''INSERT INTO `'' @ table @ ''` ('' @ Join targetCols '', '' @ '') VALUES ('' @ Join placeholders '', '' @ '')'')"

fun insert_rows :: "(nat \<Rightarrow> string \<Rightarrow> string list \<Rightarrow> int res) \<Rightarrow> string \<Rightarrow> nat \<Rightarrow> string list list \<Rightarrow> int \<Rightarrow> data_call list \<times> int res" where
  "insert_rows ins sqlStr k [] totalAffected = ([], Inr totalAffected)"
| "insert_rows ins sqlStr k (row # rows) totalAffected =
     (case ins k sqlStr row of
        Inl m \<Rightarrow> ([Insert sqlStr row], Inl (''row '' @ int_dec (totalAffected + 1) @ '' insert failed: '' @ m))
      | Inr n \<Rightarrow> (case insert_rows ins sqlStr (Suc k) rows (totalAffected + n) of
                    (calls, r) \<Rightarrow> (Insert sqlStr row # calls, r)))"

definition executeMySQLInsert ::
  "(nat \<Rightarrow> string \<Rightarrow> string list \<Rightarrow> int res) \<Rightarrow> string \<Rightarrow> string list \<Rightarrow> string list list \<Rightarrow> (string \<times> string) list \<Rightarrow> data_call list \<times> int res" where
  "executeMySQLInsert ins table cols rows colMap = insert_rows ins (insert_sql table cols colMap) 0 rows 0"

definition sql_file_json :: "sqlFileResult \<Rightarrow> json" where
  "sql_file_json r =
     JObj ([(''ok'', JBool (sf_ok r)), (''rows_affected'', JInt (sf_rows r)), (''total_statements'', JInt (int (sf_total r))),
            (''succeeded'', JInt (int (sf_succeeded r))), (''failed'', JInt (int (sf_failed r)))]
           @ (if sf_errors r = [] then [] else [(''errors'', JArr (map JStr (sf_errors r)))]))"

definition validation_json :: "columnValidation \<Rightarrow> json" where
  "validation_json v =
     JObj ([(''ok'', JBool (cv_ok v))] @ omitempty ''error'' (cv_error v)
           @ [(''column_map'', case cv_map v of None \<Rightarrow> JNull | Some m \<Rightarrow> JObj (map (\<lambda>(k, x). (k, JStr x)) m))]
           @ (if cv_warnings v = [] then [] else [(''warnings'', JArr (map JStr (cv_warnings v)))]))"

definition panicked :: response where
  "panicked = JSON StatusInternalServerError JNull"

definition parse_upload :: "excelize \<Rightarrow> string \<Rightarrow> string \<Rightarrow> parseResult res option" where
  "parse_upload x ext content =
     (if ext = ''.csv'' then Some (parseCSV content)
      else if ext = ''.xlsx'' then Some (parseXLSX x content) else None)"

text \<open>The part of \<open>uploadToDataset\<close> after the file was parsed.\<close>

definition import_rows :: "env \<Rightarrow> data_server \<Rightarrow> column_ai \<Rightarrow> uploadForm \<Rightarrow> string \<Rightarrow> nat \<Rightarrow> parseResult \<Rightarrow> platform \<Rightarrow> response \<times> data_call list" where
  "import_rows e srv ai form mysqlTableName pool parsed db =
     (case getDatasetTableFields e 2 (form_table form) db of
        Inl m \<Rightarrow> (errJSON StatusBadRequest (''cannot read table fields: '' @ m), [])
      | Inr targetCols \<Rightarrow>
          (case validateColumns ai form parsed targetCols of
             None \<Rightarrow> (panicked, [])
           | Some v0 \<Rightarrow>
               (let validation = (case v0 of Inl _ \<Rightarrow> basicColumnCheck ai (Columns parsed) targetCols | Inr v \<Rightarrow> v) in
                if \<not> cv_ok validation then (errJSON StatusBadRequest (cv_error validation), [])
                else (case executeMySQLInsert (srv_insert srv pool) mysqlTableName (Columns parsed) (pRows parsed) (case cv_map validation of None \<Rightarrow> [] | Some m \<Rightarrow> m) of
                        (calls, Inl m) \<Rightarrow> (errJSON StatusInternalServerError (''data import failed: '' @ m), calls)
                      | (calls, Inr affected) \<Rightarrow>
                          (JSON StatusOK (JObj [(''ok'', JBool True), (''rows_affected'', JInt affected), (''validation'', validation_json validation)]), calls)))))"

definition uploadToDataset :: "env \<Rightarrow> data_server \<Rightarrow> column_ai \<Rightarrow> excelize \<Rightarrow> uploadForm \<Rightarrow> Claims \<Rightarrow> platform \<Rightarrow> manager \<Rightarrow> data_result" where
  "uploadToDataset e srv ai x form c db mgr =
     (if \<not> hasDatasetAccess e 0 (UserID c) (form_dataset form) (Role c) db then (errJSON StatusForbidden ''no access to this dataset'', mgr, [])
      else (case query_row e 1 [(d_mysql d, dt_mysql t). t \<leftarrow> dtables db, d \<leftarrow> datasets db,
                   d_id d = dt_dataset t \<and> dt_id t = form_table form \<and> dt_dataset t = form_dataset form \<and> dt_status t = ''active''] of
              Inl _ \<Rightarrow> (errJSON StatusNotFound ''table not found in dataset'', mgr, [])
            | Inr (mysqlDB, mysqlTableName) \<Rightarrow>
                (let ext = ToLower (filepath_Ext (FileName form)) in
                 case pool_for (srv_my srv) (form_dataset form) mysqlDB mgr of
                   (Inl _, mgr') \<Rightarrow> (errJSON StatusInternalServerError ''failed to connect to dataset database'', mgr', [])
                 | (Inr pool, mgr') \<Rightarrow>
                     if ext = ''.sql'' then
                       (case executeSQLFile (srv_pool srv pool) (FileData form) of
                          (calls, result) \<Rightarrow> (JSON StatusOK (sql_file_json result), mgr', map (\<lambda>k. (pool, Plain k)) calls))
                     else (case parse_upload x ext (FileData form) of
                             None \<Rightarrow> (errJSON StatusBadRequest ''unsupported file type, only .csv / .xlsx / .sql are supported'', mgr', [])
                           | Some (Inl m) \<Rightarrow> (errJSON StatusBadRequest (''file parse failed: '' @ m), mgr', [])
                           | Some (Inr parsed) \<Rightarrow>
                               (case import_rows e srv ai form mysqlTableName pool parsed db of
                                  (r, calls) \<Rightarrow> (r, mgr', map (\<lambda>k. (pool, k)) calls))))))"

definition UploadData :: "env \<Rightarrow> data_server \<Rightarrow> column_ai \<Rightarrow> excelize \<Rightarrow> Claims option \<Rightarrow> multipart \<Rightarrow> platform \<Rightarrow> manager \<Rightarrow> data_result" where
  "UploadData e srv ai x co r db mgr =
     (case co of
        None \<Rightarrow> (errJSON StatusUnauthorized ''unauthorized'', mgr, [])
      | Some c \<Rightarrow>
          (case IsAllowedForRole SQLTypeInsert (Role c) of
             Some _ \<Rightarrow> (errJSON StatusForbidden ''insufficient permissions to import data'', mgr, [])
           | None \<Rightarrow>
               (case parseUploadForm r of
                  Inl m \<Rightarrow> (errJSON StatusBadRequest m, mgr, [])
                | Inr form \<Rightarrow> uploadToDataset e srv ai x form c db mgr)))"

section \<open>SQL terminal\<close>

definition explainValidate :: "string \<Rightarrow> pool \<Rightarrow> dbcall list \<times> err" where
  "explainValidate sql p =
     (let explainSQL = ''EXPLAIN '' @ sql in
      ([Query explainSQL], case pool_query p explainSQL of Inl m \<Rightarrow> Some m | Inr _ \<Rightarrow> None))"

definition getDatasetPool :: "env \<Rightarrow> data_server \<Rightarrow> string \<Rightarrow> platform \<Rightarrow> manager \<Rightarrow> nat res \<times> manager" where
  "getDatasetPool e srv datasetID db mgr =
     (case GetPool datasetID mgr of
        Some p \<Rightarrow> (Inr p, mgr)
      | None \<Rightarrow>
          (case query_row e 1 (map d_mysql (filter (\<lambda>d. d_id d = datasetID \<and> d_status d = ''active'') (datasets db))) of
             Inl _ \<Rightarrow> (Inl ''dataset not found or inactive'', mgr)
           | Inr mysqlDB \<Rightarrow> Connect (srv_my srv) datasetID mysqlDB mgr))"

text \<open>A scanned value as \<open>encoding/json\<close> writes it; the driver's texts are \<open>[]byte\<close>, written in base64.\<close>

definition val_json :: "dbval \<Rightarrow> json" where
  "val_json v = (case v of DbNull \<Rightarrow> JNull | DbInt i \<Rightarrow> JInt i | DbStr s \<Rightarrow> JStr (base64 s) | DbText s \<Rightarrow> JStr s)"

definition row_json :: "row \<Rightarrow> json" where
  "row_json r = JObj (map (\<lambda>(k, v). (k, val_json v)) r)"

abbreviation terminal_maxRows :: nat where
  "terminal_maxRows \<equiv> 500"

definition select_json :: "(string list \<Rightarrow> string list) \<Rightarrow> row list \<Rightarrow> json" where
  "select_json order rows =
     (let columns = (case rows of [] \<Rightarrow> [] | r # _ \<Rightarrow> order (map fst r));
          totalCount = length rows;
          truncated = totalCount > terminal_maxRows;
          displayRows = (if truncated then take terminal_maxRows rows else rows)
      in JObj [(''ok'', JBool True), (''type'', JStr ''select''), (''columns'', json_slice (map JStr columns)),
               (''rows'', JArr (map row_json displayRows)), (''total_count'', JInt (int totalCount)), (''truncated'', JBool truncated)])"

definition terminal_select :: "(string list \<Rightarrow> string list) \<Rightarrow> (nat \<Rightarrow> pool) \<Rightarrow> string \<Rightarrow> response \<times> dbcall list" where
  "terminal_select order pool_at sql =
     (case explainValidate sql (pool_at 0) of
        (calls, Some m) \<Rightarrow> (errJSON StatusBadRequest (''syntax error: '' @ m), calls)
      | (calls, None) \<Rightarrow>
          (case QueryRows (pool_at 1) sql (int terminal_maxRows + 1) of
             (calls', Inl m) \<Rightarrow> (errJSON StatusBadRequest (''query failed: '' @ m), calls @ calls')
           | (calls', Inr rows) \<Rightarrow> (JSON StatusOK (select_json order rows), calls @ calls')))"

definition terminal_write :: "(nat \<Rightarrow> pool) \<Rightarrow> SQLType \<Rightarrow> string \<Rightarrow> response \<times> dbcall list" where
  "terminal_write pool_at st sql =
     (case ExecuteWrite (pool_at 0) sql of
        (calls, Inl m) \<Rightarrow> (errJSON StatusBadRequest (''execute failed: '' @ m), calls)
      | (calls, Inr affected) \<Rightarrow>
          (JSON StatusOK (JObj [(''ok'', JBool True), (''type'', JStr (ToLower (sqltype_str st))), (''rows_affected'', JInt affected)]), calls))"

definition ExecuteDataSQL :: "env \<Rightarrow> data_server \<Rightarrow> Claims option \<Rightarrow> (string \<times> string) option \<Rightarrow> platform \<Rightarrow> manager \<Rightarrow> data_result" where
  "ExecuteDataSQL e srv co bo db mgr =
     (case co of
        None \<Rightarrow> (errJSON StatusUnauthorized ''unauthorized'', mgr, [])
      | Some c \<Rightarrow>
          (case IsAllowedForRole SQLTypeInsert (Role c) of
             Some _ \<Rightarrow> (errJSON StatusForbidden ''insufficient permissions to execute SQL'', mgr, [])
           | None \<Rightarrow>
               (case bo of
                  None \<Rightarrow> (errJSON StatusBadRequest ''invalid payload'', mgr, [])
                | Some (did0, sql0) \<Rightarrow>
                    (let sql = TrimSpace sql0; datasetID = TrimSpace did0 in
                     if sql = [] \<or> datasetID = [] then (errJSON StatusBadRequest ''dataset_id and sql are required'', mgr, [])
                     else if \<not> hasDatasetAccess e 0 (UserID c) datasetID (Role c) db
                     then (errJSON StatusForbidden ''no access to this dataset'', mgr, [])
                     else (case validateSQLTerminal sql of
                             (st, Some m) \<Rightarrow> (errJSON StatusBadRequest m, mgr, [])
                           | (st, None) \<Rightarrow>
                               (case getDatasetPool e srv datasetID db mgr of
                                  (Inl m, mgr') \<Rightarrow> (errJSON StatusInternalServerError m, mgr', [])
                                | (Inr pool, mgr') \<Rightarrow>
                                    (case (if st = SQLTypeSelect then terminal_select (srv_order srv) (srv_pool srv pool) sql
                                           else terminal_write (srv_pool srv pool) st sql) of
                                       (r, calls) \<Rightarrow> (r, mgr', map (\<lambda>k. (pool, Plain k)) calls))))))))"

section \<open>Pools\<close>

lemma getDatasetPool_cases:
  "getDatasetPool e srv d db mgr = (r, mgr') \<Longrightarrow>
     (\<exists>n. pool_for (srv_my srv) d n mgr = (r, mgr')) \<or> (r = Inl ''dataset not found or inactive'' \<and> mgr' = mgr)"
  by (auto simp: getDatasetPool_def pool_for_def split: option.splits sum.splits)

interpretation terminal: pool_source "getDatasetPool e srv d db" d for e srv d db
proof unfold_locales
  show "mgr_inv (snd (getDatasetPool e srv d db m))" if "mgr_inv m" for m
  proof (cases "getDatasetPool e srv d db m")
    case (Pair r m')
    then show ?thesis using getDatasetPool_cases [OF Pair] that cached.get_inv [OF that] by (metis snd_conv)
  qed
  show "pools m' d = Some p" if "getDatasetPool e srv d db m = (Inr p, m')" for m p m'
    using getDatasetPool_cases [OF that] cached.get_cached by (metis sum.simps(4))
  show "pools m' = pools m" if "getDatasetPool e srv d db m = (Inl x, m')" for m x m'
    using getDatasetPool_cases [OF that] cached.get_failed by metis
qed

section \<open>The terminal\<close>

text \<open>The statements the terminal may send for a text.\<close>

definition terminal_call :: "string \<Rightarrow> data_call \<Rightarrow> bool" where
  "terminal_call sql k =
     (case k of
        Plain (Query q) \<Rightarrow>
          ClassifySQL sql = SQLTypeSelect
          \<and> (q = ''EXPLAIN '' @ sql \<or> IsReadOnlySQL (trim_stmt sql) = None \<and> q = wrap_limit (trim_stmt sql) 501)
      | Plain (Exec s) \<Rightarrow>
          s = trim_stmt sql
          \<and> (ClassifySQL sql = SQLTypeInsert \<or> ClassifySQL sql = SQLTypeUpdate \<and> Contains (ToUpper sql) ''WHERE'')
      | Insert _ _ \<Rightarrow> False)"

lemma terminal_select_calls:
  "terminal_select order pool_at sql = (r, calls) \<Longrightarrow> ClassifySQL sql = SQLTypeSelect \<Longrightarrow> k \<in> set calls \<Longrightarrow> terminal_call sql (Plain k)"
  by (auto simp: terminal_select_def explainValidate_def QueryRows_def Let_def terminal_call_def
      split: prod.splits option.splits sum.splits)

lemma terminal_write_calls:
  "terminal_write pool_at st sql = (r, calls) \<Longrightarrow> k \<in> set calls \<Longrightarrow> k = Exec (trim_stmt sql)"
  by (auto simp: terminal_write_def ExecuteWrite_def Let_def split: sum.splits)

lemma ExecuteDataSQL_calls:
  assumes "ExecuteDataSQL e srv co (Some (did, sql)) db mgr = (r, mgr', log)" and "(p, k) \<in> set log"
  shows "\<exists>c. co = Some c \<and> IsAllowedForRole SQLTypeInsert (Role c) = None
           \<and> hasDatasetAccess e 0 (UserID c) (TrimSpace did) (Role c) db
           \<and> getDatasetPool e srv (TrimSpace did) db mgr = (Inr p, mgr') \<and> terminal_call (TrimSpace sql) k"
proof -
  obtain c st pool where c: "co = Some c" "IsAllowedForRole SQLTypeInsert (Role c) = None"
      "hasDatasetAccess e 0 (UserID c) (TrimSpace did) (Role c) db"
    and v: "validateSQLTerminal (TrimSpace sql) = (st, None)"
    and g: "getDatasetPool e srv (TrimSpace did) db mgr = (Inr pool, mgr')"
    and l: "(r, log) = (case (if st = SQLTypeSelect then terminal_select (srv_order srv) (srv_pool srv pool) (TrimSpace sql)
              else terminal_write (srv_pool srv pool) st (TrimSpace sql)) of (r, calls) \<Rightarrow> (r, map (\<lambda>k. (pool, Plain k)) calls))"
    using assms by (auto simp: ExecuteDataSQL_def Let_def split: option.splits if_splits prod.splits sum.splits)
  from v have st: "st = ClassifySQL (TrimSpace sql)" "st \<in> {SQLTypeSelect, SQLTypeInsert, SQLTypeUpdate}"
      "st = SQLTypeUpdate \<longrightarrow> Contains (ToUpper (TrimSpace sql)) ''WHERE''"
    by (auto simp: validateSQLTerminal_None)
  have "p = pool \<and> terminal_call (TrimSpace sql) k"
  proof (cases "st = SQLTypeSelect")
    case True
    with l assms(2) st(1) show ?thesis by (auto split: prod.splits intro: terminal_select_calls)
  next
    case False
    with l assms(2) have "p = pool \<and> k = Plain (Exec (trim_stmt (TrimSpace sql)))"
      by (auto split: prod.splits dest: terminal_write_calls)
    with st False show ?thesis by (auto simp: terminal_call_def)
  qed
  with c g show ?thesis by blast
qed

lemma IsAllowed_insert: "IsAllowedForRole SQLTypeInsert role = None \<Longrightarrow> MinRole ''normal_user'' role"
  by (auto simp: IsAllowedForRole_def MinRole_level split: if_splits)

text \<open>
  C14. What the SQL terminal sends. Every statement goes to the cached, open pool of the named
  dataset, for a caller with at least the role \<open>normal_user\<close> and access to that dataset, and is
  one of three kinds: \<open>EXPLAIN\<close> of a text that begins as a query; that text as the read-only
  wrapper limited to 501 rows, free of write keywords; or the text itself, an \<open>INSERT\<close> or an
  \<open>UPDATE\<close> that contains \<open>WHERE\<close>. Nothing is ever deleted, dropped, altered or truncated by a
  statement that begins as such.
\<close>

theorem ExecuteDataSQL_guarded:
  assumes "ExecuteDataSQL e srv co (Some (did, sql)) db mgr = (r, mgr', log)" and "(p, k) \<in> set log" and "mgr_inv mgr"
  shows "(\<exists>c. co = Some c \<and> MinRole ''normal_user'' (Role c) \<and> hasDatasetAccess e 0 (UserID c) (TrimSpace did) (Role c) db)
         \<and> pools mgr' (TrimSpace did) = Some p \<and> p \<notin> mclosed mgr' \<and> terminal_call (TrimSpace sql) k"
proof -
  from ExecuteDataSQL_calls [OF assms(1,2)] obtain c where c: "co = Some c" "IsAllowedForRole SQLTypeInsert (Role c) = None"
      "hasDatasetAccess e 0 (UserID c) (TrimSpace did) (Role c) db" "terminal_call (TrimSpace sql) k"
    and g: "getDatasetPool e srv (TrimSpace did) db mgr = (Inr p, mgr')" by blast
  show ?thesis using c IsAllowed_insert [OF c(2)] terminal.live [OF assms(3) g] by blast
qed

definition demo_data_server :: data_server where
  "demo_data_server =
     \<lparr>srv_my = calm_server, srv_pool = (\<lambda>_ _. \<lparr>pool_query = (\<lambda>q. Inl ''no server''), pool_exec = (\<lambda>s. Inr 1)\<rparr>),
      srv_order = (\<lambda>xs. xs), srv_insert = (\<lambda>_ _ _ _. Inr 1)\<rparr>"

lemma demo_terminal_text:
  "TrimSpace ''insert into t values (1)'' = ''insert into t values (1)''" "TrimSpace ''d1'' = ''d1''"
  "ClassifySQL ''insert into t values (1)'' = SQLTypeInsert" "trim_stmt ''insert into t values (1)'' = ''insert into t values (1)''"
  by (simp_all add: go_str classify_eval trim_stmt_def TrimSuffix_def suffix_def)

lemma demo_terminal:
  "\<exists>r mgr'. ExecuteDataSQL calm_env demo_data_server (Some (demo_super ''a'')) (Some (''d1'', ''insert into t values (1)'')) (demo_ds_db []) demo_mgr
     = (r, mgr', [(0, Plain (Exec ''insert into t values (1)''))])"
proof -
  have v: "validateSQLTerminal ''insert into t values (1)'' = (SQLTypeInsert, None)"
    by (simp add: validateSQLTerminal_None demo_terminal_text)
  have acc: "hasDatasetAccess calm_env 0 ''a'' ''d1'' ''super_admin'' (demo_ds_db [])" by (simp add: hasDatasetAccess_def)
  have role: "IsAllowedForRole SQLTypeInsert ''super_admin'' = None" by (simp add: IsAllowedForRole_def)
  have pool: "\<exists>m. getDatasetPool calm_env demo_data_server ''d1'' (demo_ds_db []) demo_mgr = (Inr 0, m)"
    by (simp add: getDatasetPool_def GetPool_def demo_mgr_def NewManager_def query_row_def demo_ds_db_def demo_dataset_def Connect_def
        demo_data_server_def calm_server_def Let_def)
  show ?thesis
    using pool v acc role
    by (auto simp: ExecuteDataSQL_def demo_terminal_text Let_def terminal_write_def ExecuteWrite_def demo_data_server_def)
qed

theorem ExecuteDataSQL_guarded_witness: "terminal_call ''insert into t values (1)'' (Plain (Exec ''insert into t values (1)''))"
proof -
  obtain r mgr' where run: "ExecuteDataSQL calm_env demo_data_server (Some (demo_super ''a'')) (Some (''d1'', ''insert into t values (1)''))
      (demo_ds_db []) demo_mgr = (r, mgr', [(0, Plain (Exec ''insert into t values (1)''))])" using demo_terminal by blast
  have "mgr_inv demo_mgr" by (simp add: demo_mgr_def mgr_inv_New)
  with ExecuteDataSQL_guarded [OF run] show ?thesis by (simp add: demo_terminal_text)
qed

text \<open>At most 500 rows are shown, and \<open>truncated\<close> says whether there were more.\<close>

lemma select_json_rows:
  "\<exists>shown columns. select_json order rows = JObj [(''ok'', JBool True), (''type'', JStr ''select''), (''columns'', columns),
       (''rows'', JArr (map row_json shown)), (''total_count'', JInt (int (length rows))), (''truncated'', JBool (length rows > 500))]
     \<and> length shown \<le> 500 \<and> prefix shown rows \<and> (length rows \<le> 500 \<longrightarrow> shown = rows)"
  by (auto simp: select_json_def Let_def take_is_prefix)

section \<open>Imports\<close>

lemma insert_rows_calls:
  "insert_rows ins sqlStr k rows n = (calls, r) \<Longrightarrow>
     \<exists>m. calls = map (Insert sqlStr) (take m rows) \<and> (\<forall>x. r = Inr x \<longrightarrow> m = length rows) \<and> m \<le> length rows"
proof (induction ins sqlStr k rows n arbitrary: calls r rule: insert_rows.induct)
  case (2 ins sqlStr k row rows n)
  show ?case
  proof (cases "ins k sqlStr row")
    case (Inl m)
    with 2 show ?thesis by (auto intro!: exI [of _ 1])
  next
    case (Inr a)
    then obtain calls' where l: "insert_rows ins sqlStr (Suc k) rows (n + a) = (calls', r)" "calls = Insert sqlStr row # calls'"
      using 2(2) by (auto split: prod.splits)
    from 2(1) [OF Inr l(1)] obtain m where "calls' = map (Insert sqlStr) (take m rows)"
        "\<forall>x. r = Inr x \<longrightarrow> m = length rows" "m \<le> length rows" by blast
    then show ?thesis using l(2) by (intro exI [of _ "Suc m"]) simp
  qed
qed simp

lemma insert_rows_total:
  assumes "\<And>k row. ins k sqlStr row = Inr 1"
  shows "insert_rows ins sqlStr k rows n = (map (Insert sqlStr) rows, Inr (n + int (length rows)))"
  using assms by (induction rows arbitrary: k n) auto

lemma check_columns_ok:
  "cv_ok (check_columns ai target ucs cm) \<Longrightarrow>
     \<exists>cm'. cv_map (check_columns ai target ucs cm) = Some cm'
       \<and> (\<forall>c. map_of cm' c = (if c \<in> set ucs then Some (ToLower (TrimSpace c)) else map_of cm c))
       \<and> (\<forall>c \<in> set ucs. map_of target (ToLower (TrimSpace c)) \<noteq> None)"
  by (induction ai target ucs cm rule: check_columns.induct)
    (auto simp: Let_def update_conv' split: if_splits)

text \<open>The basic check sends every column of the file to its lowered name, a column of the table.\<close>

lemma basicColumnCheck_map:
  assumes "cv_ok (basicColumnCheck ai cols target)" and "c \<in> set cols"
  shows "\<exists>cm. cv_map (basicColumnCheck ai cols target) = Some cm \<and> map_of cm c = Some (ToLower (TrimSpace c))
         \<and> ToLower (TrimSpace c) \<in> fst ` set target"
  using check_columns_ok [of ai target cols "[]"] assms
  by (auto simp: basicColumnCheck_def dest!: bspec [of _ _ c]) (metis fst_conv image_iff map_of_SomeD)

lemma fold_update_keys: "fst ` set (fold (\<lambda>f. AList.update (g f) (h f)) xs al) = g ` set xs \<union> fst ` set al"
  by (induction xs arbitrary: al) (auto simp: dom_update)

lemma getDatasetTableFields_names:
  assumes "getDatasetTableFields e k tid db = Inr cols"
  shows "set (map fst cols) \<subseteq> (\<lambda>f. ToLower (tf_name f)) ` set (table_fields tid db)"
proof -
  have "cols = fold (\<lambda>f. AList.update (ToLower (tf_name f)) (ToLower (tf_type f))) (rows_next e k (table_fields tid db)) []"
    using assms by (auto simp: getDatasetTableFields_def Let_def query_Inr_iff split: sum.splits if_splits option.splits)
  then have "fst ` set cols = (\<lambda>f. ToLower (tf_name f)) ` set (rows_next e k (table_fields tid db))"
    by (simp add: fold_update_keys)
  then show ?thesis using rows_next_subset [of e k "table_fields tid db"] by auto
qed

text \<open>
  Where the columns of an import come from. The check of the code maps every column of the file to
  its lowered name, a field of the table; it decides when there is no client of a language model or
  the client has no key, and when the question to the model fails. Otherwise the model decides: the
  map is the one of an answer that says \<open>ok\<close>, and nothing compares it with the fields.
\<close>

definition columns_checked :: "string list \<Rightarrow> string set \<Rightarrow> (string \<times> string) list \<Rightarrow> bool" where
  "columns_checked cols flds cm \<longleftrightarrow> (\<forall>c \<in> set cols. map_of cm c = Some (ToLower (TrimSpace c)) \<and> ToLower (TrimSpace c) \<in> flds)"

definition columns_from_model :: "column_ai \<Rightarrow> uploadForm \<Rightarrow> string list \<Rightarrow> (string \<times> string) list \<Rightarrow> bool" where
  "columns_from_model ai form cols cm \<longleftrightarrow>
     (\<exists>l target answer v. ai_client ai = Some l \<and> APIKey l \<noteq> []
        \<and> fst (ChatCompletion (ai_world ai) l (ai_model ai) (column_prompt ai form cols target)) = Some (Inr answer)
        \<and> ai_unmarshal ai (extractJSON answer) = Inr v \<and> cv_ok v \<and> cm = (case cv_map v of None \<Rightarrow> [] | Some m \<Rightarrow> m))"

lemma validateColumns_cases:
  assumes "validateColumns ai form parsed target = Some r"
  shows "isl r \<or> r = Inr (basicColumnCheck ai (Columns parsed) target)
    \<or> (\<exists>v. r = Inr v \<and> (cv_ok v \<longrightarrow> columns_from_model ai form (Columns parsed) (case cv_map v of None \<Rightarrow> [] | Some m \<Rightarrow> m)))"
proof (cases "\<exists>l. ai_client ai = Some l \<and> APIKey l \<noteq> []")
  case True
  then obtain l where l: "ai_client ai = Some l" "APIKey l \<noteq> []" by blast
  show ?thesis
  proof (cases r)
    case (Inr v)
    with assms l have "\<exists>answer. fst (ChatCompletion (ai_world ai) l (ai_model ai) (column_prompt ai form (Columns parsed) target)) = Some (Inr answer)
        \<and> ai_unmarshal ai (extractJSON answer) = Inr v"
      by (auto simp: validateColumns_def split: option.splits sum.splits)
    with l Inr show ?thesis unfolding columns_from_model_def by blast
  qed simp
qed (use assms in \<open>auto simp: validateColumns_def split: option.splits\<close>)

text \<open>The statements of an import of rows: one text for the first rows of the file, their values as arguments.\<close>

lemma import_rows_calls:
  assumes "import_rows e srv ai form table pool parsed db = (r, calls)"
  shows "calls = [] \<or> (\<exists>cm m. calls = map (Insert (insert_sql table (Columns parsed) cm)) (take m (pRows parsed))
     \<and> (status r = StatusOK \<longrightarrow> m = length (pRows parsed))
     \<and> (columns_checked (Columns parsed) ((\<lambda>f. ToLower (tf_name f)) ` set (table_fields (form_table form) db)) cm
        \<or> columns_from_model ai form (Columns parsed) cm))"
proof (cases "calls = []")
  case False
  then obtain target v0 v res where t: "getDatasetTableFields e 2 (form_table form) db = Inr target"
    and v0: "validateColumns ai form parsed target = Some v0"
    and v: "v = (case v0 of Inl _ \<Rightarrow> basicColumnCheck ai (Columns parsed) target | Inr v \<Rightarrow> v)" "cv_ok v"
    and x: "executeMySQLInsert (srv_insert srv pool) table (Columns parsed) (pRows parsed) (case cv_map v of None \<Rightarrow> [] | Some m \<Rightarrow> m) = (calls, res)"
    and r: "status r = StatusOK \<longrightarrow> (\<exists>n. res = Inr n)"
    using assms by (fastforce simp: import_rows_def Let_def split: sum.splits option.splits if_splits prod.splits)
  let ?cm = "case cv_map v of None \<Rightarrow> [] | Some m \<Rightarrow> m"
  obtain m where m: "calls = map (Insert (insert_sql table (Columns parsed) ?cm)) (take m (pRows parsed))" "\<forall>n. res = Inr n \<longrightarrow> m = length (pRows parsed)"
    using insert_rows_calls [OF x [unfolded executeMySQLInsert_def]] by blast
  have "columns_checked (Columns parsed) ((\<lambda>f. ToLower (tf_name f)) ` set (table_fields (form_table form) db)) ?cm"
    if "v = basicColumnCheck ai (Columns parsed) target"
    unfolding columns_checked_def
  proof
    fix c assume "c \<in> set (Columns parsed)"
    from basicColumnCheck_map [OF v(2) [unfolded that] this] getDatasetTableFields_names [OF t] that
    show "map_of ?cm c = Some (ToLower (TrimSpace c)) \<and> ToLower (TrimSpace c) \<in> (\<lambda>f. ToLower (tf_name f)) ` set (table_fields (form_table form) db)"
      by auto
  qed
  moreover from validateColumns_cases [OF v0] v have "v = basicColumnCheck ai (Columns parsed) target \<or> columns_from_model ai form (Columns parsed) ?cm"
    by (auto simp: isl_def)
  ultimately show ?thesis using m r by blast
qed simp

text \<open>All that one upload sends, from its form and the row of the table it names.\<close>

definition upload_log :: "column_ai \<Rightarrow> excelize \<Rightarrow> uploadForm \<Rightarrow> dtable \<Rightarrow> platform \<Rightarrow> response \<Rightarrow> data_call list \<Rightarrow> bool" where
  "upload_log ai x form t db resp calls \<longleftrightarrow>
     (let ext = ToLower (filepath_Ext (FileName form)) in
      if ext = ''.sql''
      then calls = map (\<lambda>st. Plain (Exec st)) (filter importable (parseSQL (FileData form)))
           \<and> list_all clean_statement (filter importable (parseSQL (FileData form)))
      else \<exists>parsed cm m. parse_upload x ext (FileData form) = Some (Inr parsed)
             \<and> calls = map (Insert (insert_sql (dt_mysql t) (Columns parsed) cm)) (take m (pRows parsed))
             \<and> (status resp = StatusOK \<longrightarrow> m = length (pRows parsed))
             \<and> (columns_checked (Columns parsed) ((\<lambda>f. ToLower (tf_name f)) ` set (table_fields (dt_id t) db)) cm
                \<or> columns_from_model ai form (Columns parsed) cm))"

lemma executeSQLFile_calls: "fst (executeSQLFile pool_at d) = map Exec (filter importable (parseSQL d))"
proof -
  obtain calls r' where l: "sql_file_loop pool_at 0 0 (parseSQL d)
      \<lparr>sf_ok = False, sf_rows = 0, sf_total = length (parseSQL d), sf_succeeded = 0, sf_failed = 0, sf_errors = []\<rparr> = (calls, r')"
    by fastforce
  with sql_file_loop_account [OF l parseSQL_clean] show ?thesis by (simp add: executeSQLFile_def Let_def)
qed

lemma uploadToDataset_log:
  assumes "uploadToDataset e srv ai x form c db mgr = (r, mgr', log)" and "log \<noteq> []"
  shows "\<exists>t n p calls. hasDatasetAccess e 0 (UserID c) (form_dataset form) (Role c) db
     \<and> t \<in> set (dtables db) \<and> dt_id t = form_table form \<and> dt_dataset t = form_dataset form \<and> dt_status t = ''active''
     \<and> pool_for (srv_my srv) (form_dataset form) n mgr = (Inr p, mgr') \<and> log = map (Pair p) calls \<and> upload_log ai x form t db r calls"
proof -
  obtain n table where q: "query_row e 1 [(d_mysql d, dt_mysql t). t \<leftarrow> dtables db, d \<leftarrow> datasets db,
        d_id d = dt_dataset t \<and> dt_id t = form_table form \<and> dt_dataset t = form_dataset form \<and> dt_status t = ''active''] = Inr (n, table)"
    and acc: "hasDatasetAccess e 0 (UserID c) (form_dataset form) (Role c) db"
    using assms by (fastforce simp: uploadToDataset_def split: if_splits sum.splits)
  from query_row_mem [OF q] obtain t where t: "t \<in> set (dtables db)" "dt_id t = form_table form" "dt_dataset t = form_dataset form"
      "dt_status t = ''active''" "dt_mysql t = table" by auto
  obtain p where g: "pool_for (srv_my srv) (form_dataset form) n mgr = (Inr p, mgr')"
    using assms q acc by (auto simp: uploadToDataset_def Let_def split: if_splits prod.splits sum.splits option.splits)
  have "\<exists>calls. log = map (Pair p) calls \<and> upload_log ai x form t db r calls"
  proof (cases "ToLower (filepath_Ext (FileName form)) = ''.sql''")
    case True
    obtain calls res where e: "executeSQLFile (srv_pool srv p) (FileData form) = (calls, res)" by fastforce
    with True assms(1) q acc g have "log = map (Pair p) (map Plain calls)"
      by (auto simp: uploadToDataset_def Let_def comp_def)
    moreover have "calls = map Exec (filter importable (parseSQL (FileData form)))"
      using executeSQLFile_calls [of "srv_pool srv p" "FileData form"] e by simp
    moreover have "list_all clean_statement (filter importable (parseSQL (FileData form)))"
      using parseSQL_clean [of "FileData form"] by (auto simp: list_all_iff)
    ultimately show ?thesis using True by (intro exI [of _ "map Plain calls"]) (simp add: upload_log_def Let_def comp_def)
  next
    case False
    with assms q acc g obtain parsed calls where p: "parse_upload x (ToLower (filepath_Ext (FileName form))) (FileData form) = Some (Inr parsed)"
      and i: "import_rows e srv ai form table p parsed db = (r, calls)" "log = map (Pair p) calls" "calls \<noteq> []"
      by (auto simp: uploadToDataset_def Let_def split: prod.splits option.splits sum.splits)
    from import_rows_calls [OF i(1)] i(2,3) p False t(2,5) show ?thesis
      by (intro exI [of _ calls]) (simp add: upload_log_def Let_def)
  qed
  with acc t g show ?thesis by blast
qed


text \<open>A two-line file into the table \<open>t1\<close> of \<open>d1\<close>.\<close>

definition demo_form :: multipart where
  "demo_form =
     \<lparr>mp_err = None, mp_file = Some (''s.csv'', Inr (csv_table [[''Salary''], [''7'']])),
      mp_value = (\<lambda>k. if k = ''dataset_id'' then ''d1'' else if k = ''table_id'' then ''t1'' else [])\<rparr>"

definition demo_ai :: column_ai where
  "demo_ai = \<lparr>ai_client = None, ai_world = demo_llm_world, ai_model = [], ai_unmarshal = (\<lambda>_. Inl ''no json''), range_of = (\<lambda>m. m)\<rparr>"

definition demo_excelize :: excelize where
  "demo_excelize = \<lparr>OpenReader = (\<lambda>_. Some ''zip: not a valid zip file''), GetSheetName = (\<lambda>_ _. []), GetRows = (\<lambda>_ _. Inr [])\<rparr>"

definition demo_upload :: uploadForm where
  "demo_upload = \<lparr>FileData = csv_table [[''Salary''], [''7'']], FileName = ''s.csv'', form_dataset = ''d1'', form_table = ''t1'',
     Operation = ''insert'', AIHint = []\<rparr>"

lemma demo_form_parsed: "parseUploadForm demo_form = Inr demo_upload"
proof -
  have "TrimSpace [] = []" "TrimSpace ''d1'' = ''d1''" "TrimSpace ''t1'' = ''t1''" by (simp_all add: trim_eval)
  then show ?thesis by (simp add: parseUploadForm_def demo_form_def demo_upload_def Let_def)
qed

lemma demo_import:
  "\<exists>r. import_rows calm_env demo_data_server demo_ai demo_upload ''tbl_1'' 0 \<lparr>Columns = [''Salary''], pRows = [[''7'']], RowCount = 1\<rparr> demo_tables_db
     = (r, [Insert (insert_sql ''tbl_1'' [''Salary''] [(''Salary'', ''salary'')]) [''7'']])"
proof -
  have low: "ToLower (TrimSpace ''Salary'') = ''salary''" "ToLower ''salary'' = ''salary''" "ToLower ''INT'' = ''int''"
    by (simp_all add: trim_eval go_str)
  have f: "getDatasetTableFields calm_env 2 ''t1'' demo_tables_db = Inr [(''salary'', ''int'')]"
    by (simp add: getDatasetTableFields_def query_def rows_next_def scan_fails_def rows_Err_def table_fields_def demo_tables_db_def low Let_def)
  show ?thesis
    by (simp add: import_rows_def demo_upload_def f validateColumns_def demo_ai_def basicColumnCheck_def low executeMySQLInsert_def
        demo_data_server_def Let_def)
qed


end
