(* ===== verification/Ratelimit.thy ===== *)
theory Ratelimit
  imports Http
begin

text \<open>
  The sliding-window limiter of \<open>internal/ratelimit/limiter.go\<close>. The limiter talks to Redis
  through one pipeline of sorted-set commands; Redis is the parameter \<open>pipe_exec\<close>, which
  takes the commands and the state of Redis and gives the replies or an error, and the new state.
  \<open>zrun\<close> is the documented meaning of the four commands on one sorted set, and
  \<open>pipe_law\<close> says that a pipeline that succeeds follows it. \<open>EXPIRE\<close> only sets the
  time to live of the key, two windows after the last call, when every entry is out of the window.

  Scores are \<open>float64\<close>: \<open>f64\<close> is the conversion of an integer, which rounds to 53
  significant bits, half to even; present times in nanoseconds are rounded to multiples of 256.
\<close>

section \<open>float64 of an integer\<close>

fun bitlen :: "nat \<Rightarrow> nat" where
  "bitlen n = (if n = 0 then 0 else Suc (bitlen (n div 2)))"

declare bitlen.simps [simp del]

definition f64_nat :: "nat \<Rightarrow> nat" where
  "f64_nat n =
     (let e = bitlen n - 53; q = n div 2 ^ e; r = n mod 2 ^ e in
      if 2 * r > 2 ^ e \<or> (2 * r = 2 ^ e \<and> odd q) then (q + 1) * 2 ^ e else q * 2 ^ e)"

definition f64 :: "int \<Rightarrow> int" where
  "f64 i = (if i < 0 then - int (f64_nat (nat (- i))) else int (f64_nat (nat i)))"

lemma bitlen_bounds: "n \<noteq> 0 \<Longrightarrow> 2 ^ (bitlen n - 1) \<le> n \<and> n < 2 ^ bitlen n"
proof (induction n rule: bitlen.induct)
  case (1 n)
  show ?case
  proof (cases "n div 2 = 0")
    case True
    then have "n = 1" using 1(2) by auto
    then show ?thesis by (simp add: bitlen.simps)
  next
    case False
    then have ih: "2 ^ (bitlen (n div 2) - 1) \<le> n div 2" "n div 2 < 2 ^ bitlen (n div 2)"
      using 1 by auto
    obtain k where k: "bitlen (n div 2) = Suc k"
      using False by (subst (asm) bitlen.simps) (metis bitlen.simps)
    have "bitlen n = Suc (Suc k)" using 1(2) k by (subst bitlen.simps) simp
    then show ?thesis using ih k by auto
  qed
qed

lemma bitlen_mono: "m \<le> n \<Longrightarrow> bitlen m \<le> bitlen n"
proof (cases "m = 0")
  case True then show ?thesis by (simp add: bitlen.simps)
next
  case False
  assume "m \<le> n"
  then have "2 ^ (bitlen m - 1) < (2::nat) ^ bitlen n"
    using bitlen_bounds [of m] bitlen_bounds [of n] False by linarith
  then have "bitlen m - 1 < bitlen n" by (simp add: power_strict_increasing_iff)
  then show ?thesis by linarith
qed

lemma f64_nat_exact: "n < 2 ^ 53 \<Longrightarrow> f64_nat n = n"
proof -
  assume "n < 2 ^ 53"
  have "bitlen n \<le> 53"
  proof (cases "n = 0")
    case False
    then have "(2::nat) ^ (bitlen n - 1) < 2 ^ 53" using bitlen_bounds [of n] \<open>n < 2 ^ 53\<close> by linarith
    then have "bitlen n - 1 < 53" by (simp only: power_strict_increasing_iff)
    then show ?thesis by linarith
  qed (simp add: bitlen.simps)
  then show ?thesis by (simp add: f64_nat_def)
qed

text \<open>The rounding at a fixed exponent.\<close>

definition round_at :: "nat \<Rightarrow> nat \<Rightarrow> nat" where
  "round_at e n =
     (let q = n div 2 ^ e; r = n mod 2 ^ e in
      if 2 * r > 2 ^ e \<or> (2 * r = 2 ^ e \<and> odd q) then q + 1 else q)"

lemma f64_nat_round: "f64_nat n = round_at (bitlen n - 53) n * 2 ^ (bitlen n - 53)"
  by (simp add: f64_nat_def round_at_def Let_def)

lemma round_at_mono: "m \<le> n \<Longrightarrow> round_at e m \<le> round_at e n"
proof -
  assume le: "m \<le> n"
  have q: "m div 2 ^ e \<le> n div 2 ^ e" using le by (rule div_le_mono)
  show ?thesis
  proof (cases "m div 2 ^ e = n div 2 ^ e")
    case True
    then have "m mod 2 ^ e \<le> n mod 2 ^ e"
      using le by (metis div_mult_mod_eq add_le_cancel_left)
    then show ?thesis using True by (auto simp: round_at_def Let_def)
  next
    case False
    then show ?thesis using q by (auto simp: round_at_def Let_def)
  qed
qed

lemma round_at_bounds: "n div 2 ^ e \<le> round_at e n \<and> round_at e n \<le> n div 2 ^ e + 1"
  by (simp add: round_at_def Let_def)

lemma f64_nat_le_power: "f64_nat n \<le> 2 ^ bitlen n"
proof (cases "n = 0")
  case True then show ?thesis by (simp add: f64_nat_exact bitlen.simps)
next
  case False
  let ?e = "bitlen n - 53"
  have e: "?e \<le> bitlen n" by simp
  have "n div 2 ^ ?e < 2 ^ (bitlen n - ?e)"
    using bitlen_bounds [OF False] e by (simp add: less_mult_imp_div_less power_add [symmetric])
  then have "round_at ?e n \<le> 2 ^ (bitlen n - ?e)"
    using round_at_bounds [of n ?e] by linarith
  then have "f64_nat n \<le> 2 ^ (bitlen n - ?e) * 2 ^ ?e"
    by (simp add: f64_nat_round)
  then show ?thesis using e by (simp add: power_add [symmetric])
qed

lemma power_le_f64_nat: "2 ^ k \<le> n \<Longrightarrow> k < bitlen n \<Longrightarrow> 2 ^ (bitlen n - 1) \<le> f64_nat n"
proof -
  assume k: "2 ^ k \<le> n" "k < bitlen n"
  then have n0: "n \<noteq> 0" by (metis not_one_le_zero one_le_numeral one_le_power order_trans le_zero_eq)
  let ?e = "bitlen n - 53"
  have e: "?e \<le> bitlen n - 1" using k by linarith
  have "2 ^ (bitlen n - 1) \<le> n" using bitlen_bounds [OF n0] by simp
  then have "2 ^ (bitlen n - 1) div 2 ^ ?e \<le> n div 2 ^ ?e" by (rule div_le_mono)
  moreover have "(2::nat) ^ (bitlen n - 1) div 2 ^ ?e = 2 ^ (bitlen n - 1 - ?e)"
    using e by (rule power_diff [symmetric, rotated]) simp
  ultimately have "2 ^ (bitlen n - 1 - ?e) \<le> n div 2 ^ ?e" by simp
  then have "2 ^ (bitlen n - 1 - ?e) \<le> round_at ?e n"
    using round_at_bounds [of n ?e] by linarith
  then have "2 ^ (bitlen n - 1 - ?e) * 2 ^ ?e \<le> f64_nat n"
    by (simp add: f64_nat_round)
  moreover have "(2::nat) ^ (bitlen n - 1 - ?e) * 2 ^ ?e = 2 ^ (bitlen n - 1)"
    using e by (metis le_add_diff_inverse2 power_add)
  ultimately show ?thesis by simp
qed

lemma f64_nat_mono: "m \<le> n \<Longrightarrow> f64_nat m \<le> f64_nat n"
proof (cases "bitlen m = bitlen n")
  case True
  assume "m \<le> n"
  then show ?thesis using True round_at_mono [of m n] by (simp add: f64_nat_round)
next
  case False
  assume "m \<le> n"
  then have lt: "bitlen m < bitlen n" using bitlen_mono False by (meson le_neq_implies_less)
  then have n0: "n \<noteq> 0" using bitlen.simps [of 0] by (metis if_True less_nat_zero_code)
  have "(2::nat) ^ bitlen m \<le> 2 ^ (bitlen n - 1)" using lt by (intro power_increasing) auto
  then have "f64_nat m \<le> 2 ^ (bitlen n - 1)" using f64_nat_le_power [of m] by (rule le_trans [rotated])
  also have "\<dots> \<le> f64_nat n"
    using bitlen_bounds [OF n0] lt power_le_f64_nat [of "bitlen n - 1" n] by linarith
  finally show ?thesis .
qed

lemma f64_mono: "i \<le> j \<Longrightarrow> f64 i \<le> f64 j"
  by (auto simp: f64_def intro: f64_nat_mono)

lemma f64_nonneg: "0 \<le> i \<Longrightarrow> 0 \<le> f64 i"
  by (simp add: f64_def)

section \<open>The limiter\<close>

type_synonym zset = "string \<rightharpoonup> int"

datatype zcmd =
    ZAdd string int string
  | ZRemRangeByScore string int int
  | ZCard string
  | Expire string int

text \<open>The commands on the sorted sets of Redis; the bounds of a range are read as doubles.\<close>

fun zstep :: "zcmd \<Rightarrow> (string \<Rightarrow> zset) \<Rightarrow> int \<times> (string \<Rightarrow> zset)" where
  "zstep (ZAdd k score m) z = ((if z k m = None then 1 else 0), z(k := (z k)(m \<mapsto> score)))"
| "zstep (ZRemRangeByScore k lo hi) z =
     (int (card {m. \<exists>s. z k m = Some s \<and> f64 lo \<le> s \<and> s \<le> f64 hi}),
      z(k := (\<lambda>m. case z k m of None \<Rightarrow> None | Some s \<Rightarrow> if f64 lo \<le> s \<and> s \<le> f64 hi then None else Some s)))"
| "zstep (ZCard k) z = (int (card (dom (z k))), z)"
| "zstep (Expire k d) z = ((if z k = Map.empty then 0 else 1), z)"

fun zrun :: "zcmd list \<Rightarrow> (string \<Rightarrow> zset) \<Rightarrow> int list \<times> (string \<Rightarrow> zset)" where
  "zrun [] z = ([], z)"
| "zrun (c # cs) z = (case zstep c z of (r, z') \<Rightarrow> (case zrun cs z' of (rs, z'') \<Rightarrow> (r # rs, z'')))"

definition pipe_law :: "(zcmd list \<Rightarrow> 'r \<Rightarrow> int list res \<times> 'r) \<Rightarrow> ('r \<Rightarrow> string \<Rightarrow> zset) \<Rightarrow> bool" where
  "pipe_law pipe_exec view \<longleftrightarrow>
     (\<forall>cmds rd replies rd'. pipe_exec cmds rd = (Inr replies, rd') \<longrightarrow> zrun cmds (view rd) = (replies, view rd'))"

definition rl_member :: "int \<Rightarrow> string" where
  "rl_member now = int_dec now @ ''-'' @ int_dec (now mod 1000)"

definition rl_cmds :: "string \<Rightarrow> int \<Rightarrow> int \<Rightarrow> int \<Rightarrow> zcmd list" where
  "rl_cmds k now edge window =
     [ZAdd k (f64 now) (rl_member now), ZRemRangeByScore k 0 edge, ZCard k, Expire k (window * 2)]"

text \<open>The two readings of the clock are the arguments \<open>now\<close> and \<open>now2\<close>.\<close>

definition Allow ::
  "(zcmd list \<Rightarrow> 'r \<Rightarrow> int list res \<times> 'r) \<Rightarrow> int \<Rightarrow> int \<Rightarrow> 'r option \<Rightarrow> string \<Rightarrow> int \<Rightarrow> int \<Rightarrow> bool \<Rightarrow> (bool \<times> err) \<times> 'r option" where
  "Allow pipe_exec now now2 rdb key limit window failClosed =
     (case rdb of
        None \<Rightarrow> (if failClosed then (False, Some ''rate limiter unavailable'') else (True, None), None)
      | Some rd \<Rightarrow>
          (case pipe_exec (rl_cmds (''rl:'' @ key) now (now2 - window) window) rd of
             (Inl e, rd') \<Rightarrow>
               (if failClosed then (False, Some (''rate limiter error: '' @ e)) else (True, None), Some rd')
           | (Inr replies, rd') \<Rightarrow>
               (if replies ! 2 > limit then (False, Some ''rate limit exceeded'') else (True, None), Some rd')))"

text \<open>Calls on one key, at the clock readings of the list.\<close>

fun allow_run ::
  "(zcmd list \<Rightarrow> 'r \<Rightarrow> int list res \<times> 'r) \<Rightarrow> string \<Rightarrow> int \<Rightarrow> int \<Rightarrow> bool \<Rightarrow> (int \<times> int) list \<Rightarrow> 'r option \<Rightarrow> bool list \<times> 'r option" where
  "allow_run pipe_exec key limit window fc [] rdb = ([], rdb)"
| "allow_run pipe_exec key limit window fc ((now, now2) # ts) rdb =
     (case Allow pipe_exec now now2 rdb key limit window fc of
        ((b, _), rdb') \<Rightarrow> (case allow_run pipe_exec key limit window fc ts rdb' of (bs, rdb'') \<Rightarrow> (b # bs, rdb'')))"

section \<open>The window\<close>

text \<open>The sorted set after calls at the times \<open>ts\<close>, the last of which cut at \<open>edge\<close>.\<close>

definition window_set :: "int set \<Rightarrow> int \<Rightarrow> zset" where
  "window_set ts edge =
     (\<lambda>m. if \<exists>t \<in> ts. m = rl_member t \<and> f64 edge < f64 t then Some (f64 (THE t. m = rl_member t)) else None)"

lemma rl_member_inj [simp]: "rl_member s = rl_member t \<longleftrightarrow> s = t"
proof
  assume eq: "rl_member s = rl_member t"
  let ?v = "\<lambda>m. (hd m = CHR ''-'', dec_val (takeWhile is_digit m), dec_val (takeWhile is_digit (tl m)))"
  have v: "?v (rl_member u) = (if u < 0 then (True, 0, nat (- u)) else (False, nat u, snd (snd (?v (rl_member u)))))" for u
  proof (cases "u < 0")
    case True
    have "takeWhile is_digit (nat_dec n @ CHR ''-'' # xs) = nat_dec n" for n xs
      using nat_dec_digits [of n] minus_not_digit by (simp add: list_all_iff takeWhile_append2)
    then show ?thesis using True minus_not_digit by (simp add: rl_member_def int_dec_def dec_val_def [of "[]"])
  next
    case False
    have "takeWhile is_digit (nat_dec n @ CHR ''-'' # xs) = nat_dec n" for n xs
      using nat_dec_digits [of n] minus_not_digit by (simp add: list_all_iff takeWhile_append2)
    moreover have "hd (nat_dec n @ xs) \<noteq> CHR ''-''" for n xs
      using nat_dec_digits [of n] minus_not_digit nat_dec_nonempty [of n] by (cases "nat_dec n") auto
    ultimately show ?thesis using False by (simp add: rl_member_def int_dec_def)
  qed
  show "s = t" using v [of s] v [of t] eq by (auto split: if_splits)
qed simp

lemma window_set_member: "window_set ts edge (rl_member t) = (if t \<in> ts \<and> f64 edge < f64 t then Some (f64 t) else None)"
  by (auto simp: window_set_def)

lemma window_set_None: "(\<And>t. t \<in> ts \<Longrightarrow> m \<noteq> rl_member t) \<Longrightarrow> window_set ts edge m = None"
  by (auto simp: window_set_def)

lemma window_set_step:
  assumes "0 \<le> t" and "\<forall>s \<in> ts. 0 \<le> s" and "edge \<le> edge'"
  shows "(\<lambda>m. case ((window_set ts edge)(rl_member t \<mapsto> f64 t)) m of None \<Rightarrow> None
                | Some s \<Rightarrow> if f64 0 \<le> s \<and> s \<le> f64 edge' then None else Some s) = window_set (insert t ts) edge'"
proof
  fix m
  have e: "f64 edge \<le> f64 edge'" using assms(3) by (rule f64_mono)
  have z: "f64 0 = 0" by (simp add: f64_def f64_nat_exact)
  show "(case ((window_set ts edge)(rl_member t \<mapsto> f64 t)) m of None \<Rightarrow> None
          | Some s \<Rightarrow> if f64 0 \<le> s \<and> s \<le> f64 edge' then None else Some s) = window_set (insert t ts) edge' m"
  proof (cases "\<exists>s. m = rl_member s")
    case True
    then obtain s where m: "m = rl_member s" by blast
    show ?thesis
      using e z f64_nonneg assms by (auto simp: m window_set_member)
  next
    case False
    then show ?thesis by (auto simp: window_set_None)
  qed
qed

lemma card_window_set: "card (dom (window_set ts edge)) = card {t \<in> ts. f64 edge < f64 t}"
proof -
  have "dom (window_set ts edge) = rl_member ` {t \<in> ts. f64 edge < f64 t}"
    by (auto simp: window_set_def split: if_splits)
  then show ?thesis by (simp add: card_image inj_on_def)
qed

lemma zrun_rl_cmds:
  assumes "z k = window_set ts edge" and "0 \<le> now" "\<forall>s \<in> ts. 0 \<le> s" "edge \<le> edge'"
  shows "fst (zrun (rl_cmds k now edge' w) z) ! 2 = int (card {t \<in> insert now ts. f64 edge' < f64 t})
         \<and> snd (zrun (rl_cmds k now edge' w) z) k = window_set (insert now ts) edge'"
  using window_set_step [OF assms(2,3,4)] assms(1)
  by (simp add: rl_cmds_def card_window_set)

definition in_window :: "int \<Rightarrow> (int \<times> int) list \<Rightarrow> nat \<Rightarrow> int set" where
  "in_window window ts i = {t \<in> fst ` set (take (Suc i) ts). f64 (snd (ts ! i) - window) < f64 t}"

lemma allow_run_gen:
  assumes "pipe_law pipe_exec view" and up: "\<forall>cmds rd. \<exists>replies rd'. pipe_exec cmds rd = (Inr replies, rd')"
    and "view rd (''rl:'' @ key) = window_set past edge" and "\<forall>s \<in> past. 0 \<le> s"
    and "\<forall>p \<in> set ts. 0 \<le> fst p \<and> edge \<le> snd p - window" and "sorted (map snd ts)" and "i < length ts"
  shows "fst (allow_run pipe_exec key limit window fc ts (Some rd)) ! i \<longleftrightarrow>
           int (card {t \<in> past \<union> fst ` set (take (Suc i) ts). f64 (snd (ts ! i) - window) < f64 t}) \<le> limit"
  using assms(3-)
proof (induction ts arbitrary: past edge rd i)
  case (Cons p ts)
  obtain now now2 where p: "p = (now, now2)" by (cases p)
  let ?k = "''rl:'' @ key" and ?e = "now2 - window"
  obtain replies rd' where x: "pipe_exec (rl_cmds ?k now ?e window) rd = (Inr replies, rd')"
    using up by blast
  then have z: "zrun (rl_cmds ?k now ?e window) (view rd) = (replies, view rd')"
    using assms(1) by (simp add: pipe_law_def)
  have st: "replies ! 2 = int (card {t \<in> insert now past. f64 ?e < f64 t})" "view rd' ?k = window_set (insert now past) ?e"
    using zrun_rl_cmds [where z = "view rd" and k = ?k, OF Cons.prems(1), of now ?e window] Cons.prems z by (auto simp: p)
  show ?case
  proof (cases i)
    case 0
    then show ?thesis using x st by (auto simp: p Allow_def split: prod.splits)
  next
    case (Suc j)
    have "fst (allow_run pipe_exec key limit window fc ts (Some rd')) ! j \<longleftrightarrow>
            int (card {t \<in> insert now past \<union> fst ` set (take (Suc j) ts). f64 (snd (ts ! j) - window) < f64 t}) \<le> limit"
      using Cons.prems Suc by (intro Cons.IH [OF st(2)]) (auto simp: p)
    then show ?thesis using x Suc by (auto simp: p Allow_def split: prod.splits)
  qed
qed simp

text \<open>
  C19. The limiter is a sliding window. While Redis answers, the \<open>i\<close>-th call on a fresh key
  is admitted exactly if at most \<open>limit\<close> distinct call times, its own included and rejected
  calls too, lie after the window's edge, the comparison being that of the rounded doubles. Without
  Redis, or when the pipeline fails, the answer is the configured one.
\<close>

theorem Allow_sliding_window:
  assumes "pipe_law pipe_exec view" and "\<forall>cmds rd. \<exists>replies rd'. pipe_exec cmds rd = (Inr replies, rd')"
    and "view rd (''rl:'' @ key) = Map.empty"
    and "\<forall>p \<in> set ts. 0 \<le> fst p" and "sorted (map snd ts)" and "i < length ts"
    and "\<forall>cmds rd. \<exists>m rd'. broken cmds rd = (Inl m, rd')"
  shows "(fst (allow_run pipe_exec key limit window fc ts (Some rd)) ! i \<longleftrightarrow> int (card (in_window window ts i)) \<le> limit)
         \<and> fst (fst (Allow pipe_exec now now2 None key limit window fc)) = (\<not> fc)
         \<and> fst (fst (Allow broken now now2 (Some rd) key limit window fc)) = (\<not> fc)"
proof -
  define edge where "edge = Min (set (map (\<lambda>p. snd p - window) ts))"
  have "ts \<noteq> []" using assms(6) by auto
  have "fst (allow_run pipe_exec key limit window fc ts (Some rd)) ! i \<longleftrightarrow>
          int (card {t \<in> {} \<union> fst ` set (take (Suc i) ts). f64 (snd (ts ! i) - window) < f64 t}) \<le> limit"
    using assms(3-6) by (intro allow_run_gen [OF assms(1,2), where edge = edge]) (auto simp: window_set_def edge_def)
  moreover obtain m rd' where "broken (rl_cmds (''rl:'' @ key) now (now2 - window) window) rd = (Inl m, rd')"
    using assms(7) by blast
  ultimately show ?thesis by (auto simp: in_window_def Allow_def)
qed

definition demo_pipe :: "zcmd list \<Rightarrow> (string \<Rightarrow> zset) \<Rightarrow> int list res \<times> (string \<Rightarrow> zset)" where
  "demo_pipe cmds z = (case zrun cmds z of (rs, z') \<Rightarrow> (Inr rs, z'))"

lemma demo_pipe_law: "pipe_law demo_pipe (\<lambda>z. z)" "\<forall>cmds rd. \<exists>replies rd'. demo_pipe cmds rd = (Inr replies, rd')"
  by (auto simp: pipe_law_def demo_pipe_def split: prod.splits)

lemma demo_window:
  "in_window 100 [(1000, 1001), (1040, 1041), (1080, 1081)] 2 = {1000, 1040, 1080}"
  "in_window 100 [(1000, 1001), (1040, 1041), (1200, 1201)] 2 = {1200}"
  by (auto simp: in_window_def f64_def f64_nat_exact)

theorem Allow_sliding_window_witness:
  "\<not> fst (allow_run demo_pipe ''u'' 2 100 True [(1000, 1001), (1040, 1041), (1080, 1081)] (Some (\<lambda>k. Map.empty))) ! 2
   \<and> fst (allow_run demo_pipe ''u'' 2 100 True [(1000, 1001), (1040, 1041), (1200, 1201)] (Some (\<lambda>k. Map.empty))) ! 2"
  using Allow_sliding_window [OF demo_pipe_law, where rd = "\<lambda>k. Map.empty" and key = "''u''" and limit = 2 and window = 100 and fc = True
      and i = 2 and ts = "[(1000, 1001), (1040, 1041), (1080, 1081)]" and broken = "\<lambda>c r. (Inl [], r)"]
    Allow_sliding_window [OF demo_pipe_law, where rd = "\<lambda>k. Map.empty" and key = "''u''" and limit = 2 and window = 100 and fc = True
      and i = 2 and ts = "[(1000, 1001), (1040, 1041), (1200, 1201)]" and broken = "\<lambda>c r. (Inl [], r)"]
  by (simp add: demo_window)

end
