(* ===== verification/Ssebus.thy ===== *)
theory Ssebus
  imports Http
begin

text \<open>
  The in-memory event bus of \<open>internal/ssebus/bus.go\<close>. A channel is an address; the state
  keeps its buffer (capacity 32) and whether it was closed, and \<open>subs\<close> maps a session to the
  channels subscribed to it. Sending on a closed channel and closing a closed channel panic in
  Go, so \<open>Publish\<close> and \<open>cancel\<close> return \<open>None\<close> there; the invariant shows that
  this never happens. Each operation holds the mutex throughout and is one step.
\<close>

section \<open>State and operations\<close>

record event =
  ev_type :: string
  ev_data :: json

type_synonym chan = nat

definition chan_cap :: nat where
  "chan_cap = 32"

record memory_bus =
  subs :: "string \<rightharpoonup> chan list"
  buf :: "chan \<Rightarrow> event list"
  closed :: "chan \<Rightarrow> bool"
  next_chan :: chan
  totalDrops :: int

definition NewMemoryBus :: memory_bus where
  "NewMemoryBus = \<lparr>subs = Map.empty, buf = (\<lambda>_. []), closed = (\<lambda>_. False), next_chan = 0, totalDrops = 0\<rparr>"

text \<open>Reading a Go map gives the nil slice for a missing key.\<close>

definition sub_list :: "memory_bus \<Rightarrow> string \<Rightarrow> chan list" where
  "sub_list b sid = (case subs b sid of None \<Rightarrow> [] | Some l \<Rightarrow> l)"

definition Subscribe :: "string \<Rightarrow> memory_bus \<Rightarrow> chan \<times> memory_bus" where
  "Subscribe sid b =
     (let ch = next_chan b in
      (ch, b\<lparr>subs := (subs b)(sid \<mapsto> sub_list b sid @ [ch]), buf := (buf b)(ch := []),
             closed := (closed b)(ch := False), next_chan := ch + 1\<rparr>))"

text \<open>The loop of the cancel function: what it keeps, and the channels it closes.\<close>

fun cancel_loop :: "chan \<Rightarrow> chan list \<Rightarrow> (chan \<Rightarrow> bool) \<Rightarrow> (chan list \<times> (chan \<Rightarrow> bool)) option" where
  "cancel_loop ch [] cl = Some ([], cl)"
| "cancel_loop ch (c # cs) cl =
     (if c \<noteq> ch then
        (case cancel_loop ch cs cl of None \<Rightarrow> None | Some (out, cl') \<Rightarrow> Some (c # out, cl'))
      else if cl c then None
      else cancel_loop ch cs (cl(c := True)))"

definition cancel :: "string \<Rightarrow> chan \<Rightarrow> memory_bus \<Rightarrow> memory_bus option" where
  "cancel sid ch b =
     (case cancel_loop ch (sub_list b sid) (closed b) of
        None \<Rightarrow> None
      | Some (out, cl) \<Rightarrow>
          Some (b\<lparr>closed := cl,
                  subs := (if out = [] then (subs b)(sid := None) else (subs b)(sid \<mapsto> out))\<rparr>))"

text \<open>One iteration of the loop of \<open>Publish\<close>: a send that never blocks.\<close>

definition send :: "event \<Rightarrow> chan \<Rightarrow> memory_bus \<Rightarrow> memory_bus option" where
  "send ev ch b =
     (if closed b ch then None
      else if length (buf b ch) < chan_cap then Some (b\<lparr>buf := (buf b)(ch := buf b ch @ [ev])\<rparr>)
      else Some (b\<lparr>totalDrops := totalDrops b + 1\<rparr>))"

fun publish_loop :: "event \<Rightarrow> chan list \<Rightarrow> memory_bus \<Rightarrow> memory_bus option" where
  "publish_loop ev [] b = Some b"
| "publish_loop ev (ch # chs) b =
     (case send ev ch b of None \<Rightarrow> None | Some b' \<Rightarrow> publish_loop ev chs b')"

definition Publish :: "string \<Rightarrow> event \<Rightarrow> memory_bus \<Rightarrow> memory_bus option" where
  "Publish sid ev b = publish_loop ev (sub_list b sid) b"

definition TotalDrops :: "memory_bus \<Rightarrow> int" where
  "TotalDrops b = totalDrops b"

text \<open>
  A receive on the channel, as the stream handler does it: an event, the end of the stream (the
  channel is closed and drained), or nothing to receive yet.
\<close>

datatype recv = Received event | Ended | Blocked

definition receive :: "chan \<Rightarrow> memory_bus \<Rightarrow> recv \<times> memory_bus" where
  "receive ch b =
     (case buf b ch of
        ev # evs \<Rightarrow> (Received ev, b\<lparr>buf := (buf b)(ch := evs)\<rparr>)
      | [] \<Rightarrow> (if closed b ch then Ended else Blocked, b))"

section \<open>The invariant\<close>

text \<open>
  No empty subscriber list is stored; a channel is subscribed once, to one session, is open and
  was allocated before; no buffer exceeds its capacity. (The drop counter is an \<open>int64\<close> in
  Go; it is an unbounded integer here, which differs only after \<open>2^63\<close> drops.)
\<close>

definition bus_inv :: "memory_bus \<Rightarrow> bool" where
  "bus_inv b \<longleftrightarrow>
     (\<forall>sid. subs b sid \<noteq> Some [])
     \<and> (\<forall>sid. distinct (sub_list b sid))
     \<and> (\<forall>sid c. c \<in> set (sub_list b sid) \<longrightarrow> c < next_chan b \<and> \<not> closed b c)
     \<and> (\<forall>sid sid' c. c \<in> set (sub_list b sid) \<longrightarrow> c \<in> set (sub_list b sid') \<longrightarrow> sid = sid')
     \<and> (\<forall>c. length (buf b c) \<le> chan_cap)
     \<and> 0 \<le> totalDrops b"

lemma sub_list_upd [simp]:
  "sub_list (b\<lparr>subs := m\<rparr>) sid = (case m sid of None \<Rightarrow> [] | Some l \<Rightarrow> l)"
  "sub_list (b\<lparr>buf := f\<rparr>) sid = sub_list b sid"
  "sub_list (b\<lparr>closed := g\<rparr>) sid = sub_list b sid"
  "sub_list (b\<lparr>next_chan := n\<rparr>) sid = sub_list b sid"
  "sub_list (b\<lparr>totalDrops := d\<rparr>) sid = sub_list b sid"
  by (simp_all add: sub_list_def)

lemma subs_sub_list: "subs b sid = Some l \<Longrightarrow> sub_list b sid = l"
  by (simp add: sub_list_def)

lemma case_subs [simp]: "(case subs b sid of None \<Rightarrow> [] | Some l \<Rightarrow> l) = sub_list b sid"
  by (simp add: sub_list_def)

lemma bus_inv_New: "bus_inv NewMemoryBus"
  by (simp add: bus_inv_def NewMemoryBus_def sub_list_def)

lemma Subscribe_fields [simp]:
  "fst (Subscribe sid b) = next_chan b"
  "sub_list (snd (Subscribe sid b)) sid' = (if sid' = sid then sub_list b sid @ [next_chan b] else sub_list b sid')"
  "subs (snd (Subscribe sid b)) = (subs b)(sid \<mapsto> sub_list b sid @ [next_chan b])"
  "buf (snd (Subscribe sid b)) = (buf b)(next_chan b := [])"
  "closed (snd (Subscribe sid b)) = (closed b)(next_chan b := False)"
  "next_chan (snd (Subscribe sid b)) = next_chan b + 1"
  "totalDrops (snd (Subscribe sid b)) = totalDrops b"
  by (simp_all add: Subscribe_def Let_def)

lemma bus_inv_Subscribe [inv_rules]:
  assumes "bus_inv b"
  shows "bus_inv (snd (Subscribe sid b))"
proof -
  have fresh: "next_chan b \<notin> set (sub_list b sid')" for sid'
    using assms by (auto simp: bus_inv_def)
  then show ?thesis
    using assms unfolding bus_inv_def Subscribe_fields by (auto intro: less_SucI)
qed

text \<open>On a duplicate-free list of open channels the cancel loop removes one channel and closes it.\<close>

lemma cancel_loop_eq:
  assumes "distinct l" and "ch \<in> set l \<Longrightarrow> \<not> cl ch"
  shows "cancel_loop ch l cl = Some (filter (\<lambda>c. c \<noteq> ch) l, if ch \<in> set l then cl(ch := True) else cl)"
  using assms
proof (induction l arbitrary: cl)
  case (Cons c l)
  then show ?case by (cases "c = ch") (auto simp: filter_id_conv)
qed simp

definition drop_sub :: "string \<Rightarrow> chan \<Rightarrow> memory_bus \<Rightarrow> (string \<rightharpoonup> chan list)" where
  "drop_sub sid ch b =
     (let out = filter (\<lambda>c. c \<noteq> ch) (sub_list b sid) in
      if out = [] then (subs b)(sid := None) else (subs b)(sid \<mapsto> out))"

lemma drop_sub_list [simp]:
  "(case drop_sub sid ch b sid' of None \<Rightarrow> [] | Some l \<Rightarrow> l) =
   (if sid' = sid then filter (\<lambda>c. c \<noteq> ch) (sub_list b sid) else sub_list b sid')"
  by (simp add: drop_sub_def Let_def)

lemma drop_sub_nonempty: "\<forall>sid. subs b sid \<noteq> Some [] \<Longrightarrow> drop_sub sid ch b sid' \<noteq> Some []"
  by (auto simp: drop_sub_def Let_def)

lemma cancel_eq:
  assumes "bus_inv b"
  shows "cancel sid ch b = Some (b\<lparr>closed := (if ch \<in> set (sub_list b sid) then (closed b)(ch := True) else closed b),
     subs := drop_sub sid ch b\<rparr>)"
proof -
  have "distinct (sub_list b sid)" "ch \<in> set (sub_list b sid) \<Longrightarrow> \<not> closed b ch"
    using assms by (auto simp: bus_inv_def)
  then show ?thesis unfolding cancel_def drop_sub_def by (simp add: cancel_loop_eq Let_def)
qed

lemma bus_inv_cancel [inv_rules]:
  assumes "bus_inv b"
  shows "\<exists>b'. cancel sid ch b = Some b' \<and> bus_inv b'"
  unfolding cancel_eq [OF assms]
  using assms drop_sub_nonempty [of b sid ch]
  by (auto simp: bus_inv_def split: if_splits)

text \<open>On open channels the publish loop never panics; each channel is served on its own.\<close>

definition served :: "event \<Rightarrow> event list \<Rightarrow> event list" where
  "served ev q = (if length q < chan_cap then q @ [ev] else q)"

lemma publish_loop_eq:
  assumes "distinct l" and "\<forall>c\<in>set l. \<not> closed b c"
  shows "publish_loop ev l b =
    Some (b\<lparr>buf := (\<lambda>c. if c \<in> set l then served ev (buf b c) else buf b c),
            totalDrops := totalDrops b + int (length (filter (\<lambda>c. chan_cap \<le> length (buf b c)) l))\<rparr>)"
  using assms
proof (induction l arbitrary: b)
  case (Cons c l)
  have eq: "filter (\<lambda>x. chan_cap \<le> length (if x = c then q else buf b x)) l
            = filter (\<lambda>x. chan_cap \<le> length (buf b x)) l" for q
    using Cons.prems(1) by (intro filter_cong) auto
  show ?case
  proof (cases "length (buf b c) < chan_cap")
    case True
    with Cons show ?thesis
      by (auto simp: send_def served_def eq fun_eq_iff intro!: memory_bus.fold_congs)
  next
    case False
    with Cons show ?thesis
      by (auto simp: send_def served_def fun_eq_iff intro!: memory_bus.fold_congs)
  qed
qed simp

lemma Publish_eq:
  assumes "bus_inv b"
  shows "Publish sid ev b =
    Some (b\<lparr>buf := (\<lambda>c. if c \<in> set (sub_list b sid) then served ev (buf b c) else buf b c),
            totalDrops := totalDrops b + int (length (filter (\<lambda>c. chan_cap \<le> length (buf b c)) (sub_list b sid)))\<rparr>)"
  unfolding Publish_def using assms by (intro publish_loop_eq) (auto simp: bus_inv_def)

lemma length_served: "length q \<le> chan_cap \<Longrightarrow> length (served ev q) \<le> chan_cap"
  by (simp add: served_def)

lemma bus_inv_Publish [inv_rules]:
  assumes "bus_inv b"
  shows "\<exists>b'. Publish sid ev b = Some b' \<and> bus_inv b'"
  unfolding Publish_eq [OF assms]
  using assms by (auto simp: bus_inv_def length_served)

lemma bus_inv_receive [inv_rules]: "bus_inv b \<Longrightarrow> bus_inv (snd (receive ch b))"
  by (auto simp: bus_inv_def receive_def split: list.splits) (metis Suc_leD length_Cons)

section \<open>Runs of the bus\<close>

datatype bus_op =
    OpSubscribe string
  | OpCancel string chan
  | OpPublish string event
  | OpReceive chan

text \<open>One operation: the state after it and what it received, or a panic.\<close>

fun bus_apply :: "bus_op \<Rightarrow> memory_bus \<Rightarrow> (memory_bus \<times> (chan \<times> event) list) option" where
  "bus_apply (OpSubscribe sid) b = Some (snd (Subscribe sid b), [])"
| "bus_apply (OpCancel sid ch) b = map_option (\<lambda>b'. (b', [])) (cancel sid ch b)"
| "bus_apply (OpPublish sid ev) b = map_option (\<lambda>b'. (b', [])) (Publish sid ev b)"
| "bus_apply (OpReceive ch) b =
     (case receive ch b of
        (Received ev, b') \<Rightarrow> Some (b', [(ch, ev)])
      | (_, b') \<Rightarrow> Some (b', []))"

fun bus_run :: "bus_op list \<Rightarrow> memory_bus \<Rightarrow> (memory_bus \<times> (chan \<times> event) list) option" where
  "bus_run [] b = Some (b, [])"
| "bus_run (x # xs) b =
     (case bus_apply x b of
        None \<Rightarrow> None
      | Some (b', r) \<Rightarrow> map_option (\<lambda>(b'', rs). (b'', r @ rs)) (bus_run xs b'))"

lemma bus_apply_inv:
  assumes "bus_inv b"
  shows "\<exists>b' r. bus_apply x b = Some (b', r) \<and> bus_inv b'"
proof (cases x)
  case (OpSubscribe sid)
  with assms show ?thesis by (simp add: inv_rules)
next
  case (OpCancel sid ch)
  with bus_inv_cancel [OF assms, of sid ch] show ?thesis by auto
next
  case (OpPublish sid ev)
  with bus_inv_Publish [OF assms, of sid ev] show ?thesis by auto
next
  case (OpReceive ch)
  with bus_inv_receive [OF assms, of ch] show ?thesis
    by (cases "fst (receive ch b)") (auto split: prod.splits)
qed

lemma bus_run_inv:
  assumes "bus_inv b"
  shows "\<exists>b' r. bus_run xs b = Some (b', r) \<and> bus_inv b'"
  using assms
proof (induction xs arbitrary: b)
  case (Cons x xs)
  from bus_apply_inv [OF Cons.prems] obtain b1 r1 where "bus_apply x b = Some (b1, r1)" "bus_inv b1" by blast
  with Cons.IH [of b1] show ?case by auto
qed simp

text \<open>
  C11. Whatever sequence of subscriptions, cancellations (repeated ones too), publications and
  receives runs on a fresh bus, no step panics (no send on a closed channel, no double close) and
  the invariant holds at the end: every subscribed channel is open and belongs to one session,
  and no buffer exceeds 32 events.
\<close>

theorem bus_never_panics: "\<exists>b r. bus_run ops NewMemoryBus = Some (b, r) \<and> bus_inv b"
  by (rule bus_run_inv) (rule bus_inv_New)

text \<open>The events published to a session by a run.\<close>

fun pubs :: "string \<Rightarrow> bus_op list \<Rightarrow> event list" where
  "pubs sid [] = []"
| "pubs sid (OpPublish sid' ev # xs) = (if sid' = sid then [ev] else []) @ pubs sid xs"
| "pubs sid (_ # xs) = pubs sid xs"

definition recvs :: "chan \<Rightarrow> (chan \<times> event) list \<Rightarrow> event list" where
  "recvs ch r = map snd (filter (\<lambda>(c, _). c = ch) r)"

lemma recvs_append [simp]: "recvs ch (r @ r') = recvs ch r @ recvs ch r'" "recvs ch [] = []"
  by (simp_all add: recvs_def)

text \<open>What one operation does to a subscribed channel.\<close>

lemma bus_apply_chan:
  assumes inv: "bus_inv b" and sub: "ch \<in> set (sub_list b sid)"
    and ap: "bus_apply x b = Some (b', r)" and nc: "x \<noteq> OpCancel sid ch"
  shows "ch \<in> set (sub_list b' sid) \<and>
    recvs ch r @ buf b' ch = (if (\<exists>ev. x = OpPublish sid ev) then served (hd (pubs sid [x])) (buf b ch) else buf b ch)"
proof (cases x)
  case (OpSubscribe sid')
  have "ch \<noteq> next_chan b" using inv sub by (auto simp: bus_inv_def)
  with OpSubscribe ap sub show ?thesis by auto
next
  case (OpCancel sid' c)
  have "bus_apply x b = Some (b\<lparr>closed := (if c \<in> set (sub_list b sid') then (closed b)(c := True) else closed b),
     subs := drop_sub sid' c b\<rparr>, [])"
    using OpCancel cancel_eq [OF inv, of sid' c] by simp
  with OpCancel ap sub nc show ?thesis by auto
next
  case (OpPublish sid' ev)
  have "sid' = sid" if "ch \<in> set (sub_list b sid')"
    using inv sub that by (auto simp: bus_inv_def)
  moreover have "b' = b\<lparr>buf := (\<lambda>c. if c \<in> set (sub_list b sid') then served ev (buf b c) else buf b c),
      totalDrops := totalDrops b + int (length (filter (\<lambda>c. chan_cap \<le> length (buf b c)) (sub_list b sid')))\<rparr>"
    "r = []"
    using OpPublish ap Publish_eq [OF inv, of sid' ev] by simp_all
  ultimately show ?thesis using OpPublish sub by (cases "sid' = sid") auto
next
  case (OpReceive c)
  show ?thesis
  proof (cases "buf b c")
    case Nil
    with OpReceive ap sub show ?thesis by (simp add: receive_def split: if_splits)
  next
    case (Cons e es)
    with OpReceive ap have "b' = b\<lparr>buf := (buf b)(c := es)\<rparr>" "r = [(c, e)]"
      by (simp_all add: receive_def)
    with OpReceive Cons sub show ?thesis by (simp add: recvs_def)
  qed
qed

lemma pubs_Cons: "pubs sid (x # xs) = pubs sid [x] @ pubs sid xs"
  by (cases x) auto

lemma pubs_single: "pubs sid [x] = (if (\<exists>ev. x = OpPublish sid ev) then [hd (pubs sid [x])] else [])"
  by (cases x) auto

lemma bus_run_delivery:
  assumes "bus_inv b" "ch \<in> set (sub_list b sid)" "bus_run xs b = Some (b', r)" "OpCancel sid ch \<notin> set xs"
  shows "subseq (recvs ch r @ buf b' ch) (buf b ch @ pubs sid xs)
    \<and> (length (buf b ch) + length (pubs sid xs) \<le> chan_cap \<longrightarrow> recvs ch r @ buf b' ch = buf b ch @ pubs sid xs)"
  using assms
proof (induction xs arbitrary: b r)
  case (Cons x xs)
  from Cons.prems(3) obtain b1 r1 r2 where
    st: "bus_apply x b = Some (b1, r1)" "bus_run xs b1 = Some (b', r2)" "r = r1 @ r2"
    by (auto split: option.splits prod.splits)
  have inv1: "bus_inv b1" using bus_apply_inv [OF Cons.prems(1), of x] st(1) by auto
  have nc: "x \<noteq> OpCancel sid ch" using Cons.prems(4) by auto
  note ch1 = bus_apply_chan [OF Cons.prems(1,2) st(1) nc]
  have IH: "subseq (recvs ch r2 @ buf b' ch) (buf b1 ch @ pubs sid xs)"
    "length (buf b1 ch) + length (pubs sid xs) \<le> chan_cap \<longrightarrow> recvs ch r2 @ buf b' ch = buf b1 ch @ pubs sid xs"
    using Cons.IH [OF inv1 _ st(2)] ch1 Cons.prems(4) by auto
  let ?q1 = "recvs ch r1 @ buf b1 ch"
  have q1: "?q1 = buf b ch @ pubs sid [x] \<or> ?q1 = buf b ch \<and> chan_cap \<le> length (buf b ch) \<and> pubs sid [x] \<noteq> []"
    using ch1 pubs_single [of sid x] by (auto simp: served_def split: if_splits)
  have sub: "subseq ?q1 (buf b ch @ pubs sid [x])" using q1 by auto
  have "subseq (recvs ch r1 @ (recvs ch r2 @ buf b' ch)) (recvs ch r1 @ (buf b1 ch @ pubs sid xs))"
    by (rule list_emb_append_mono [OF subseq_order.order_refl IH(1)])
  also have "subseq (recvs ch r1 @ (buf b1 ch @ pubs sid xs)) (buf b ch @ pubs sid (x # xs))"
    using list_emb_append_mono [OF sub, of "pubs sid xs" "pubs sid xs"] pubs_Cons [of sid x xs] by simp
  finally have "subseq (recvs ch r @ buf b' ch) (buf b ch @ pubs sid (x # xs))" using st(3) by simp
  moreover have "recvs ch r @ buf b' ch = buf b ch @ pubs sid (x # xs)"
    if le: "length (buf b ch) + length (pubs sid (x # xs)) \<le> chan_cap"
  proof -
    have "length (buf b ch) + length (pubs sid [x]) + length (pubs sid xs) \<le> chan_cap"
      using le pubs_Cons [of sid x xs] by simp
    then have eq: "?q1 = buf b ch @ pubs sid [x]" using q1 by (cases "pubs sid [x]") auto
    then have "length (buf b1 ch) \<le> length (buf b ch) + length (pubs sid [x])"
      by (metis le_add2 length_append)
    then have "length (buf b1 ch) + length (pubs sid xs) \<le> chan_cap"
      using le pubs_Cons [of sid x xs] by simp
    with IH(2) have "recvs ch r2 @ buf b' ch = buf b1 ch @ pubs sid xs" by blast
    then have "recvs ch r @ buf b' ch = ?q1 @ pubs sid xs" using st(3) by simp
    then show ?thesis using eq pubs_Cons [of sid x xs] by simp
  qed
  ultimately show ?case by simp
qed simp

text \<open>
  C10. Delivery. After a subscription, as long as it is not cancelled, what the subscriber
  received followed by what is still buffered for it is a subsequence, in order and without
  duplicates, of the events published to its session; and it is all of them while at most 32
  events are published in total, whoever else publishes, subscribes or cancels.
\<close>

theorem subscriber_delivery:
  assumes "bus_inv b" and "Subscribe sid b = (ch, b0)" and "bus_run ops b0 = Some (b', r)"
    and "OpCancel sid ch \<notin> set ops"
  shows "subseq (recvs ch r @ buf b' ch) (pubs sid ops)
    \<and> (length (pubs sid ops) \<le> chan_cap \<longrightarrow> recvs ch r @ buf b' ch = pubs sid ops)"
proof -
  have b0: "b0 = snd (Subscribe sid b)" and ch: "ch = next_chan b"
    using assms(2) Subscribe_fields(1) [of sid b] by (simp_all add: prod_eq_iff)
  have "bus_inv b0" "ch \<in> set (sub_list b0 sid)" "buf b0 ch = []"
    using assms(1) unfolding b0 ch by (simp_all add: inv_rules)
  from bus_run_delivery [OF this(1,2) assms(3,4)] this(3) show ?thesis by simp
qed

theorem subscriber_delivery_witness:
  "bus_inv NewMemoryBus
   \<and> (let e = \<lparr>ev_type = ''result'', ev_data = JNull\<rparr>; ops = [OpPublish ''s'' e, OpPublish ''x'' e, OpReceive 0]
      in \<exists>b' r. bus_run ops (snd (Subscribe ''s'' NewMemoryBus)) = Some (b', r) \<and> recvs 0 r @ buf b' 0 = [e])"
proof -
  let ?e = "\<lparr>ev_type = ''result'', ev_data = JNull\<rparr>"
  let ?ops = "[OpPublish ''s'' ?e, OpPublish ''x'' ?e, OpReceive 0]"
  have sub: "Subscribe ''s'' NewMemoryBus = (0, snd (Subscribe ''s'' NewMemoryBus))"
    by (simp add: Subscribe_def NewMemoryBus_def)
  obtain b' r where run: "bus_run ?ops (snd (Subscribe ''s'' NewMemoryBus)) = Some (b', r)"
    using bus_run_inv [OF bus_inv_Subscribe [OF bus_inv_New]] by blast
  from subscriber_delivery [OF bus_inv_New sub run] have "recvs 0 r @ buf b' 0 = [?e]"
    by (simp add: chan_cap_def)
  with run bus_inv_New show ?thesis unfolding Let_def by blast
qed

section \<open>The interface the handlers use\<close>

text \<open>
  The Go interface \<open>Bus\<close>: a client subscribes and publishes and relies on the laws below. A
  handler that publishes a batch of events to its session is \<open>publish_all\<close>.
\<close>

fun publish_all :: "('s \<Rightarrow> event \<Rightarrow> 'b \<Rightarrow> 'b option) \<Rightarrow> 's \<Rightarrow> event list \<Rightarrow> 'b \<Rightarrow> 'b option" where
  "publish_all pub sid [] b = Some b"
| "publish_all pub sid (ev # evs) b =
     (case pub sid ev b of None \<Rightarrow> None | Some b' \<Rightarrow> publish_all pub sid evs b')"

locale sse_bus =
  fixes inv :: "'b \<Rightarrow> bool"
    and subscribe :: "string \<Rightarrow> 'b \<Rightarrow> 'c \<times> 'b"
    and publish :: "string \<Rightarrow> event \<Rightarrow> 'b \<Rightarrow> 'b option"
    and pending :: "'c \<Rightarrow> 'b \<Rightarrow> event list"
    and listens :: "'c \<Rightarrow> string \<Rightarrow> 'b \<Rightarrow> bool"
    and capacity :: nat
  assumes subscribe_inv: "inv b \<Longrightarrow> inv (snd (subscribe sid b))"
    and subscribe_listens: "inv b \<Longrightarrow> listens (fst (subscribe sid b)) sid (snd (subscribe sid b))
          \<and> pending (fst (subscribe sid b)) (snd (subscribe sid b)) = []"
    and publish_total: "inv b \<Longrightarrow> \<exists>b'. publish sid ev b = Some b' \<and> inv b'"
    and publish_own: "inv b \<Longrightarrow> listens c sid b \<Longrightarrow> publish sid ev b = Some b' \<Longrightarrow>
          listens c sid b' \<and>
          pending c b' = (if length (pending c b) < capacity then pending c b @ [ev] else pending c b)"
    and publish_other: "inv b \<Longrightarrow> listens c sid b \<Longrightarrow> sid' \<noteq> sid \<Longrightarrow> publish sid' ev b = Some b' \<Longrightarrow>
          listens c sid b' \<and> pending c b' = pending c b"
begin

lemma publish_all_total: "inv b \<Longrightarrow> \<exists>b'. publish_all publish sid evs b = Some b' \<and> inv b'"
proof (induction evs arbitrary: b)
  case (Cons ev evs)
  from publish_total [OF Cons.prems] obtain b1 where "publish sid ev b = Some b1" "inv b1" by blast
  with Cons.IH [of b1] show ?case by auto
qed simp

lemma publish_all_own:
  "inv b \<Longrightarrow> listens c sid b \<Longrightarrow> length (pending c b) + length evs \<le> capacity \<Longrightarrow>
   publish_all publish sid evs b = Some b' \<Longrightarrow> listens c sid b' \<and> pending c b' = pending c b @ evs"
proof (induction evs arbitrary: b)
  case (Cons ev evs)
  from publish_total [OF Cons.prems(1), of sid ev] obtain b1 where b1: "publish sid ev b = Some b1" "inv b1" by blast
  from publish_own [OF Cons.prems(1,2) b1(1)] Cons.prems(3)
  have p1: "listens c sid b1" "pending c b1 = pending c b @ [ev]" by auto
  with Cons.IH [OF b1(2) p1(1)] Cons.prems(3,4) b1(1) show ?case by auto
qed simp

lemma publish_all_other:
  "inv b \<Longrightarrow> listens c sid b \<Longrightarrow> sid' \<noteq> sid \<Longrightarrow>
   publish_all publish sid' evs b = Some b' \<Longrightarrow> listens c sid b' \<and> pending c b' = pending c b"
proof (induction evs arbitrary: b)
  case (Cons ev evs)
  from publish_total [OF Cons.prems(1), of sid' ev] obtain b1 where b1: "publish sid' ev b = Some b1" "inv b1" by blast
  from publish_other [OF Cons.prems(1,2,3) b1(1)] have "listens c sid b1" "pending c b1 = pending c b" by auto
  with Cons.IH [OF b1(2)] Cons.prems(3,4) b1(1) show ?case by auto
qed simp

lemma publish_all_fresh:
  assumes "inv b" and "length evs \<le> capacity"
    and "publish_all publish sid evs (snd (subscribe sid b)) = Some b'"
  shows "pending (fst (subscribe sid b)) b' = evs"
  using publish_all_own [OF subscribe_inv [OF assms(1)] conjunct1 [OF subscribe_listens [OF assms(1)]] _ assms(3)]
    subscribe_listens [OF assms(1), of sid] assms(2) by simp

end

interpretation mb: sse_bus bus_inv Subscribe Publish "\<lambda>c b. buf b c" "\<lambda>c sid b. c \<in> set (sub_list b sid)" chan_cap
proof unfold_locales
  fix b sid
  assume "bus_inv b"
  then show "bus_inv (snd (Subscribe sid b))" by (rule inv_rules)
next
  fix b sid ev
  assume "bus_inv b"
  then show "\<exists>b'. Publish sid ev b = Some b' \<and> bus_inv b'" by (rule inv_rules)
next
  fix b c sid ev b'
  assume "bus_inv b" "c \<in> set (sub_list b sid)" "Publish sid ev b = Some b'"
  then show "c \<in> set (sub_list b' sid) \<and>
      buf b' c = (if length (buf b c) < chan_cap then buf b c @ [ev] else buf b c)"
    by (auto simp: Publish_eq served_def)
next
  fix b c sid sid' ev b'
  assume h: "bus_inv b" "c \<in> set (sub_list b sid)" "sid' \<noteq> sid" "Publish sid' ev b = Some b'"
  then have "c \<notin> set (sub_list b sid')" by (auto simp: bus_inv_def)
  with h show "c \<in> set (sub_list b' sid) \<and> buf b' c = buf b c" by (auto simp: Publish_eq)
qed simp_all

end
