(* ===== verification/Sessions.thy ===== *)
theory Sessions
  imports Users Ratelimit Ssebus
begin

text \<open>
  Sign-in, health, and chat sessions: \<open>internal/handlers/handlers.go\<close> without the router,
  and \<open>internal/handlers/bcrypt.go\<close>. The handlers behind the authentication middleware read
  the claims without a nil check, so they take them directly. \<open>SessionStream\<close> is modelled by
  its three phases: opening (the check and the subscription), one round of its loop, and closing,
  since requests that publish run in between.
\<close>

definition version :: string where
  "version = ''0.1.0-dev''"

definition sessionBelongsToWorkspace :: "env \<Rightarrow> nat \<Rightarrow> string \<Rightarrow> string \<Rightarrow> platform \<Rightarrow> bool" where
  "sessionBelongsToWorkspace e k sessionID workspaceID db =
     (case query_row e k (map s_ws (filter (\<lambda>s. s_id s = sessionID) (sessions db))) of
        Inl _ \<Rightarrow> False
      | Inr ws \<Rightarrow> ws = workspaceID)"

definition compareBcrypt :: "env \<Rightarrow> string \<Rightarrow> string \<Rightarrow> bool" where
  "compareBcrypt e password hash = bcrypt_cmp e password hash"

definition bcryptCompare :: "env \<Rightarrow> string \<Rightarrow> string \<Rightarrow> bool" where
  "bcryptCompare e pw hash = compareBcrypt e pw hash"

text \<open>
  The clock \<open>t\<close> is in nanoseconds; the two readings of the limiter are \<open>t\<close> and
  \<open>t2\<close>. The body is e-mail and password.
\<close>

definition Login ::
  "env \<Rightarrow> jwtlib \<Rightarrow> (zcmd list \<Rightarrow> 'r \<Rightarrow> int list res \<times> 'r) \<Rightarrow> int \<Rightarrow> int \<Rightarrow> bool \<Rightarrow> string \<Rightarrow> string \<Rightarrow>
     (string \<times> string) option \<Rightarrow> 'r option \<Rightarrow> platform \<Rightarrow> response \<times> 'r option" where
  "Login e L pipe_exec t t2 RateLimitFailClosed JWTSecret remoteAddr bo rdb db =
     (case Allow pipe_exec t t2 rdb (''login:'' @ remoteAddr) 20 (60 * Second) RateLimitFailClosed of
        ((allowed, _), rdb') \<Rightarrow>
          (if \<not> allowed then errJSON StatusTooManyRequests ''rate limit''
           else (case bo of
                   None \<Rightarrow> errJSON StatusBadRequest ''invalid json''
                 | Some (email, password) \<Rightarrow>
                     (case query_row e 0 (filter (\<lambda>u. u_ws u = DemoWorkspaceID \<and> u_email u = TrimSpace email) (users db)) of
                        Inl _ \<Rightarrow> errJSON StatusUnauthorized ''invalid credentials''
                      | Inr u \<Rightarrow>
                          if \<not> bcryptCompare e password (u_hash u) then errJSON StatusUnauthorized ''invalid credentials''
                          else (case Sign L t (uuid e 0) JWTSecret (u_id u) DemoWorkspaceID (u_role u) (24 * Hour) of
                                  Inl _ \<Rightarrow> errJSON StatusInternalServerError ''token''
                                | Inr tok \<Rightarrow>
                                    JSON StatusOK (JObj [(''access_token'', JStr tok), (''token_type'', JStr ''Bearer''),
                                      (''expires_in'', JInt 86400), (''workspace_id'', JStr DemoWorkspaceID),
                                      (''role'', JStr (u_role u))])))),
           rdb'))"

text \<open>The pings of the database and of Redis (if configured) succeed or not.\<close>

definition Health :: "bool \<Rightarrow> bool option \<Rightarrow> response" where
  "Health db_up redis_up =
     (let pg = (if db_up then ''ok'' else ''down'');
          rd = (case redis_up of None \<Rightarrow> ''ok'' | Some up \<Rightarrow> if up then ''ok'' else ''down'');
          code = (if pg \<noteq> ''ok'' \<or> rd \<noteq> ''ok'' then StatusServiceUnavailable else StatusOK)
      in JSON code (JObj [(''postgres'', JStr pg), (''redis'', JStr rd)]))"

definition Version :: response where
  "Version = JSON StatusOK (JObj [(''version'', JStr version)])"

definition session_json :: "session \<Rightarrow> json" where
  "session_json s = JObj [(''id'', JStr (s_id s)), (''title'', JStr (s_title s)), (''created_at'', JStr (rfc3339 (s_created s)))]"

definition session_list :: "string \<Rightarrow> platform \<Rightarrow> session list" where
  "session_list ws db = take 50 (sort_key (\<lambda>s. - s_created s) (filter (\<lambda>s. s_ws s = ws) (sessions db)))"

definition ListSessions :: "env \<Rightarrow> Claims \<Rightarrow> platform \<Rightarrow> response" where
  "ListSessions e c db =
     (case query e 0 (session_list (WorkspaceID c) db) of
        Inl _ \<Rightarrow> errJSON StatusInternalServerError ''db''
      | Inr rows0 \<Rightarrow>
          (let rows = rows_next e 0 rows0 in
           if scan_fails e 0 rows then errJSON StatusInternalServerError ''db''
           else (case rows_Err e 0 of
                   Some _ \<Rightarrow> errJSON StatusInternalServerError ''db''
                 | None \<Rightarrow> JSON StatusOK (JObj [(''sessions'', json_slice (map session_json rows))]))))"

definition SSEToken :: "env \<Rightarrow> jwtlib \<Rightarrow> int \<Rightarrow> string \<Rightarrow> Claims \<Rightarrow> string \<Rightarrow> platform \<Rightarrow> response" where
  "SSEToken e L t JWTSecret c sid db =
     (if \<not> sessionBelongsToWorkspace e 0 sid (WorkspaceID c) db then errJSON StatusNotFound ''session not found''
      else (case SignSSEToken L t (uuid e 0) JWTSecret (UserID c) (WorkspaceID c) sid of
              Inl _ \<Rightarrow> errJSON StatusInternalServerError ''sse token''
            | Inr tok \<Rightarrow> JSON StatusOK (JObj [(''sse_token'', JStr tok), (''expires_in'', JInt 3600)])))"

definition message_json :: "message \<Rightarrow> json" where
  "message_json m = JObj [(''id'', JStr (m_id m)), (''role'', JStr (m_role m)), (''content'', m_content m),
                          (''created_at'', JStr (rfc3339 (m_created m)))]"

definition step_json :: "step \<Rightarrow> json" where
  "step_json s = JObj [(''step_index'', JInt (st_index s)), (''agent_name'', JStr (st_agent s)), (''status'', JStr (st_status s)),
     (''input_summary'', JStr (st_in s)), (''output_summary'', JStr (st_out s)), (''error_message'', JStr (st_err s)),
     (''created_at'', JStr (rfc3339 (st_created s)))]"

definition session_steps :: "string \<Rightarrow> platform \<Rightarrow> step list" where
  "session_steps sid db =
     sort_key st_created (filter (\<lambda>s. st_run s \<in> r_id ` {r \<in> set (runs db). r_session r = sid}) (steps db))"

definition ListMessages :: "env \<Rightarrow> Claims \<Rightarrow> string \<Rightarrow> platform \<Rightarrow> response" where
  "ListMessages e c sid db =
     (if \<not> sessionBelongsToWorkspace e 0 sid (WorkspaceID c) db then errJSON StatusNotFound ''session not found''
      else (case query e 1 (sort_key m_created (filter (\<lambda>m. m_session m = sid) (messages db))) of
              Inl _ \<Rightarrow> errJSON StatusInternalServerError ''db''
            | Inr rows0 \<Rightarrow>
                (let rows = rows_next e 1 rows0 in
                 if scan_fails e 1 rows then errJSON StatusInternalServerError ''db''
                 else (let stepRows = (case query e 2 (session_steps sid db) of
                                         Inl _ \<Rightarrow> []
                                       | Inr srows \<Rightarrow> scan_skip e 2 (rows_next e 2 srows))
                       in JSON StatusOK (JObj [(''messages'', json_slice (map message_json rows)),
                                               (''run_steps'', json_slice (map step_json stepRows))])))))"

text \<open>
  The body of \<open>CreateSession\<close> is the struct as the decoder leaves it: an error of the decoder
  is only logged, and fields it did not reach keep their zero value.
\<close>

record create_session_body =
  cs_title :: string
  cs_data_source :: string
  cs_dataset :: string
  cs_query_source :: string

definition cs_title_of :: "create_session_body \<Rightarrow> string" where
  "cs_title_of b = (let t = TrimSpace (cs_title b) in if t = [] then ''New session'' else t)"

definition cs_source_of :: "create_session_body \<Rightarrow> string" where
  "cs_source_of b =
     (let q = TrimSpace (cs_query_source b) in
      if q = [] then (if cs_dataset b \<noteq> [] then ''dataset'' else ''knowledge'') else q)"

text \<open>The checks of \<open>CreateSession\<close>, in its order: the message of the 400 answer, if any.\<close>

definition create_session_check :: "env \<Rightarrow> Claims \<Rightarrow> create_session_body \<Rightarrow> platform \<Rightarrow> err" where
  "create_session_check e c b db =
     (let querySource = cs_source_of b; ds = TrimSpace (cs_data_source b); did = TrimSpace (cs_dataset b) in
      if querySource \<noteq> ''knowledge'' \<and> querySource \<noteq> ''dataset''
      then Some (''query_source must be 'knowledge' or 'dataset'' @ [CHR 0x27])
      else if ds \<noteq> [] \<and> isl (query_row e 0 (map ds_id (filter (\<lambda>d. ds_id d = ds \<and> ds_ws d = WorkspaceID c) (dsources db))))
      then Some ''data_source_id not found or not in workspace''
      else if querySource = ''dataset'' \<and> did = []
      then Some (''dataset_id is required when query_source is 'dataset'' @ [CHR 0x27])
      else if querySource = ''dataset'' \<and>
              count_or_zero e 1 (filter (\<lambda>d. d_id d = did \<and> d_status d \<noteq> ''deleted'') (datasets db)) = 0
      then Some ''dataset not found''
      else None)"

definition session_row :: "env \<Rightarrow> Claims \<Rightarrow> create_session_body \<Rightarrow> session" where
  "session_row e c b =
     \<lparr>s_id = uuid e 0, s_ws = WorkspaceID c, s_user = UserID c,
      s_ds = (let ds = TrimSpace (cs_data_source b) in if ds \<noteq> [] then Some ds else None),
      s_dataset = (if cs_source_of b = ''dataset'' then Some (TrimSpace (cs_dataset b)) else None),
      s_title = cs_title_of b, s_created = now e\<rparr>"

definition CreateSession :: "env \<Rightarrow> Claims \<Rightarrow> create_session_body \<Rightarrow> platform \<Rightarrow> response \<times> platform" where
  "CreateSession e c b db =
     (case create_session_check e c b db of
        Some m \<Rightarrow> (errJSON StatusBadRequest m, db)
      | None \<Rightarrow>
          (case exec e 2 (insert_session (session_row e c b)) db of
             Inl _ \<Rightarrow> (errJSON StatusInternalServerError ''db'', db)
           | Inr db' \<Rightarrow> (JSON StatusCreated (JObj [(''id'', JStr (uuid e 0)), (''title'', JStr (cs_title_of b))]), db')))"

section \<open>The event stream\<close>

definition stream_open :: "env \<Rightarrow> Claims \<Rightarrow> string \<Rightarrow> platform \<Rightarrow> memory_bus \<Rightarrow> (response + chan) \<times> memory_bus" where
  "stream_open e c sid db bus =
     (if \<not> sessionBelongsToWorkspace e 0 sid (WorkspaceID c) db
      then (Inl (errJSON StatusNotFound ''session not found''), bus)
      else (case Subscribe sid bus of (ch, bus') \<Rightarrow> (Inr ch, bus')))"

definition stream_close :: "string \<Rightarrow> chan \<Rightarrow> memory_bus \<Rightarrow> memory_bus option" where
  "stream_close sid ch bus = cancel sid ch bus"

section \<open>Lemmas\<close>

lemma belongs_iff:
  "sessionBelongsToWorkspace e k sid ws db \<longleftrightarrow>
     db_err e k = None \<and> (\<exists>s ss. filter (\<lambda>s. s_id s = sid) (sessions db) = s # ss \<and> s_ws s = ws)"
  by (auto simp: sessionBelongsToWorkspace_def query_row_def split: option.splits list.splits)

lemma belongs_mem:
  "sessionBelongsToWorkspace e k sid ws db \<Longrightarrow> \<exists>s \<in> set (sessions db). s_id s = sid \<and> s_ws s = ws"
  by (auto simp: belongs_iff dest!: filter_eq_ConsD)

lemma insert_session_Inr:
  "insert_session s db = Inr db' \<Longrightarrow> db' = db\<lparr>sessions := sessions db @ [s]\<rparr> \<and> s_id s \<notin> s_id ` set (sessions db)
     \<and> s_ws s \<in> set (workspaces db) \<and> s_user s \<in> u_id ` set (users db)"
  by (auto simp: insert_session_def split: if_splits)

lemma session_row_simps [simp]:
  "s_id (session_row e c b) = uuid e 0" "s_ws (session_row e c b) = WorkspaceID c" "s_user (session_row e c b) = UserID c"
  "s_title (session_row e c b) = cs_title_of b"
  by (simp_all add: session_row_def)

lemma cs_title_of_nonempty: "cs_title_of b \<noteq> []"
  by (simp add: cs_title_of_def Let_def)

lemma CreateSession_cases:
  "snd (CreateSession e c b db) = db \<and> status (fst (CreateSession e c b db)) \<noteq> StatusCreated
   \<or> insert_session (session_row e c b) db = Inr (snd (CreateSession e c b db))
      \<and> status (fst (CreateSession e c b db)) = StatusCreated \<and> create_session_check e c b db = None"
  unfolding CreateSession_def
  by (auto simp: exec_Inr_iff split: sum.splits option.splits)

section \<open>Properties\<close>

text \<open>
  C32. Workspace isolation of sessions. When no stored session with the given identifier belongs to
  the caller's workspace, reading its messages, asking for a stream token and opening its stream
  are all answered 404, whatever else the database holds or fails to do, and the event bus is left
  as it was.
\<close>

theorem session_isolation:
  assumes "\<forall>s \<in> set (sessions db). s_id s = sid \<longrightarrow> s_ws s \<noteq> WorkspaceID c"
  shows "status (ListMessages e c sid db) = StatusNotFound
         \<and> status (SSEToken e L t secret c sid db) = StatusNotFound
         \<and> stream_open e c sid db bus = (Inl (errJSON StatusNotFound ''session not found''), bus)"
proof -
  have "\<not> sessionBelongsToWorkspace e 0 sid (WorkspaceID c) db" using assms belongs_mem by blast
  then show ?thesis by (simp add: ListMessages_def SSEToken_def stream_open_def)
qed

definition demo_session :: "string \<Rightarrow> string \<Rightarrow> session" where
  "demo_session i ws = \<lparr>s_id = i, s_ws = ws, s_user = ''u'', s_ds = None, s_dataset = None, s_title = ''t'', s_created = 0\<rparr>"

theorem session_isolation_witness:
  "status (ListMessages calm_env (demo_super ''a'') ''s1'' (empty_platform\<lparr>sessions := [demo_session ''s1'' ''other'']\<rparr>)) = StatusNotFound"
  using session_isolation [of "empty_platform\<lparr>sessions := [demo_session ''s1'' ''other'']\<rparr>" "''s1''" "demo_super ''a''" calm_env]
  by (simp add: demo_session_def demo_super_def DemoWorkspaceID_def demoWorkspaceID_def)

text \<open>
  A session that was created is the caller's. When \<open>CreateSession\<close> answers 201, exactly one
  session was added, it belongs to the caller and to the caller's workspace, it has a title, every
  later session endpoint of that workspace finds it, and no session with its identifier existed; every
  other answer leaves the database untouched.
\<close>

theorem CreateSession_owned:
  assumes "CreateSession e c b db = (resp, db')" and "db_err e' 0 = None"
  shows "if status resp = StatusCreated
         then (\<exists>s. db' = db\<lparr>sessions := sessions db @ [s]\<rparr> \<and> s_id s = uuid e 0 \<and> s_user s = UserID c
                  \<and> s_title s \<noteq> [] \<and> s_id s \<notin> s_id ` set (sessions db))
              \<and> (\<forall>ws. sessionBelongsToWorkspace e' 0 (uuid e 0) ws db' \<longleftrightarrow> ws = WorkspaceID c)
         else db' = db"
proof (cases "status resp = StatusCreated")
  case False
  then show ?thesis using CreateSession_cases [of e c b db] assms(1) by auto
next
  case True
  let ?s = "session_row e c b"
  have ins: "insert_session ?s db = Inr db'" using CreateSession_cases [of e c b db] assms(1) True by auto
  have new: "filter (\<lambda>s. s_id s = uuid e 0) (sessions db) = []"
    using insert_session_Inr [OF ins] by (simp add: filter_empty_conv image_iff) metis
  have "\<forall>ws. sessionBelongsToWorkspace e' 0 (uuid e 0) ws db' \<longleftrightarrow> ws = WorkspaceID c"
    using insert_session_Inr [OF ins] new assms(2) by (auto simp: belongs_iff)
  then show ?thesis
    using True insert_session_Inr [OF ins] cs_title_of_nonempty by (auto intro!: exI [of _ ?s])
qed

definition demo_body :: create_session_body where
  "demo_body = \<lparr>cs_title = ''q1'', cs_data_source = [], cs_dataset = [], cs_query_source = []\<rparr>"

lemma demo_create_session:
  "CreateSession calm_env (demo_super ''a'') demo_body (demo_user_db [demo_user_row ''a'' ''super_admin''] []) =
     (JSON StatusCreated (JObj [(''id'', JStr (''uuid-'' @ nat_dec 0)), (''title'', JStr ''q1'')]),
      (demo_user_db [demo_user_row ''a'' ''super_admin''] [])\<lparr>sessions := [session_row calm_env (demo_super ''a'') demo_body]\<rparr>)"
proof -
  have t: "TrimSpace ''q1'' = ''q1''" "TrimSpace [] = []" by (simp_all add: trim_eval)
  show ?thesis
    by (simp add: CreateSession_def create_session_check_def cs_source_of_def cs_title_of_def demo_body_def t exec_def
        insert_session_def session_row_def calm_env_def demo_super_def demo_user_db_def empty_platform_def)
qed

theorem CreateSession_owned_witness:
  "\<forall>ws. sessionBelongsToWorkspace calm_env 0 (''uuid-'' @ nat_dec 0) ws
     ((demo_user_db [demo_user_row ''a'' ''super_admin''] [])\<lparr>sessions := [session_row calm_env (demo_super ''a'') demo_body]\<rparr>)
   \<longleftrightarrow> ws = DemoWorkspaceID"
  using CreateSession_owned [OF demo_create_session, of calm_env] by simp

lemma TrimSpace_email:
  assumes "TrimSpace s = s"
  shows "TrimSpace (s @ ''@phone.local'') = s @ ''@phone.local''"
proof (rule TrimSpace_id)
  fix w assume w: "w \<in> set space_seqs"
  have chars: "CHR ''@'' \<notin> set w" "CHR ''l'' \<notin> set w" "w \<noteq> []"
    using w by (auto simp: space_seqs_def)
  have "\<not> prefix w s" using TrimSpace_clean_left [OF w, of s] assms by simp
  then have "\<not> prefix w (s @ ''@phone.local'')" using chars(1) by (auto simp: prefix_append prefix_Cons)
  moreover have "\<not> suffix w (s @ ''@phone.local'')"
  proof
    assume "suffix w (s @ ''@phone.local'')"
    then have "last w = CHR ''l''" using chars(3) by (auto simp: suffix_def dest: arg_cong [where f = last])
    then show False using chars by (metis last_in_set)
  qed
  ultimately show "\<not> prefix w (s @ ''@phone.local'') \<and> \<not> suffix w (s @ ''@phone.local'')" by simp
qed

lemma SelfRegister_created:
  assumes "SelfRegister e (Some (name, phone, pw)) db = (resp, db')" and "status resp = StatusCreated"
  shows "\<exists>h. bcrypt_gen e pw = Inr h \<and>
    insert_user \<lparr>u_id = uuid e 0, u_ws = DemoWorkspaceID, u_email = TrimSpace phone @ ''@phone.local'', u_hash = h,
      u_role = ''normal_user'', u_name = TrimSpace name, u_phone = TrimSpace phone, u_created = now e\<rparr> db = Inr db'"
  using assms
  by (auto simp: SelfRegister_def create_user_def Let_def exec_Inr_iff split: if_splits sum.splits)

lemma Login_found:
  assumes "query_row e 0 (filter (\<lambda>u. u_ws u = DemoWorkspaceID \<and> u_email u = TrimSpace email) (users db)) = Inr u"
    and "bcrypt_cmp e pw (u_hash u)"
    and "Sign L t (uuid e 0) secret (u_id u) DemoWorkspaceID (u_role u) (24 * Hour) = Inr tok"
    and "Allow pipe t t2 rdb (''login:'' @ addr) 20 (60 * Second) fc = ((True, ae), rdb')"
  shows "Login e L pipe t t2 fc secret addr (Some (email, pw)) rdb db =
    (JSON StatusOK (JObj [(''access_token'', JStr tok), (''token_type'', JStr ''Bearer''),
       (''expires_in'', JInt 86400), (''workspace_id'', JStr DemoWorkspaceID), (''role'', JStr (u_role u))]), rdb')"
  using assms by (simp add: Login_def bcryptCompare_def compareBcrypt_def)

text \<open>
  C20. Registration and sign-in fit together. When a self-registration answers 201, signing in with
  the address derived from the phone number and the same password succeeds, with whatever Redis
  client and limiter setting the hub runs, as long as the limiter admits the call and the query for
  the user works; and the token it returns parses, for the next 24 hours, to the new user in the demo
  workspace with the role \<open>normal_user\<close>. The laws assumed are those of bcrypt and of the token library.
\<close>

theorem register_then_login:
  assumes reg: "SelfRegister e (Some (name, phone, pw)) db = (resp, db')" "status resp = StatusCreated"
    and bcrypt: "\<And>p h. bcrypt_gen e p = Inr h \<Longrightarrow> bcrypt_cmp e' p h"
    and jwt: "jwt_law L" "Sign L t (uuid e' 0) secret (uuid e 0) DemoWorkspaceID ''normal_user'' (24 * Hour) = Inr tok"
    and up: "db_err e' 0 = None"
    and admitted: "Allow pipe t t2 rdb (''login:'' @ addr) 20 (60 * Second) fc = ((True, ae), rdb')"
  shows "\<exists>rest. Login e' L pipe t t2 fc secret addr (Some (TrimSpace phone @ ''@phone.local'', pw)) rdb db'
            = (JSON StatusOK (JObj ((''access_token'', JStr tok) # rest)), rdb')
         \<and> (now' < (t + 24 * Hour) div Second * Second \<longrightarrow>
              (\<exists>c. Parse L now' secret tok = Inr c \<and> UserID c = uuid e 0 \<and> WorkspaceID c = DemoWorkspaceID \<and> Role c = ''normal_user''))"
proof -
  obtain h where h: "bcrypt_gen e pw = Inr h"
    and ins: "insert_user \<lparr>u_id = uuid e 0, u_ws = DemoWorkspaceID, u_email = TrimSpace phone @ ''@phone.local'', u_hash = h,
      u_role = ''normal_user'', u_name = TrimSpace name, u_phone = TrimSpace phone, u_created = now e\<rparr> db = Inr db'" (is "insert_user ?u db = _")
    using SelfRegister_created [OF reg] by blast
  have none: "filter (\<lambda>u. u_ws u = DemoWorkspaceID \<and> u_email u = TrimSpace phone @ ''@phone.local'') (users db) = []"
    using ins by (auto simp: insert_user_Inr filter_empty_conv image_iff)
  have found: "query_row e' 0 (filter (\<lambda>u. u_ws u = DemoWorkspaceID \<and> u_email u = TrimSpace (TrimSpace phone @ ''@phone.local'')) (users db')) = Inr ?u"
    using ins none up by (auto simp: insert_user_Inr TrimSpace_email query_row_Inr_iff)
  have parse: "now' < (t + 24 * Hour) div Second * Second \<longrightarrow>
      (\<exists>c. Parse L now' secret tok = Inr c \<and> UserID c = uuid e 0 \<and> WorkspaceID c = DemoWorkspaceID \<and> Role c = ''normal_user'')"
    using jwt_law_sign [OF jwt(1) jwt(2) [unfolded Sign_def], of now']
    by (simp add: validate_times_def time_errors_def NewNumericDate_def)
  show ?thesis
    using Login_found [OF found _ _ admitted, of pw L secret tok] bcrypt [OF h] jwt(2) parse by auto
qed

definition demo_login_claims :: Claims where
  "demo_login_claims = \<lparr>UserID = ''uuid-'' @ nat_dec 0, WorkspaceID = DemoWorkspaceID, Role = ''normal_user'', ExpiresAt = Some 86400,
     NotBefore = None, IssuedAt = Some 0, ID = ''uuid-'' @ nat_dec 0, Subject = []\<rparr>"

lemma demo_login_sign:
  "Sign (demo_jwt (claims_json demo_login_claims)) 0 (uuid calm_env 0) ''k'' (uuid calm_env 0) DemoWorkspaceID ''normal_user'' (24 * Hour) = Inr ''tok''"
  by (simp add: Sign_def demo_jwt_def demo_login_claims_def NewNumericDate_def)

lemma demo_login_limiter:
  "\<exists>rd. Allow demo_pipe 0 1 (Some (\<lambda>k. Map.empty)) (''login:'' @ ''10.0.0.1'') 20 (60 * Second) True = ((True, None), Some rd)"
proof -
  have none: "\<not> (0 \<le> s \<and> s \<le> f64 (- 59999999999))" "f64 0 = 0" for s
    by (simp_all add: f64_def f64_nat_exact)
  have keep: "(case if P then Some (0::int) else None of None \<Rightarrow> None | Some s \<Rightarrow> if f64 0 \<le> s \<and> s \<le> f64 (- 59999999999) then None else Some s)
      = (if P then Some 0 else None)" for P
    using none by simp
  have dom: "dom (\<lambda>m. if m = rl_member 0 then Some (0::int) else None) = {rl_member 0}" by (auto split: if_splits)
  have "\<exists>n x z. demo_pipe (rl_cmds (''rl:'' @ ''login:'' @ ''10.0.0.1'') 0 (1 - 60 * Second) (60 * Second)) (\<lambda>k. Map.empty) = (Inr [1, n, 1, x], z)"
    by (simp add: demo_pipe_def rl_cmds_def none(2) keep dom)
  then show ?thesis by (auto simp: Allow_def)
qed

text \<open>A hub with a Redis client and the strict limiter, as \<open>main\<close> builds it.\<close>

theorem register_then_login_witness:
  "\<exists>db' rest rd. Login calm_env (demo_jwt (claims_json demo_login_claims)) demo_pipe 0 1 True ''k'' ''10.0.0.1''
      (Some (TrimSpace ''555'' @ ''@phone.local'', ''pw'')) (Some (\<lambda>k. Map.empty)) db' = (JSON StatusOK (JObj ((''access_token'', JStr ''tok'') # rest)), Some rd)"
proof -
  obtain rd where rd: "Allow demo_pipe 0 1 (Some (\<lambda>k. Map.empty)) (''login:'' @ ''10.0.0.1'') 20 (60 * Second) True = ((True, None), Some rd)"
    using demo_login_limiter by blast
  show ?thesis
    using register_then_login [OF demo_self_register [unfolded user_api.simps] _ _ demo_jwt_law demo_login_sign _ rd, where now' = 5]
    by auto
qed

end
