(* ===== verification/Hub_Crypto.thy ===== *)
theory Hub_Crypto
  imports Go_Strings "HOL-Library.Word"
begin

unbundle bit_operations_syntax

text \<open>
  The encryption of stored credentials: \<open>internal/crypto/aes.go\<close>, with the parts of the Go
  library it uses: \<open>encoding/hex\<close>, and Galois/Counter Mode (\<open>crypto/cipher\<close>) with its
  12-byte nonce and 16-byte tag. The AES permutation on one block is the parameter \<open>aes\<close>
  (key, block): nothing below depends on which function it is. The random nonce, or the error of
  the random source, is an argument.
\<close>

section \<open>encoding/hex\<close>

definition hex_char :: "nat \<Rightarrow> char" where
  "hex_char n = (if n < 10 then char_of (48 + n) else char_of (87 + n))"

definition hex_val :: "char \<Rightarrow> nat option" where
  "hex_val c =
     (let b = byte c in
      if 48 \<le> b \<and> b \<le> 57 then Some (b - 48)
      else if 97 \<le> b \<and> b \<le> 102 then Some (b - 87)
      else if 65 \<le> b \<and> b \<le> 70 then Some (b - 55)
      else None)"

fun EncodeToString :: "string \<Rightarrow> string" where
  "EncodeToString [] = []"
| "EncodeToString (c # s) = hex_char (byte c div 16) # hex_char (byte c mod 16) # EncodeToString s"

definition hex_invalid :: string where
  "hex_invalid = ''encoding/hex: invalid byte''"

definition hex_odd :: string where
  "hex_odd = ''encoding/hex: odd length hex string''"

fun DecodeString :: "string \<Rightarrow> string res" where
  "DecodeString [] = Inr []"
| "DecodeString [c] = (case hex_val c of None \<Rightarrow> Inl hex_invalid | Some _ \<Rightarrow> Inl hex_odd)"
| "DecodeString (p # q # s) =
     (case (hex_val p, hex_val q) of
        (Some a, Some b) \<Rightarrow>
          (case DecodeString s of Inl e \<Rightarrow> Inl e | Inr t \<Rightarrow> Inr (char_of (16 * a + b) # t))
      | _ \<Rightarrow> Inl hex_invalid)"

declare char_of_byte [simp]

lemma hex_val_char: "n < 16 \<Longrightarrow> hex_val (hex_char n) = Some n"
  by (simp add: hex_val_def hex_char_def byte_def of_char_of Let_def)

lemma DecodeString_Encode [simp]: "DecodeString (EncodeToString s) = Inr s"
proof (induction s)
  case (Cons c s)
  have "byte c div 16 < 16" using byte_lt [of c] by linarith
  then show ?case using Cons by (simp add: hex_val_char)
qed simp

lemma length_EncodeToString [simp]: "length (EncodeToString s) = 2 * length s"
  by (induction s) auto

lemma DecodeString_length: "DecodeString s = Inr t \<Longrightarrow> length s = 2 * length t"
  by (induction s arbitrary: t rule: DecodeString.induct) (auto split: option.splits sum.splits)

section \<open>Galois/Counter Mode\<close>

type_synonym block = "128 word"

definition xor_char :: "char \<Rightarrow> char \<Rightarrow> char" where
  "xor_char a b = char_of (byte a XOR byte b)"

definition block_bytes :: "block \<Rightarrow> string" where
  "block_bytes w = map (\<lambda>i. char_of (unat (drop_bit (8 * (15 - i)) w AND 255))) [0..<16]"

definition bytes_block :: "string \<Rightarrow> block" where
  "bytes_block s = foldl (\<lambda>w c. push_bit 8 w OR of_nat (byte c)) 0 (s @ replicate (16 - length s) (char_of (0 :: nat)))"

text \<open>Multiplication in \<open>GF(2^128)\<close>, most significant bit first.\<close>

fun gf_loop :: "nat \<Rightarrow> block \<Rightarrow> block \<Rightarrow> block \<Rightarrow> block" where
  "gf_loop 0 x z v = z"
| "gf_loop (Suc i) x z v =
     gf_loop i x (if bit x i then z XOR v else z)
       (if bit v 0 then drop_bit 1 v XOR push_bit 120 0xe1 else drop_bit 1 v)"

definition gf_mul :: "block \<Rightarrow> block \<Rightarrow> block" where
  "gf_mul x y = gf_loop 128 x 0 y"

function ghash_loop :: "block \<Rightarrow> block \<Rightarrow> string \<Rightarrow> block" where
  "ghash_loop h acc s =
     (if s = [] then acc else ghash_loop h (gf_mul (acc XOR bytes_block (take 16 s)) h) (drop 16 s))"
  by pat_completeness auto
termination by (relation "measure (\<lambda>(h, acc, s). length s)") (auto simp: length_greater_0_conv [symmetric] simp del: length_greater_0_conv)

text \<open>There is no additional data: the last block holds the length of the ciphertext in bits.\<close>

definition ghash :: "block \<Rightarrow> string \<Rightarrow> block" where
  "ghash h c = gf_mul (ghash_loop h 0 c XOR of_nat (8 * length c)) h"

definition inc32 :: "block \<Rightarrow> block" where
  "inc32 w = (w AND NOT (mask 32)) OR ((w + 1) AND mask 32)"

function gctr :: "(block \<Rightarrow> block) \<Rightarrow> block \<Rightarrow> string \<Rightarrow> string" where
  "gctr E cb s =
     (if s = [] then []
      else map2 xor_char (take 16 s) (block_bytes (E cb)) @ gctr E (inc32 cb) (drop 16 s))"
  by pat_completeness auto
termination by (relation "measure (\<lambda>(E, cb, s). length s)") (auto simp: length_greater_0_conv [symmetric] simp del: length_greater_0_conv)

declare ghash_loop.simps [simp del] gctr.simps [simp del]

abbreviation "NonceSize \<equiv> (12 :: nat)"
abbreviation "TagSize \<equiv> (16 :: nat)"

definition gcm_j0 :: "string \<Rightarrow> block" where
  "gcm_j0 nonce = push_bit 32 (drop_bit 32 (bytes_block nonce)) OR 1"

definition gcm_tag :: "(block \<Rightarrow> block) \<Rightarrow> string \<Rightarrow> string \<Rightarrow> string" where
  "gcm_tag E nonce c = block_bytes (ghash (E 0) c XOR E (gcm_j0 nonce))"

definition gcm_Seal :: "(block \<Rightarrow> block) \<Rightarrow> string \<Rightarrow> string \<Rightarrow> string" where
  "gcm_Seal E nonce plaintext =
     (let c = gctr E (inc32 (gcm_j0 nonce)) plaintext in c @ gcm_tag E nonce c)"

definition gcm_Open :: "(block \<Rightarrow> block) \<Rightarrow> string \<Rightarrow> string \<Rightarrow> string res" where
  "gcm_Open E nonce ciphertext =
     (if length ciphertext < TagSize then Inl ''cipher: message authentication failed''
      else (let n = length ciphertext - TagSize; c = take n ciphertext; tag = drop n ciphertext in
            if tag \<noteq> gcm_tag E nonce c then Inl ''cipher: message authentication failed''
            else Inr (gctr E (inc32 (gcm_j0 nonce)) c)))"

section \<open>Encrypt and Decrypt\<close>

definition decode_key :: "string \<Rightarrow> string res" where
  "decode_key keyHex =
     (case DecodeString keyHex of
        Inl e \<Rightarrow> Inl (''decode key: '' @ e)
      | Inr key \<Rightarrow>
          if length key \<noteq> 32 then Inl (''key must be 32 bytes (64 hex chars), got '' @ nat_dec (length key))
          else Inr key)"

definition Encrypt :: "(string \<Rightarrow> block \<Rightarrow> block) \<Rightarrow> string res \<Rightarrow> string \<Rightarrow> string \<Rightarrow> string res" where
  "Encrypt aes rand plaintext keyHex =
     (case decode_key keyHex of
        Inl e \<Rightarrow> Inl e
      | Inr key \<Rightarrow>
          (case rand of
             Inl e \<Rightarrow> Inl (''generate nonce: '' @ e)
           | Inr nonce \<Rightarrow> Inr (EncodeToString (nonce @ gcm_Seal (aes key) nonce plaintext))))"

definition Decrypt :: "(string \<Rightarrow> block \<Rightarrow> block) \<Rightarrow> string \<Rightarrow> string \<Rightarrow> string res" where
  "Decrypt aes cipherHex keyHex =
     (case decode_key keyHex of
        Inl e \<Rightarrow> Inl e
      | Inr key \<Rightarrow>
          (case DecodeString cipherHex of
             Inl e \<Rightarrow> Inl (''decode ciphertext: '' @ e)
           | Inr ciphertext \<Rightarrow>
               if length ciphertext < NonceSize then Inl ''ciphertext too short''
               else (case gcm_Open (aes key) (take NonceSize ciphertext) (drop NonceSize ciphertext) of
                       Inl e \<Rightarrow> Inl (''decrypt: '' @ e)
                     | Inr plaintext \<Rightarrow> Inr plaintext)))"

section \<open>Round trip\<close>

lemma length_block_bytes [simp]: "length (block_bytes w) = 16"
  by (simp add: block_bytes_def)

lemma xor_byte_lt: "byte a XOR byte b < 256"
  using XOR_upper [of "int (byte a)" 8 "int (byte b)"] byte_lt [of a] byte_lt [of b]
  by (simp add: xor_nat_def nat_less_iff)

lemma xor_char_cancel [simp]: "xor_char (xor_char a b) b = a"
proof -
  have "byte (char_of (byte a XOR byte b)) = byte a XOR byte b"
    using xor_byte_lt by (simp add: byte_def of_char_of)
  then show ?thesis by (simp add: xor_char_def ac_simps)
qed

lemma map2_xor_cancel: "length s \<le> length k \<Longrightarrow> map2 xor_char (map2 xor_char s k) k = s"
  by (induction s k rule: list_induct2') auto

lemma length_gctr [simp]: "length (gctr E cb s) = length s"
  by (induction E cb s rule: gctr.induct) (subst gctr.simps, simp add: min_def)

lemma gctr_Nil [simp]: "gctr E cb [] = []"
  by (simp add: gctr.simps)

lemma gctr_gctr: "gctr E cb (gctr E cb s) = s"
proof (induction E cb s rule: gctr.induct)
  case (1 E cb s)
  show ?case
  proof (cases "s = []")
    case False
    let ?h = "map2 xor_char (take 16 s) (block_bytes (E cb))" and ?t = "gctr E (inc32 cb) (drop 16 s)"
    have step: "gctr E cb s = ?h @ ?t" using False by (simp add: gctr.simps [of E cb s])
    have split: "take 16 (?h @ ?t) = ?h \<and> drop 16 (?h @ ?t) = ?t"
    proof (cases "length s \<le> 16")
      case True
      then have "?t = []" by simp
      then show ?thesis by simp
    qed simp
    have "length (?h @ ?t) = length s" by (simp only: step [symmetric] length_gctr)
    then have ne: "?h @ ?t \<noteq> []" using False by fastforce
    have "gctr E cb (?h @ ?t) = map2 xor_char ?h (block_bytes (E cb)) @ gctr E (inc32 cb) ?t"
      by (subst gctr.simps) (simp only: ne conjunct1 [OF split] conjunct2 [OF split] if_False)
    also have "\<dots> = take 16 s @ drop 16 s"
      using 1 False by (simp add: map2_xor_cancel)
    finally show ?thesis using step by simp
  qed (simp add: gctr.simps)
qed

lemma length_gcm_tag [simp]: "length (gcm_tag E n c) = TagSize"
  by (simp add: gcm_tag_def)

lemma length_gcm_Seal [simp]: "length (gcm_Seal E n p) = length p + TagSize"
  by (simp add: gcm_Seal_def Let_def)

lemma gcm_Open_Seal [simp]: "gcm_Open E n (gcm_Seal E n p) = Inr p"
  by (simp add: gcm_Open_def gcm_Seal_def Let_def gctr_gctr)

text \<open>
  C13. Stored credentials round trip. What \<open>Encrypt\<close> returns is a hexadecimal text of twice
  (nonce, plaintext and tag) characters, and \<open>Decrypt\<close> with the same key gives the plaintext
  back, for every block cipher, key, 12-byte nonce and plaintext.
\<close>

theorem Decrypt_Encrypt:
  assumes "Encrypt aes (Inr nonce) plaintext keyHex = Inr cipherHex" and "length nonce = NonceSize"
  shows "Decrypt aes cipherHex keyHex = Inr plaintext
         \<and> length cipherHex = 2 * (NonceSize + length plaintext + TagSize)"
  using assms by (auto simp: Encrypt_def Decrypt_def split: sum.splits)

lemma demo_key: "decode_key (replicate 64 CHR ''0'') = Inr (replicate 32 (char_of (0 :: nat)))"
proof -
  have "DecodeString (EncodeToString (replicate 32 (char_of (0 :: nat)))) = Inr (replicate 32 (char_of (0 :: nat)))" by simp
  moreover have "EncodeToString (replicate n (char_of (0 :: nat))) = replicate (2 * n) CHR ''0''" for n
    by (induction n) (simp_all add: byte_def hex_char_def char_of_def bit_Suc_0_iff)
  ultimately show ?thesis by (simp add: decode_key_def)
qed

theorem Decrypt_Encrypt_witness:
  "\<exists>c. Encrypt (\<lambda>k b. b XOR 5) (Inr ''twelve bytes'') ''secret'' (replicate 64 CHR ''0'') = Inr c
       \<and> Decrypt (\<lambda>k b. b XOR 5) c (replicate 64 CHR ''0'') = Inr ''secret'' \<and> length c = 68"
proof -
  obtain c where c: "Encrypt (\<lambda>k b. b XOR 5) (Inr ''twelve bytes'') ''secret'' (replicate 64 CHR ''0'') = Inr c"
    by (simp only: Encrypt_def demo_key sum.case)
  from Decrypt_Encrypt [OF c] show ?thesis using c by simp
qed

text \<open>Only a key text of exactly 64 hexadecimal digits is accepted.\<close>

lemma decode_key_iff:
  "(\<exists>key. decode_key keyHex = Inr key \<and> length key = 32) \<longleftrightarrow> length keyHex = 64 \<and> list_all (\<lambda>c. hex_val c \<noteq> None) keyHex"
proof
  assume "\<exists>key. decode_key keyHex = Inr key \<and> length key = 32"
  then obtain key where d: "DecodeString keyHex = Inr key" and l: "length key = 32"
    by (auto simp: decode_key_def split: sum.splits if_splits)
  have "DecodeString s = Inr t \<Longrightarrow> list_all (\<lambda>c. hex_val c \<noteq> None) s" for s t
    by (induction s arbitrary: t rule: DecodeString.induct) (auto split: option.splits sum.splits)
  then show "length keyHex = 64 \<and> list_all (\<lambda>c. hex_val c \<noteq> None) keyHex"
    using DecodeString_length [OF d] l d by auto
next
  assume k: "length keyHex = 64 \<and> list_all (\<lambda>c. hex_val c \<noteq> None) keyHex"
  have "even (length s) \<Longrightarrow> list_all (\<lambda>c. hex_val c \<noteq> None) s \<Longrightarrow> \<exists>t. DecodeString s = Inr t" for s
    by (induction s rule: DecodeString.induct) fastforce+
  then obtain key where d: "DecodeString keyHex = Inr key" using k by (metis even_numeral)
  then show "\<exists>key. decode_key keyHex = Inr key \<and> length key = 32"
    using DecodeString_length [OF d] k by (auto simp: decode_key_def)
qed

end
