(* ===== verification/Datasources.thy ===== *)
theory Datasources
  imports Auth Platform_Db Ratelimit Hub_Crypto Mysqlmgr
begin

text \<open>
  External data sources: \<open>internal/handlers/datasources.go\<close>. Passwords are stored encrypted
  (\<open>Hub_Crypto\<close>) and decrypted only to connect. The handlers are mounted behind the
  authentication middleware, so they have claims. Parameters: the block cipher and the nonce, the
  rate limiter's Redis, and the MySQL server (\<open>sql.Open\<close> and \<open>Ping\<close> of a data source name).
\<close>

record 'r limiter =
  lm_pipe :: "zcmd list \<Rightarrow> 'r \<Rightarrow> int list res \<times> 'r"
  lm_now :: int
  lm_edge_now :: int
  lm_fail_closed :: bool

abbreviation "one_minute \<equiv> 60 * (1000000000 :: int)"

definition allow_30 :: "'r limiter \<Rightarrow> string \<Rightarrow> 'r option \<Rightarrow> bool \<times> 'r option" where
  "allow_30 l key rdb =
     (case Allow (lm_pipe l) (lm_now l) (lm_edge_now l) rdb key 30 one_minute (lm_fail_closed l) of ((allowed, _), rdb') \<Rightarrow> (allowed, rdb'))"

record ds_body =
  b_name :: string
  b_kind :: string
  b_host :: string
  b_port :: int
  b_database :: string
  b_username :: string
  b_password :: string
  b_sslmode :: string

record secrets =
  aes_block :: "string \<Rightarrow> block \<Rightarrow> block"
  nonce_src :: "string res"
  enc_key :: string

section \<open>Handlers\<close>

definition dsource_json :: "dsource \<Rightarrow> json" where
  "dsource_json d =
     JObj [(''id'', JStr (ds_id d)), (''name'', JStr (ds_name d)), (''kind'', JStr (ds_kind d)), (''host'', JStr (ds_host d)),
           (''port'', JInt (ds_port d)), (''database'', JStr (ds_database d)), (''username'', JStr (ds_user d)),
           (''has_password'', JBool (length (ds_password d) > 0)), (''sslmode'', JStr (ds_ssl d)),
           (''created_at'', JStr (rfc3339 (ds_created d)))]"

definition ListDataSources :: "env \<Rightarrow> Claims \<Rightarrow> platform \<Rightarrow> response" where
  "ListDataSources e c db =
     (case query e 0 (sort_key (\<lambda>d. - ds_created d) (filter (\<lambda>d. ds_ws d = WorkspaceID c) (dsources db))) of
        Inl _ \<Rightarrow> errJSON StatusInternalServerError ''db''
      | Inr rows0 \<Rightarrow>
          (let rows = rows_next e 0 rows0 in
           if scan_fails e 0 rows then errJSON StatusInternalServerError ''db''
           else JSON StatusOK (JObj [(''items'', json_slice (map dsource_json rows))])))"

text \<open>The checks \<open>CreateDataSource\<close> and \<open>UpdateDataSource\<close> share.\<close>

definition check_ds_body :: "ds_body option \<Rightarrow> ds_body res" where
  "check_ds_body bo =
     (case bo of
        None \<Rightarrow> Inl ''invalid json''
      | Some b0 \<Rightarrow>
          (let b = b0\<lparr>b_kind := ToLower (TrimSpace (b_kind b0))\<rparr> in
           if b_kind b \<noteq> ''mysql'' then Inl ''kind must be mysql''
           else if b_name b = [] \<or> b_host b = [] \<or> b_port b = 0 \<or> b_database b = [] \<or> b_username b = [] then Inl ''missing required fields''
           else Inr (if b_sslmode b = [] then b\<lparr>b_sslmode := ''disable''\<rparr> else b)))"

definition insert_dsource :: "dsource \<Rightarrow> platform \<Rightarrow> platform res" where
  "insert_dsource d db =
     (if ds_id d \<in> ds_id ` set (dsources db) then Inl dup_entry
      else if ds_ws d \<notin> set (workspaces db) then Inl fk_fails
      else Inr (db\<lparr>dsources := dsources db @ [d]\<rparr>))"

definition CreateDataSource ::
  "env \<Rightarrow> secrets \<Rightarrow> 'r limiter \<Rightarrow> Claims \<Rightarrow> ds_body option \<Rightarrow> platform \<times> 'r option \<Rightarrow> response \<times> platform \<times> 'r option" where
  "CreateDataSource e k l c bo s =
     (case s of (db, rdb) \<Rightarrow>
       (case allow_30 l (''ds:'' @ UserID c) rdb of
          (False, rdb') \<Rightarrow> (errJSON StatusTooManyRequests ''rate limit'', db, rdb')
        | (True, rdb') \<Rightarrow>
            (case check_ds_body bo of
               Inl m \<Rightarrow> (errJSON StatusBadRequest m, db, rdb')
             | Inr b \<Rightarrow>
                 (case Encrypt (aes_block k) (nonce_src k) (b_password b) (enc_key k) of
                    Inl _ \<Rightarrow> (errJSON StatusInternalServerError ''failed to encrypt password'', db, rdb')
                  | Inr encryptedPassword \<Rightarrow>
                      (case exec e 0 (insert_dsource \<lparr>ds_id = uuid e 0, ds_ws = WorkspaceID c, ds_name = b_name b, ds_kind = b_kind b,
                              ds_host = b_host b, ds_port = b_port b, ds_database = b_database b, ds_user = b_username b,
                              ds_password = encryptedPassword, ds_ssl = b_sslmode b, ds_created = now e\<rparr>) db of
                         Inl _ \<Rightarrow> (errJSON StatusInternalServerError ''db'', db, rdb')
                       | Inr db' \<Rightarrow>
                           (JSON StatusCreated (JObj [(''id'', JStr (uuid e 0)), (''name'', JStr (b_name b)),
                              (''has_password'', JBool (b_password b \<noteq> []))]), db', rdb'))))))"

definition ds_dsn :: "string \<Rightarrow> string \<Rightarrow> string \<Rightarrow> int \<Rightarrow> string \<Rightarrow> string" where
  "ds_dsn user pwd host port dbName =
     user @ '':'' @ pwd @ ''@tcp('' @ host @ '':'' @ int_dec port @ '')/'' @ dbName @ ''?charset=utf8mb4&parseTime=true&loc=Local''"

definition not_ok :: "string \<Rightarrow> response" where
  "not_ok m = JSON StatusOK (JObj [(''ok'', JBool False), (''error'', JStr m)])"

definition TestDataSource :: "env \<Rightarrow> secrets \<Rightarrow> mysql_server \<Rightarrow> Claims \<Rightarrow> string \<Rightarrow> platform \<Rightarrow> response" where
  "TestDataSource e k srv c i db =
     (case query_row e 0 (filter (\<lambda>d. ds_id d = i \<and> ds_ws d = WorkspaceID c) (dsources db)) of
        Inl _ \<Rightarrow> errJSON StatusNotFound ''data source not found''
      | Inr d \<Rightarrow>
          (case Decrypt (aes_block k) (ds_password d) (enc_key k) of
             Inl _ \<Rightarrow> not_ok ''failed to decrypt password''
           | Inr decryptedPwd \<Rightarrow>
               (let dsn = ds_dsn (ds_user d) decryptedPwd (ds_host d) (ds_port d) (ds_database d) @ ''&tls='' @ ds_ssl d in
                case my_open srv dsn of
                  Some m \<Rightarrow> not_ok m
                | None \<Rightarrow> (case my_ping srv dsn of
                             Some m \<Rightarrow> not_ok m
                           | None \<Rightarrow> JSON StatusOK (JObj [(''ok'', JBool True)])))))"

text \<open>MySQL counts the rows it changed, not those it matched.\<close>

definition update_dsources :: "(dsource \<Rightarrow> bool) \<Rightarrow> (dsource \<Rightarrow> dsource) \<Rightarrow> platform \<Rightarrow> platform" where
  "update_dsources P f db = db\<lparr>dsources := map (\<lambda>d. if P d then f d else d) (dsources db)\<rparr>"

definition UpdateDataSource :: "env \<Rightarrow> secrets \<Rightarrow> Claims \<Rightarrow> string \<Rightarrow> ds_body option \<Rightarrow> platform \<Rightarrow> response \<times> platform" where
  "UpdateDataSource e k c i bo db =
     (if i = [] then (errJSON StatusBadRequest ''missing data source id'', db)
      else (case check_ds_body bo of
              Inl m \<Rightarrow> (errJSON StatusBadRequest m, db)
            | Inr b \<Rightarrow>
                (case Encrypt (aes_block k) (nonce_src k) (b_password b) (enc_key k) of
                   Inl _ \<Rightarrow> (errJSON StatusInternalServerError ''failed to encrypt password'', db)
                 | Inr encryptedPassword \<Rightarrow>
                     (let P = (\<lambda>d. ds_id d = i \<and> ds_ws d = WorkspaceID c);
                          f = (\<lambda>d. d\<lparr>ds_name := b_name b, ds_kind := b_kind b, ds_host := b_host b, ds_port := b_port b,
                                 ds_database := b_database b, ds_user := b_username b, ds_password := encryptedPassword, ds_ssl := b_sslmode b\<rparr>)
                      in case exec e 0 (\<lambda>x. Inr (update_dsources P f x)) db of
                           Inl _ \<Rightarrow> (errJSON StatusInternalServerError ''db error'', db)
                         | Inr db' \<Rightarrow>
                             if length (filter (\<lambda>d. P d \<and> f d \<noteq> d) (dsources db)) = 0
                             then (errJSON StatusNotFound ''data source not found'', db')
                             else (JSON StatusOK (JObj [(''message'', JStr ''ok'')]), db')))))"

text \<open>\<open>ON DELETE SET NULL\<close>: the sessions of a deleted source lose their reference to it.\<close>

definition delete_dsources :: "(dsource \<Rightarrow> bool) \<Rightarrow> platform \<Rightarrow> platform" where
  "delete_dsources P db =
     (let gone = ds_id ` {d \<in> set (dsources db). P d} in
      db\<lparr>dsources := filter (\<lambda>d. \<not> P d) (dsources db),
         sessions := map (\<lambda>s. if s_ds s \<in> Some ` gone then s\<lparr>s_ds := None\<rparr> else s) (sessions db)\<rparr>)"

definition DeleteDataSource :: "env \<Rightarrow> Claims \<Rightarrow> string \<Rightarrow> platform \<Rightarrow> response \<times> platform" where
  "DeleteDataSource e c i db =
     (if i = [] then (errJSON StatusBadRequest ''missing data source id'', db)
      else (let P = (\<lambda>d. ds_id d = i \<and> ds_ws d = WorkspaceID c) in
            case exec e 0 (\<lambda>x. Inr (delete_dsources P x)) db of
              Inl _ \<Rightarrow> (errJSON StatusInternalServerError ''db error'', db)
            | Inr db' \<Rightarrow>
                if length (filter P (dsources db)) = 0 then (errJSON StatusNotFound ''data source not found'', db')
                else (JSON StatusOK (JObj [(''message'', JStr ''ok'')]), db')))"

section \<open>Credentials\<close>

text \<open>
  C22. A stored data source is usable with the password it was given, and only from its workspace.
  After \<open>CreateDataSource\<close> answered 201, a test of the new source from the same workspace opens
  and pings the server with exactly the given user, password, host, port and database, and reports
  what the server said; from any other workspace it is not found. The row holds the ciphertext.
\<close>

theorem datasource_round_trip:
  assumes "CreateDataSource e k l c (Some b) (db, rdb) = (r, db', rdb')" and "status r = StatusCreated"
    and "nonce_src k = Inr nonce" and "length nonce = NonceSize" and "db_err e2 0 = None"
  shows "\<exists>d. dsources db' = dsources db @ [d] \<and> ds_id d = uuid e 0
     \<and> Encrypt (aes_block k) (Inr nonce) (b_password b) (enc_key k) = Inr (ds_password d)
     \<and> (let dsn = ds_dsn (b_username b) (b_password b) (b_host b) (b_port b) (b_database b) @ ''&tls='' @ ds_ssl d in
        TestDataSource e2 k srv c (uuid e 0) db'
        = (case my_open srv dsn of Some m \<Rightarrow> not_ok m
           | None \<Rightarrow> (case my_ping srv dsn of Some m \<Rightarrow> not_ok m | None \<Rightarrow> JSON StatusOK (JObj [(''ok'', JBool True)]))))
     \<and> (\<forall>c'. WorkspaceID c' \<noteq> WorkspaceID c \<longrightarrow> status (TestDataSource e2 k srv c' (uuid e 0) db') = StatusNotFound)"
proof -
  obtain b' p where b': "check_ds_body (Some b) = Inr b'" and enc: "Encrypt (aes_block k) (Inr nonce) (b_password b') (enc_key k) = Inr p"
    and ins: "insert_dsource \<lparr>ds_id = uuid e 0, ds_ws = WorkspaceID c, ds_name = b_name b', ds_kind = b_kind b',
                ds_host = b_host b', ds_port = b_port b', ds_database = b_database b', ds_user = b_username b',
                ds_password = p, ds_ssl = b_sslmode b', ds_created = now e\<rparr> db = Inr db'"
    using assms(1-3)
    by (auto simp: CreateDataSource_def exec_Inr_iff split: prod.splits bool.splits sum.splits)
  from b' have same: "b_password b' = b_password b" "b_username b' = b_username b" "b_host b' = b_host b" "b_port b' = b_port b"
      "b_database b' = b_database b"
    by (auto simp: check_ds_body_def Let_def split: if_splits)
  have dec: "Decrypt (aes_block k) p (enc_key k) = Inr (b_password b')"
    using enc assms(4) by (auto simp: Encrypt_def Decrypt_def split: sum.splits)
  from ins have fresh: "uuid e 0 \<notin> ds_id ` set (dsources db)" and db': "dsources db' = dsources db @ [\<lparr>ds_id = uuid e 0, ds_ws = WorkspaceID c, ds_name = b_name b', ds_kind = b_kind b',
                ds_host = b_host b', ds_port = b_port b', ds_database = b_database b', ds_user = b_username b',
                ds_password = p, ds_ssl = b_sslmode b', ds_created = now e\<rparr>]"
    by (auto simp: insert_dsource_def split: if_splits)
  from fresh have none: "filter (\<lambda>d. ds_id d = uuid e 0 \<and> P d) (dsources db) = []" for P
    by (auto simp: filter_empty_conv image_iff)
  show ?thesis
    using enc dec assms(5) same
    by (auto simp: db' TestDataSource_def none query_row_def Let_def split: option.splits)
qed

definition demo_secrets :: secrets where
  "demo_secrets = \<lparr>aes_block = (\<lambda>k b. b XOR 5), nonce_src = Inr ''twelve bytes'', enc_key = replicate 64 CHR ''0''\<rparr>"

definition demo_limiter :: "unit limiter" where
  "demo_limiter = \<lparr>lm_pipe = (\<lambda>_ r. (Inl ''down'', r)), lm_now = 0, lm_edge_now = 0, lm_fail_closed = False\<rparr>"

definition demo_ds_body :: ds_body where
  "demo_ds_body = \<lparr>b_name = ''erp'', b_kind = ''mysql'', b_host = ''h'', b_port = 3306, b_database = ''db'', b_username = ''u'',
     b_password = ''secret'', b_sslmode = ''disable''\<rparr>"

definition demo_ws :: "string \<Rightarrow> Claims" where
  "demo_ws w = \<lparr>UserID = ''u1'', WorkspaceID = w, Role = ''data_admin'', ExpiresAt = None, NotBefore = None, IssuedAt = None, ID = [], Subject = []\<rparr>"

definition demo_ds_start :: platform where
  "demo_ds_start = empty_platform\<lparr>workspaces := [''w'']\<rparr>"

lemma demo_ds_created:
  "\<exists>r db'. CreateDataSource calm_env demo_secrets demo_limiter (demo_ws ''w'') (Some demo_ds_body) (demo_ds_start, None) = (r, db', None)
     \<and> status r = StatusCreated"
proof -
  have kind: "ToLower (TrimSpace ''mysql'') = ''mysql''" by (simp add: trim_eval go_str)
  obtain p where "Encrypt (aes_block demo_secrets) (nonce_src demo_secrets) ''secret'' (enc_key demo_secrets) = Inr p"
    by (simp only: Encrypt_def demo_secrets_def demo_key sum.case secrets.simps)
  then show ?thesis
    by (simp add: CreateDataSource_def allow_30_def Allow_def demo_limiter_def check_ds_body_def demo_ds_body_def kind exec_def
        insert_dsource_def demo_ds_start_def demo_ws_def empty_platform_def Let_def)
qed

theorem datasource_round_trip_witness:
  "\<exists>r db'. CreateDataSource calm_env demo_secrets demo_limiter (demo_ws ''w'') (Some demo_ds_body) (demo_ds_start, None) = (r, db', None)
     \<and> TestDataSource calm_env demo_secrets \<lparr>my_open = (\<lambda>_. None), my_ping = (\<lambda>d. Some d), my_exec = (\<lambda>_ _. None)\<rparr>
      (demo_ws ''w'') (uuid calm_env 0) db'
     = not_ok ''u:secret@tcp(h:3306)/db?charset=utf8mb4&parseTime=true&loc=Local&tls=disable''"
proof -
  obtain r db' where create: "CreateDataSource calm_env demo_secrets demo_limiter (demo_ws ''w'') (Some demo_ds_body) (demo_ds_start, None) = (r, db', None)"
      "status r = StatusCreated" using demo_ds_created by blast
  have dsn: "ds_dsn ''u'' ''secret'' ''h'' 3306 ''db'' = ''u:secret@tcp(h:3306)/db?charset=utf8mb4&parseTime=true&loc=Local''"
    by (simp add: ds_dsn_def dec_eval)
  have ssl: "ds_ssl d = ''disable''" if "dsources db' = [d]" for d
    using create that
    by (auto simp: CreateDataSource_def allow_30_def Allow_def demo_limiter_def check_ds_body_def demo_ds_body_def exec_def
        insert_dsource_def demo_ds_start_def demo_ws_def empty_platform_def Let_def split: sum.splits if_splits)
  from datasource_round_trip [OF create, of "''twelve bytes''" calm_env "\<lparr>my_open = (\<lambda>_. None), my_ping = (\<lambda>d. Some d), my_exec = (\<lambda>_ _. None)\<rparr>"]
  show ?thesis using create(1) by (auto simp: demo_secrets_def demo_ds_body_def demo_ds_start_def dsn ssl empty_platform_def Let_def)
qed

lemma insort_key_map_password:
  "insort_key (\<lambda>d. - ds_created d) (x\<lparr>ds_password := f x\<rparr>) (map (\<lambda>d. d\<lparr>ds_password := f d\<rparr>) xs)
   = map (\<lambda>d. d\<lparr>ds_password := f d\<rparr>) (insort_key (\<lambda>d. - ds_created d) x xs)"
  by (induction xs) auto

text \<open>
  No listing reveals a password: the answer of \<open>ListDataSources\<close> is the same whatever the
  stored passwords are, as long as the same sources have one.
\<close>

theorem ListDataSources_hides_passwords:
  assumes "\<And>d. f d = [] \<longleftrightarrow> ds_password d = []"
  shows "ListDataSources e c (db\<lparr>dsources := map (\<lambda>d. d\<lparr>ds_password := f d\<rparr>) (dsources db)\<rparr>) = ListDataSources e c db"
proof -
  let ?g = "\<lambda>d. d\<lparr>ds_password := f d\<rparr>"
  have js: "dsource_json (?g d) = dsource_json d" for d using assms [of d] by (simp add: dsource_json_def)
  have "filter (\<lambda>d. ds_ws d = WorkspaceID c) (map ?g (dsources db)) = map ?g (filter (\<lambda>d. ds_ws d = WorkspaceID c) (dsources db))"
    by (simp add: filter_map comp_def)
  moreover have "sort_key (\<lambda>d. - ds_created d) (map ?g xs) = map ?g (sort_key (\<lambda>d. - ds_created d) xs)" for xs
    by (induction xs) (simp_all add: insort_key_map_password)
  moreover have "rows_next e 0 (map ?g xs) = map ?g (rows_next e 0 xs)" for xs
    by (simp add: rows_next_def take_map split: option.splits)
  moreover have "scan_fails e 0 (map ?g xs) = scan_fails e 0 xs" for xs by (simp add: scan_fails_def)
  ultimately show ?thesis
    by (simp add: ListDataSources_def query_def Let_def comp_def js split: option.splits)
qed

theorem ListDataSources_hides_passwords_witness:
  "ListDataSources calm_env (demo_ws ''w'') (empty_platform\<lparr>dsources := map (\<lambda>d. d\<lparr>ds_password := map (\<lambda>_. CHR ''x'') (ds_password d)\<rparr>) (dsources empty_platform)\<rparr>)
   = ListDataSources calm_env (demo_ws ''w'') empty_platform"
  by (rule ListDataSources_hides_passwords) simp

end
