(* ===== verification/Async_Task.thy ===== *)
theory Async_Task
  imports Platform_Db Ssebus
begin

text \<open>
  The asynchronous task queue: \<open>internal/async/task.go\<close>. The state \<open>hub\<close> joins the
  platform database, the event bus, the messages published to NATS, the running timeout watchers
  and the timeout counter. A watcher looks at the status and then updates it in two separate
  database calls; a callback can run in between, so the two are separate steps here. Fields of the
  task row that a statement leaves out come from \<open>env\<close> (\<open>def_id\<close>, \<open>col_default\<close>
  read as seconds for \<open>expires_at\<close>).
\<close>

record hub =
  hdb :: platform
  hbus :: memory_bus
  hnats :: "(string \<times> json) list"
  htimers :: "(string \<times> string \<times> int) list"
  harmed :: "(string \<times> string \<times> int) list"
  htimeouts :: nat

record async_client =
  ac_nats :: bool
  ac_timeout :: int
  ac_bus :: bool

abbreviation "defaultTaskTimeout \<equiv> 120 * (1000000000 :: int)"

definition NewClient :: "bool \<Rightarrow> async_client" where
  "NewClient nats = \<lparr>ac_nats = nats, ac_timeout = defaultTaskTimeout, ac_bus = False\<rparr>"

definition SetTaskTimeout :: "int \<Rightarrow> async_client \<Rightarrow> async_client" where
  "SetTaskTimeout timeout c = c\<lparr>ac_timeout := timeout\<rparr>"

definition SetBus :: "bool \<Rightarrow> async_client \<Rightarrow> async_client" where
  "SetBus bus c = c\<lparr>ac_bus := bus\<rparr>"

text \<open>
  Publishing on the bus. \<open>Publish\<close> gives \<open>None\<close> when it would send on a closed channel;
  on a well-formed bus it never does (\<open>publish_total\<close> below).
\<close>

definition bus_publish :: "string \<Rightarrow> string \<Rightarrow> json \<Rightarrow> memory_bus \<Rightarrow> memory_bus" where
  "bus_publish sid typ data b = (case Publish sid \<lparr>ev_type = typ, ev_data = data\<rparr> b of Some b' \<Rightarrow> b' | None \<Rightarrow> b)"

section \<open>Durations as text\<close>

definition unit_frac :: "nat \<Rightarrow> nat \<Rightarrow> string" where
  "unit_frac prec v =
     (let digits = pad_dec prec (int (v mod 10 ^ prec));
          trimmed = rev (dropWhile (\<lambda>c. c = CHR ''0'') (rev digits))
      in nat_dec (v div 10 ^ prec) @ (if trimmed = [] then [] else CHR ''.'' # trimmed))"

text \<open>\<open>time.Duration.String\<close>.\<close>

definition dur_string :: "int \<Rightarrow> string" where
  "dur_string d =
     (let u = nat \<bar>d\<bar>;
          secs = u div 1000000000;
          body = (if u = 0 then ''0s''
                  else if u < 1000 then nat_dec u @ ''ns''
                  else if u < 1000000 then unit_frac 3 u @ [char_of (0xC2 :: nat), char_of (0xB5 :: nat)] @ ''s''
                  else if u < 1000000000 then unit_frac 6 u @ ''ms''
                  else (if secs < 60 then []
                        else (if secs < 3600 then [] else nat_dec (secs div 3600) @ ''h'') @ nat_dec (secs div 60 mod 60) @ ''m'')
                       @ unit_frac 9 (u mod 60000000000) @ ''s'')
      in if d < 0 then CHR ''-'' # body else body)"

section \<open>Operations\<close>

definition live :: "string \<Rightarrow> bool" where
  "live st \<longleftrightarrow> st = ''queued'' \<or> st = ''running''"

definition nullif :: "string \<Rightarrow> string option" where
  "nullif s = (if s = [] then None else Some s)"

definition startTimeoutWatcher :: "string \<Rightarrow> string \<Rightarrow> int \<Rightarrow> hub \<Rightarrow> hub" where
  "startTimeoutWatcher taskID sessionID timeout h = h\<lparr>htimers := htimers h @ [(taskID, sessionID, timeout)]\<rparr>"

text \<open>
  \<open>EnqueueTask\<close> issues its INSERT through \<open>QueryRow\<close> and scans the row it returns:
  \<open>ret_row\<close> is that row, and without one \<open>Scan\<close> gives \<open>sql.ErrNoRows\<close> after the
  task was stored. \<open>nats_err\<close> is the error of the NATS client.
\<close>

definition EnqueueTask ::
  "env \<Rightarrow> err \<Rightarrow> async_client \<Rightarrow> string \<Rightarrow> string \<Rightarrow> string \<Rightarrow> string \<Rightarrow> json \<Rightarrow> hub \<Rightarrow> string res \<times> hub" where
  "EnqueueTask e nats_err c wsID sessionID runID taskType payload h =
     (case exec e 0 (insert_task \<lparr>t_id = def_id e 0, t_ws = wsID, t_session = nullif sessionID, t_run = nullif runID,
          t_type = taskType, t_status = ''queued'', t_payload = payload, t_result = None, t_error = None,
          t_expires = int (dec_val (col_default e ''async_tasks.expires_at''))\<rparr>) (hdb h) of
        Inl m \<Rightarrow> (Inl m, h)
      | Inr db' \<Rightarrow>
          (let h1 = h\<lparr>hdb := db'\<rparr> in
           case ret_row e 0 of
             None \<Rightarrow> (Inl ErrNoRows, h1)
           | Some taskID \<Rightarrow>
               (let msg = JObj [(''id'', JStr taskID), (''session_id'', JStr sessionID), (''run_id'', JStr runID),
                                (''task_type'', JStr taskType), (''payload'', payload)];
                    h2 = (if ac_nats c \<and> nats_err = None then h1\<lparr>hnats := hnats h1 @ [(''hub.tasks.'' @ taskType, msg)]\<rparr> else h1);
                    h3 = (if ac_timeout c > 0 then startTimeoutWatcher taskID sessionID (ac_timeout c) h2 else h2)
                in (Inr taskID, h3))))"

text \<open>The timer of a watcher fires: the status is read, and a live task arms the update.\<close>

definition watcher_check :: "env \<Rightarrow> string \<times> string \<times> int \<Rightarrow> hub \<Rightarrow> hub" where
  "watcher_check e w h =
     (let h1 = h\<lparr>htimers := remove1 w (htimers h)\<rparr> in
      case query_row e 0 (map t_status (filter (\<lambda>t. t_id t = fst w) (tasks (hdb h)))) of
        Inl _ \<Rightarrow> h1
      | Inr st \<Rightarrow> if \<not> live st then h1 else h1\<lparr>harmed := harmed h1 @ [w]\<rparr>)"

text \<open>The guarded update, the counter and the notification.\<close>

definition watcher_update :: "env \<Rightarrow> async_client \<Rightarrow> string \<times> string \<times> int \<Rightarrow> hub \<Rightarrow> hub" where
  "watcher_update e c w h =
     (case w of (taskID, sessionID, timeout) \<Rightarrow>
       (let h1 = h\<lparr>harmed := remove1 w (harmed h)\<rparr>; msg = ''task timed out after '' @ dur_string timeout in
        case exec e 1 (\<lambda>d. Inr (update_tasks (\<lambda>t. t_id t = taskID \<and> live (t_status t))
               (\<lambda>t. t\<lparr>t_status := ''timeout'', t_error := Some msg\<rparr>) d)) (hdb h1) of
          Inl _ \<Rightarrow> h1
        | Inr db' \<Rightarrow>
            (let h2 = h1\<lparr>hdb := db', htimeouts := Suc (htimeouts h1)\<rparr> in
             if ac_bus c \<and> sessionID \<noteq> []
             then h2\<lparr>hbus := bus_publish sessionID ''task_timeout''
                       (JObj [(''task_id'', JStr taskID), (''message'', JStr msg)]) (hbus h2)\<rparr>
             else h2)))"

text \<open>One tick of the reaper.\<close>

definition reaper_tick :: "env \<Rightarrow> hub \<Rightarrow> hub" where
  "reaper_tick e h =
     h\<lparr>hdb := exec_log e 0 (\<lambda>d. Inr (update_tasks (\<lambda>t. live (t_status t) \<and> t_expires t < now e)
              (\<lambda>t. t\<lparr>t_status := ''expired''\<rparr>) d)) (hdb h)\<rparr>"

text \<open>
  The loop of the reaper over the outcomes of its \<open>select\<close>, when nothing else runs in between; the
  interleaving with other operations is the step relation of \<open>Grpcserver\<close>.
\<close>

datatype reaper_event = ReaperTick env | ReaperDone

fun StartReaper :: "reaper_event list \<Rightarrow> hub \<Rightarrow> hub" where
  "StartReaper [] h = h"
| "StartReaper (ReaperDone # xs) h = h"
| "StartReaper (ReaperTick e # xs) h = StartReaper xs (reaper_tick e h)"

lemma StartReaper_done: "StartReaper (map ReaperTick es @ ReaperDone # xs) h = fold reaper_tick es h"
  by (induction es arbitrary: h) auto

lemma reaper_tick_expires:
  assumes "db_err e 0 = None" and "t \<in> set (tasks (hdb (reaper_tick e h)))" and "live (t_status t)"
  shows "now e \<le> t_expires t"
  using assms by (auto simp: reaper_tick_def exec_log_def exec_def update_tasks_def live_def split: if_splits)

lemma publish_total: "bus_inv b \<Longrightarrow> \<exists>b'. Publish sid ev b = Some b' \<and> bus_inv b'"
  using bus_inv_Publish by blast

lemma bus_inv_publish [inv_rules]: "bus_inv b \<Longrightarrow> bus_inv (bus_publish sid typ data b)"
  using publish_total [of b sid "\<lparr>ev_type = typ, ev_data = data\<rparr>"] by (auto simp: bus_publish_def)

end
