(* ===== verification/Nl2sqlexec.thy ===== *)
theory Nl2sqlexec
  imports Sql_Gate
begin

text \<open>
  The NL2SQL pipeline of \<open>internal/nl2sqlexec/executor.go\<close>: ask the worker for SQL,
  classify it, and either query with the read-only wrapper or check the role and the system
  tables and write. The worker's answer is a parameter (\<open>generate\<close>); an error is one of the
  three kinds the callers tell apart: a gRPC status, a \<open>GenerateError\<close>, any other error.
\<close>

datatype go_error = StatusErr nat string | GenerateErr string | PlainErr string

text \<open>The names of the gRPC codes, and the text of a gRPC status used as an error.\<close>

definition code_names :: "string list" where
  "code_names = [''OK'', ''Canceled'', ''Unknown'', ''InvalidArgument'', ''DeadlineExceeded'', ''NotFound'', ''AlreadyExists'',
     ''PermissionDenied'', ''ResourceExhausted'', ''FailedPrecondition'', ''Aborted'', ''OutOfRange'', ''Unimplemented'', ''Internal'',
     ''Unavailable'', ''DataLoss'', ''Unauthenticated'']"

definition code_string :: "nat \<Rightarrow> string" where
  "code_string c = (if c < length code_names then code_names ! c else ''Code('' @ nat_dec c @ '')'')"

primrec Error :: "go_error \<Rightarrow> string" where
  "Error (StatusErr c m) = ''rpc error: code = '' @ code_string c @ '' desc = '' @ m"
| "Error (GenerateErr m) = ''nl2sql generation failed: '' @ m"
| "Error (PlainErr m) = m"

record gen_response =
  gen_sql :: string
  gen_notes :: string
  gen_ok :: bool
  gen_error :: string

record input =
  TraceID :: string
  SessionID :: string
  UserMessage :: string
  SchemaJSON :: string
  Dialect :: string
  Role :: string

record result =
  res_sql :: string
  Rows :: "row list"
  RowsAffected :: int
  IsWrite :: bool
  SelfCheckNotes :: string

definition bare_result :: "string \<Rightarrow> result" where
  "bare_result sql = \<lparr>res_sql = sql, Rows = [], RowsAffected = 0, IsWrite = False, SelfCheckNotes = []\<rparr>"

record executor =
  generate :: "input \<Rightarrow> go_error + gen_response"
  maxRows :: int

definition NewExecutor :: "(input \<Rightarrow> go_error + gen_response) \<Rightarrow> int \<Rightarrow> executor" where
  "NewExecutor client n = \<lparr>generate = client, maxRows = n\<rparr>"

text \<open>
  \<open>Execute\<close> returns the statements sent to the pool, the result pointer and the error.
  \<open>order\<close> is the iteration order of the system table map.
\<close>

definition Execute ::
  "string list \<Rightarrow> executor \<Rightarrow> input \<Rightarrow> pool \<Rightarrow> dbcall list \<times> result option \<times> go_error option" where
  "Execute order e inp p =
     (case generate e inp of
        Inl err \<Rightarrow> ([], None, Some err)
      | Inr gen \<Rightarrow>
          if \<not> gen_ok gen then ([], None, Some (GenerateErr (gen_error gen)))
          else
            (let sql = TrimSpace (gen_sql gen); sqlType = ClassifySQL sql in
             if sqlType = SQLTypeSelect then
               (case QueryRows p sql (maxRows e) of
                  (calls, Inl err) \<Rightarrow> (calls, Some (bare_result sql), Some (PlainErr err))
                | (calls, Inr rows) \<Rightarrow>
                    (calls, Some ((bare_result sql)\<lparr>Rows := rows, SelfCheckNotes := gen_notes gen\<rparr>), None))
             else
               (case IsAllowedForRole sqlType (Role inp) of
                  Some err \<Rightarrow> ([], Some (bare_result sql), Some (PlainErr err))
                | None \<Rightarrow>
                    (case CheckSystemTableInSQL order sql of
                       Some tbl \<Rightarrow>
                         ([], Some (bare_result sql),
                          Some (PlainErr (''cannot operate on system table '' @ tbl)))
                     | None \<Rightarrow>
                         (case ExecuteWrite p sql of
                            (calls, Inl err) \<Rightarrow> (calls, Some (bare_result sql), Some (PlainErr err))
                          | (calls, Inr affected) \<Rightarrow>
                              (calls, Some ((bare_result sql)\<lparr>RowsAffected := affected, IsWrite := True,
                                 SelfCheckNotes := gen_notes gen\<rparr>), None))))))"

section \<open>What reaches the database\<close>

text \<open>The statements \<open>Execute\<close> may send for a generated text.\<close>

definition guarded_call :: "string list \<Rightarrow> int \<Rightarrow> string \<Rightarrow> string \<Rightarrow> dbcall \<Rightarrow> bool" where
  "guarded_call order n role sql c =
     (case c of
        Query q \<Rightarrow> ClassifySQL sql = SQLTypeSelect \<and> IsReadOnlySQL (trim_stmt sql) = None
                   \<and> q = wrap_limit (trim_stmt sql) n
      | Exec s \<Rightarrow> ClassifySQL sql \<noteq> SQLTypeSelect \<and> IsAllowedForRole (ClassifySQL sql) role = None
                  \<and> CheckSystemTableInSQL order sql = None \<and> s = trim_stmt sql)"

lemma Execute_calls:
  assumes "Execute order e inp p = (calls, r, err)"
  shows "calls = [] \<or>
    (\<exists>gen c. generate e inp = Inr gen \<and> gen_ok gen \<and> calls = [c]
       \<and> guarded_call order (maxRows e) (Role inp) (TrimSpace (gen_sql gen)) c)"
  using assms
  by (auto simp: Execute_def Let_def guarded_call_def ExecuteWrite_def QueryRows_def
      split: sum.splits if_splits option.splits prod.splits dest: QueryRows_calls)

text \<open>
  C3. The NL2SQL pipeline sends at most one statement to the database, and only through a
  guard: a query is the read-only wrapper around a text the lexer found free of write keywords, a
  write was allowed for the caller's role by the statement's type and mentions no system table
  the check finds. The text is the worker's, trimmed.
\<close>

theorem Execute_guarded:
  assumes "Execute order e inp p = (calls, r, err)" and "c \<in> set calls"
  shows "length calls = 1 \<and> (\<exists>gen. generate e inp = Inr gen \<and> gen_ok gen
     \<and> guarded_call order (maxRows e) (Role inp) (TrimSpace (gen_sql gen)) c)"
  using Execute_calls [OF assms(1)] assms(2) by auto

text \<open>A worker and a pool for the examples.\<close>

definition demo_gen :: "string \<Rightarrow> input \<Rightarrow> go_error + gen_response" where
  "demo_gen sql inp = Inr \<lparr>gen_sql = sql, gen_notes = [], gen_ok = True, gen_error = []\<rparr>"

definition demo_pool :: pool where
  "demo_pool = \<lparr>pool_query = (\<lambda>q. Inl ''no server''), pool_exec = (\<lambda>s. Inr 1)\<rparr>"

definition demo_input :: "string \<Rightarrow> input" where
  "demo_input role = \<lparr>TraceID = [], SessionID = [], UserMessage = ''q'', SchemaJSON = [], Dialect = ''mysql'',
     Role = role\<rparr>"

lemma demo_insert_classified:
  "TrimSpace ''insert into t values (1)'' = ''insert into t values (1)''
   \<and> ClassifySQL ''insert into t values (1)'' = SQLTypeInsert
   \<and> CheckSystemTableInSQL systemTables ''insert into t values (1)'' = None
   \<and> trim_stmt ''insert into t values (1)'' = ''insert into t values (1)''"
  by (simp add: go_str classify_eval system_table_eval trim_stmt_def TrimSuffix_def suffix_def)

lemma demo_Execute:
  "Execute systemTables (NewExecutor (demo_gen ''insert into t values (1)'') 500) (demo_input ''normal_user'') demo_pool
   = ([Exec ''insert into t values (1)''],
      Some ((bare_result ''insert into t values (1)'')\<lparr>RowsAffected := 1, IsWrite := True\<rparr>), None)"
  using demo_insert_classified
  by (simp add: Execute_def NewExecutor_def demo_gen_def demo_pool_def demo_input_def ExecuteWrite_def
      IsAllowedForRole_def bare_result_def Let_def)

theorem Execute_guarded_witness:
  "Exec ''insert into t values (1)'' \<in> set [Exec ''insert into t values (1)'']
   \<and> guarded_call systemTables 500 ''normal_user'' ''insert into t values (1)'' (Exec ''insert into t values (1)'')"
proof -
  have mem: "Exec ''insert into t values (1)'' \<in> set [Exec ''insert into t values (1)'']" by simp
  from Execute_guarded [OF demo_Execute mem] demo_insert_classified show ?thesis
    by (auto simp: NewExecutor_def demo_gen_def demo_input_def)
qed

text \<open>A caller without a known role never writes.\<close>

lemma Execute_unknown_role_no_write:
  assumes "RoleOrder (Role inp) = None" and "Execute order e inp p = (calls, r, err)"
  shows "Exec s \<notin> set calls"
  using Execute_calls [OF assms(2)] by (auto simp: guarded_call_def unknown_role_denied [OF assms(1)])

lemma Execute_result:
  assumes "Execute order e inp p = (calls, r, None)"
  shows "\<exists>res. r = Some res \<and> (IsWrite res \<longleftrightarrow> (\<exists>s. Exec s \<in> set calls))"
  using assms
  by (auto simp: Execute_def Let_def ExecuteWrite_def QueryRows_def bare_result_def
      split: sum.splits if_splits option.splits prod.splits)

end
