(* ===== verification/Grpcserver.thy ===== *)
theory Grpcserver
  imports Async_Task Nl2sqlexec
begin

text \<open>
  The internal gRPC service the Python workers call back: \<open>internal/grpcserver/server.go\<close>.
  A call returns a status (code and message) or a response, and the new state of the hub.
  \<open>unmarshal\<close> is \<open>json.Unmarshal\<close> into an empty interface. The transition relation
  \<open>hub_step\<close> collects everything that touches the task table: enqueueing, the two halves of
  a timeout watcher, the reaper and the callbacks.
\<close>

type_synonym grpc_status = "nat \<times> string"

abbreviation "InvalidArgument \<equiv> (3 :: nat)"
abbreviation "Internal \<equiv> (13 :: nat)"
abbreviation "Unavailable \<equiv> (14 :: nat)"

section \<open>Task results\<close>

record task_cb =
  cb_task :: string
  cb_status :: string
  cb_result :: string
  cb_error :: string

definition callback_content :: "(string \<Rightarrow> json res) \<Rightarrow> string \<Rightarrow> string \<Rightarrow> string \<Rightarrow> string \<Rightarrow> json" where
  "callback_content unmarshal statusStr resultJSON errMsg runID =
     (if statusStr = ''succeeded''
      then JObj [(''final_report'', case unmarshal resultJSON of Inl _ \<Rightarrow> JObj [] | Inr v \<Rightarrow> v), (''run_id'', JStr runID)]
      else JObj [(''error'', JStr errMsg), (''run_id'', JStr runID)])"

text \<open>What follows the update of the task when it is linked to a run.\<close>

definition finish_run :: "env \<Rightarrow> string \<Rightarrow> string \<Rightarrow> json \<Rightarrow> hub \<Rightarrow> hub" where
  "finish_run e statusStr runID msgContent h =
     (let runStatus = (if statusStr = ''failed'' then ''failed'' else ''completed'');
          h1 = h\<lparr>hdb := exec_log e 2 (\<lambda>d. Inr (update_runs (\<lambda>r. r_id r = runID) (\<lambda>r. r\<lparr>r_status := runStatus\<rparr>) d)) (hdb h)\<rparr>
      in
      case query_row e 3 (map r_session (filter (\<lambda>r. r_id r = runID) (runs (hdb h1)))) of
        Inl _ \<Rightarrow> h1
      | Inr sid \<Rightarrow>
          h1\<lparr>hdb := exec_log e 4 (insert_message \<lparr>m_id = def_id e 4, m_session = sid, m_role = ''assistant'',
                      m_content = msgContent, m_created = now e\<rparr>) (hdb h1),
             hbus := bus_publish sid ''result'' msgContent (hbus h1)\<rparr>)"

definition TaskCallback :: "env \<Rightarrow> (string \<Rightarrow> json res) \<Rightarrow> task_cb \<Rightarrow> hub \<Rightarrow> (grpc_status + string) \<times> hub" where
  "TaskCallback e unmarshal req h =
     (let taskID = cb_task req; statusStr = ToLower (cb_status req) in
      if statusStr \<noteq> ''succeeded'' \<and> statusStr \<noteq> ''failed''
      then (Inl (InvalidArgument, ''invalid status, must be 'succeeded' or 'failed'' @ [CHR 0x27]), h)
      else
        (let resultJSON = (if cb_result req \<noteq> [] then cb_result req else ''null'') in
         case exec e 0 (\<lambda>d. Inr (update_tasks (\<lambda>t. t_id t = taskID \<and> live (t_status t))
                (\<lambda>t. t\<lparr>t_status := statusStr, t_result := Some resultJSON, t_error := Some (cb_error req)\<rparr>) d)) (hdb h) of
           Inl _ \<Rightarrow> (Inl (Internal, ''db error''), h)
         | Inr db' \<Rightarrow>
             (let h1 = h\<lparr>hdb := db'\<rparr>;
                  runID = (case query_row e 1 (map t_run (filter (\<lambda>t. t_id t = taskID) (tasks db'))) of
                             Inl _ \<Rightarrow> None | Inr r \<Rightarrow> r)
              in (Inr ''ok'',
                  case runID of
                    None \<Rightarrow> h1
                  | Some r \<Rightarrow> if r = [] then h1
                              else finish_run e statusStr r (callback_content unmarshal statusStr resultJSON (cb_error req) r) h1))))"

section \<open>Run steps\<close>

record step_cb =
  sc_run :: string
  sc_agent :: string
  sc_status :: string
  sc_in :: string
  sc_out :: string
  sc_error :: string

definition next_index :: "string \<Rightarrow> step list \<Rightarrow> int" where
  "next_index runID ss =
     (case map st_index (filter (\<lambda>s. st_run s = runID) ss) of [] \<Rightarrow> 0 | i # js \<Rightarrow> foldl max i js + 1)"

definition insert_step :: "step \<Rightarrow> platform \<Rightarrow> platform res" where
  "insert_step s db = Inr (db\<lparr>steps := steps db @ [s]\<rparr>)"

definition RunStepCallback :: "env \<Rightarrow> step_cb \<Rightarrow> hub \<Rightarrow> string \<times> hub" where
  "RunStepCallback e req h =
     (let runID = sc_run req;
          stepIndex = (case query_row e 0 [next_index runID (steps (hdb h))] of Inl _ \<Rightarrow> 0 | Inr i \<Rightarrow> i);
          db1 = exec_log e 1 (insert_step \<lparr>st_run = runID, st_index = stepIndex, st_agent = sc_agent req, st_status = sc_status req,
                  st_in = sc_in req, st_out = sc_out req, st_err = sc_error req, st_created = now e\<rparr>) (hdb h);
          h1 = h\<lparr>hdb := db1\<rparr>;
          eventData = JObj ([(''agent_name'', JStr (sc_agent req)), (''status'', JStr (sc_status req)), (''summary'', JStr (sc_out req))]
                            @ (if sc_error req \<noteq> [] then [(''error'', JStr (sc_error req))] else []))
      in (''ok'',
          case query_row e 2 (map r_session (filter (\<lambda>r. r_id r = runID) (runs db1))) of
            Inl _ \<Rightarrow> h1
          | Inr sid \<Rightarrow> h1\<lparr>hbus := bus_publish sid ''agent_step'' eventData (hbus h1)\<rparr>))"

section \<open>SQL for the orchestrator\<close>

record nl_response =
  nr_sql :: string
  nr_rows :: "row list"
  nr_notes :: string
  nr_ok :: bool
  nr_error :: string

definition nl_failed :: "string \<Rightarrow> nl_response" where
  "nl_failed msg = \<lparr>nr_sql = [], nr_rows = [], nr_notes = [], nr_ok = False, nr_error = msg\<rparr>"

text \<open>The rows are marshalled afterwards. The input has no role: Go leaves the empty text.\<close>

definition InternalNL2SQL ::
  "string list \<Rightarrow> executor \<Rightarrow> pool \<Rightarrow> string \<Rightarrow> string \<Rightarrow> string \<Rightarrow> string \<Rightarrow> dbcall list \<times> (grpc_status + nl_response)" where
  "InternalNL2SQL order ex p traceID userMessage schemaJSON dialect0 =
     (if userMessage = [] then ([], Inl (InvalidArgument, ''user_message is required''))
      else
        (let dialect = (if dialect0 = [] then ''mysql'' else dialect0) in
         case Execute order ex \<lparr>TraceID = traceID, SessionID = [], UserMessage = userMessage, SchemaJSON = schemaJSON,
                Dialect = dialect, Role = []\<rparr> p of
           (calls, r, Some err) \<Rightarrow>
             (calls, case err of
                       StatusErr _ _ \<Rightarrow> Inl (Unavailable, ''nl2sql worker error: '' @ Error err)
                     | GenerateErr m \<Rightarrow> Inr (nl_failed m)
                     | PlainErr _ \<Rightarrow> Inr (nl_failed (Error err)))
         | (calls, r, None) \<Rightarrow>
             (calls, Inr (case r of
                            None \<Rightarrow> nl_failed []
                          | Some res \<Rightarrow> \<lparr>nr_sql = res_sql res, nr_rows = Rows res, nr_notes = SelfCheckNotes res,
                                         nr_ok = True, nr_error = []\<rparr>))))"

section \<open>Knowledge documents\<close>

definition KnowledgeDocCallback ::
  "env \<Rightarrow> string \<Rightarrow> string \<Rightarrow> string \<Rightarrow> int \<Rightarrow> hub \<Rightarrow> (grpc_status + string) \<times> hub" where
  "KnowledgeDocCallback e docID status0 chromaDocID chunkCount h =
     (let statusStr = ToLower status0 in
      if statusStr \<noteq> ''completed'' \<and> statusStr \<noteq> ''failed''
      then (Inl (InvalidArgument, ''invalid status, must be 'completed' or 'failed'' @ [CHR 0x27]), h)
      else (case exec e 0 (\<lambda>d. Inr (d\<lparr>kdocs := map (\<lambda>k. if k_id k = docID
                     then k\<lparr>k_status := statusStr, k_chroma := Some chromaDocID, k_chunks := chunkCount\<rparr> else k) (kdocs d)\<rparr>)) (hdb h) of
              Inl _ \<Rightarrow> (Inl (Internal, ''db error''), h)
            | Inr db' \<Rightarrow> (Inr ''ok'', h\<lparr>hdb := db'\<rparr>)))"

section \<open>The life of a task\<close>

inductive hub_step :: "hub \<Rightarrow> hub \<Rightarrow> bool" where
  enqueue: "EnqueueTask e ne c ws sid rid ty p h = (r, h') \<Longrightarrow> hub_step h h'"
| check: "w \<in> set (htimers h) \<Longrightarrow> hub_step h (watcher_check e w h)"
| timeout: "w \<in> set (harmed h) \<Longrightarrow> hub_step h (watcher_update e c w h)"
| reap: "hub_step h (reaper_tick e h)"
| callback: "TaskCallback e u req h = (r, h') \<Longrightarrow> hub_step h h'"
| run_step: "RunStepCallback e sreq h = (m, h') \<Longrightarrow> hub_step h h'"
| doc: "KnowledgeDocCallback e d st cd n h = (r, h') \<Longrightarrow> hub_step h h'"

inductive_cases hub_stepE: "hub_step h h'"

definition terminal :: "string set" where
  "terminal = {''succeeded'', ''failed'', ''timeout'', ''expired''}"

definition hub_inv :: "hub \<Rightarrow> bool" where
  "hub_inv h \<longleftrightarrow>
     distinct (map t_id (tasks (hdb h))) \<and> (\<forall>t \<in> set (tasks (hdb h)). live (t_status t) \<or> t_status t \<in> terminal)
     \<and> bus_inv (hbus h)"

text \<open>How a task row may change: a live one may reach a terminal status, a terminal one stays as it is.\<close>

definition task_le :: "task \<Rightarrow> task \<Rightarrow> bool" where
  "task_le t t' \<longleftrightarrow>
     t_id t' = t_id t \<and> t_run t' = t_run t \<and> t_payload t' = t_payload t
     \<and> (t' = t \<or> live (t_status t) \<and> t_status t' \<in> terminal)"

definition evolves :: "task list \<Rightarrow> task list \<Rightarrow> bool" where
  "evolves ts ts' \<longleftrightarrow> length ts \<le> length ts' \<and> (\<forall>i < length ts. task_le (ts ! i) (ts' ! i))"

lemma live_not_terminal: "live st \<Longrightarrow> st \<notin> terminal"
  by (auto simp: live_def terminal_def)

lemma task_le_refl [simp]: "task_le t t"
  by (simp add: task_le_def)

lemma task_le_trans: "task_le t t' \<Longrightarrow> task_le t' t'' \<Longrightarrow> task_le t t''"
  unfolding task_le_def using live_not_terminal by metis

lemma evolves_refl [simp]: "evolves ts ts"
  by (simp add: evolves_def)

lemma evolves_trans: "evolves ts ts' \<Longrightarrow> evolves ts' ts'' \<Longrightarrow> evolves ts ts''"
  unfolding evolves_def by (meson le_trans less_le_trans task_le_trans)

lemma evolves_snoc [simp]: "evolves ts (ts @ [t])"
  by (simp add: evolves_def nth_append)

lemma evolves_map:
  assumes "\<And>t. t \<in> set ts \<Longrightarrow> P t \<Longrightarrow> task_le t (f t)"
  shows "evolves ts (map (\<lambda>t. if P t then f t else t) ts)"
  using assms by (auto simp: evolves_def)

text \<open>Every step changes the tasks in one of three ways.\<close>

lemma task_update_evolves:
  assumes "\<And>t. P t \<Longrightarrow> live (t_status t)" and "\<And>t. t_id (f t) = t_id t \<and> t_run (f t) = t_run t \<and> t_payload (f t) = t_payload t"
    and "\<And>t. t_status (f t) = st" and "st \<in> terminal" and "hub_inv h"
    and "tasks (hdb h') = map (\<lambda>t. if P t then f t else t) (tasks (hdb h))" and "bus_inv (hbus h')"
  shows "evolves (tasks (hdb h)) (tasks (hdb h')) \<and> hub_inv h'"
proof -
  have ids: "t_id \<circ> (\<lambda>t. if P t then f t else t) = t_id"
    using assms(2) by (intro comp_upd) blast
  have "evolves (tasks (hdb h)) (tasks (hdb h'))"
    unfolding assms(6) using assms(1-4) by (intro evolves_map) (simp add: task_le_def)
  moreover have "hub_inv h'"
    using assms(3-7) ids by (auto simp: hub_inv_def)
  ultimately show ?thesis by blast
qed

lemma exec_log_frame:
  assumes "\<And>db'. stmt db = Inr db' \<Longrightarrow> F db' = F db"
  shows "F (exec_log e k stmt db) = F db"
  using assms by (cases rule: exec_log_cases [of e k stmt db]) auto

lemma tasks_exec_log [simp]:
  "tasks (exec_log e k (\<lambda>d. Inr (update_runs P f d)) db) = tasks db"
  "tasks (exec_log e k (insert_message m) db) = tasks db"
  "tasks (exec_log e k (insert_step s) db) = tasks db"
  by (rule exec_log_frame [where F = tasks],
      auto simp: update_runs_def insert_step_def dest!: insert_message_Inr)+

lemma finish_run_tasks [simp]: "tasks (hdb (finish_run e st r m h)) = tasks (hdb h)"
  by (simp add: finish_run_def Let_def split: sum.split)

lemma finish_run_bus: "bus_inv (hbus h) \<Longrightarrow> bus_inv (hbus (finish_run e st r m h))"
  by (auto simp: finish_run_def Let_def bus_inv_publish split: sum.splits)

lemma hub_inv_same: "tasks (hdb h') = tasks (hdb h) \<Longrightarrow> bus_inv (hbus h') \<Longrightarrow> hub_inv h \<Longrightarrow> hub_inv h'"
  by (simp add: hub_inv_def)

lemma bus_inv_hub: "hub_inv h \<Longrightarrow> bus_inv (hbus h)"
  by (simp add: hub_inv_def)

lemma EnqueueTask_evolves:
  assumes "hub_inv h" and "EnqueueTask e ne c ws sid rid ty p h = (r, h')"
  shows "evolves (tasks (hdb h)) (tasks (hdb h')) \<and> hub_inv h'"
proof -
  have "hbus h' = hbus h \<and> (tasks (hdb h') = tasks (hdb h) \<or> (\<exists>t. tasks (hdb h') = tasks (hdb h) @ [t]
          \<and> t_id t \<notin> t_id ` set (tasks (hdb h)) \<and> t_status t = ''queued''))"
    using assms(2)
    by (auto simp: EnqueueTask_def startTimeoutWatcher_def Let_def exec_Inr_iff insert_task_Inr split: sum.splits option.splits)
  then show ?thesis using assms(1) by (auto simp: hub_inv_def live_def)
qed

lemma watcher_check_evolves:
  "hub_inv h \<Longrightarrow> evolves (tasks (hdb h)) (tasks (hdb (watcher_check e w h))) \<and> hub_inv (watcher_check e w h)"
  by (auto simp: watcher_check_def Let_def hub_inv_def split: sum.splits)

lemma watcher_update_evolves:
  assumes "hub_inv h"
  shows "evolves (tasks (hdb h)) (tasks (hdb (watcher_update e c w h))) \<and> hub_inv (watcher_update e c w h)"
proof -
  obtain taskID sid timeout where w: "w = (taskID, sid, timeout)" by (cases w)
  let ?h' = "watcher_update e c w h"
  have bus: "bus_inv (hbus ?h')"
    using bus_inv_hub [OF assms] by (auto simp: watcher_update_def Let_def w bus_inv_publish split: sum.splits)
  show ?thesis
  proof (cases "db_err e 1")
    case (Some m)
    then have "tasks (hdb ?h') = tasks (hdb h)" by (simp add: watcher_update_def Let_def w exec_def)
    then show ?thesis using hub_inv_same [OF _ bus assms] by simp
  next
    case None
    then have t: "tasks (hdb ?h') = map (\<lambda>t. if t_id t = taskID \<and> live (t_status t)
        then t\<lparr>t_status := ''timeout'', t_error := Some (''task timed out after '' @ dur_string timeout)\<rparr> else t) (tasks (hdb h))"
      by (simp add: watcher_update_def Let_def w exec_def update_tasks_def)
    show ?thesis
      by (rule task_update_evolves [OF _ _ _ _ assms t bus]) (auto simp: terminal_def)
  qed
qed

lemma reaper_evolves:
  assumes "hub_inv h"
  shows "evolves (tasks (hdb h)) (tasks (hdb (reaper_tick e h))) \<and> hub_inv (reaper_tick e h)"
proof (cases "db_err e 0")
  case (Some m)
  then show ?thesis using assms by (simp add: reaper_tick_def exec_log_def exec_def)
next
  case None
  then have t: "tasks (hdb (reaper_tick e h)) = map (\<lambda>t. if live (t_status t) \<and> t_expires t < now e
      then t\<lparr>t_status := ''expired''\<rparr> else t) (tasks (hdb h))"
    by (simp add: reaper_tick_def exec_log_def exec_def update_tasks_def)
  show ?thesis
    by (rule task_update_evolves [OF _ _ _ _ assms t]) (auto simp: terminal_def reaper_tick_def bus_inv_hub assms)
qed

text \<open>What a callback does: nothing, the guarded update of the task, or that and what follows for its run.\<close>

abbreviation task_result :: "task_cb \<Rightarrow> string \<Rightarrow> hub \<Rightarrow> hub" where
  "task_result req res h \<equiv> h\<lparr>hdb := update_tasks (\<lambda>t. t_id t = cb_task req \<and> live (t_status t))
     (\<lambda>t. t\<lparr>t_status := ToLower (cb_status req), t_result := Some res, t_error := Some (cb_error req)\<rparr>) (hdb h)\<rparr>"

lemma TaskCallback_cases:
  assumes cb: "TaskCallback e u req h = (r, h')"
  obtains "h' = h"
  | res where "ToLower (cb_status req) \<in> {''succeeded'', ''failed''}"
      "h' = task_result req res h \<or> (\<exists>rid m. h' = finish_run e (ToLower (cb_status req)) rid m (task_result req res h))"
proof (cases "(ToLower (cb_status req) \<noteq> ''succeeded'' \<and> ToLower (cb_status req) \<noteq> ''failed'') \<or> db_err e 0 \<noteq> None")
  case True
  then have "h' = h" using cb by (auto simp: TaskCallback_def Let_def exec_def split: if_splits)
  then show ?thesis by (rule that)
next
  case False
  then have ne: "\<not> (ToLower (cb_status req) \<noteq> ''succeeded'' \<and> ToLower (cb_status req) \<noteq> ''failed'')" "db_err e 0 = None" by blast+
  define res where "res = (if cb_result req \<noteq> [] then cb_result req else ''null'')"
  have "h' = task_result req res h \<or> (\<exists>rid m. h' = finish_run e (ToLower (cb_status req)) rid m (task_result req res h))"
    using cb unfolding TaskCallback_def Let_def if_not_P [OF ne(1)] exec_def res_def [symmetric]
    by (simp only: ne(2) option.case sum.case prod.inject split: option.splits if_splits) blast+
  then show ?thesis using ne by (intro that(2)) auto
qed

lemma TaskCallback_evolves:
  assumes "hub_inv h" and cb: "TaskCallback e u req h = (r, h')"
  shows "evolves (tasks (hdb h)) (tasks (hdb h')) \<and> hub_inv h'"
  using cb
proof (cases rule: TaskCallback_cases)
  case (2 res)
  have tasks: "tasks (hdb h') = map (\<lambda>t. if t_id t = cb_task req \<and> live (t_status t)
      then t\<lparr>t_status := ToLower (cb_status req), t_result := Some res, t_error := Some (cb_error req)\<rparr> else t) (tasks (hdb h))"
    using 2(2) by (auto simp: update_tasks_def)
  have "bus_inv (hbus h')" using 2(2) bus_inv_hub [OF assms(1)] by (auto simp: finish_run_bus)
  moreover have "ToLower (cb_status req) \<in> terminal" using 2(1) by (auto simp: terminal_def)
  ultimately show ?thesis by (intro task_update_evolves [OF _ _ _ _ assms(1) tasks]) auto
qed (use assms in simp)

lemma RunStepCallback_evolves:
  assumes "hub_inv h" and "RunStepCallback e req h = (r, h')"
  shows "evolves (tasks (hdb h)) (tasks (hdb h')) \<and> hub_inv h'"
proof -
  have "tasks (hdb h') = tasks (hdb h)" "bus_inv (hbus h')"
    using assms bus_inv_hub [OF assms(1)]
    by (auto simp: RunStepCallback_def Let_def bus_inv_publish split: sum.splits)
  then show ?thesis using hub_inv_same assms(1) by auto
qed

lemma hub_step_evolves:
  assumes "hub_step h h'" and "hub_inv h"
  shows "evolves (tasks (hdb h)) (tasks (hdb h')) \<and> hub_inv h'"
  using assms(1)
proof cases
  case (doc e d st cd n r)
  then have "tasks (hdb h') = tasks (hdb h)" "hbus h' = hbus h"
    by (auto simp: KnowledgeDocCallback_def Let_def exec_Inr_iff split: sum.splits if_splits)
  then show ?thesis using assms(2) by (simp add: hub_inv_def)
next
  case enqueue
  then show ?thesis by (rule EnqueueTask_evolves [OF assms(2)])
next
  case callback
  then show ?thesis by (rule TaskCallback_evolves [OF assms(2)])
next
  case run_step
  then show ?thesis by (rule RunStepCallback_evolves [OF assms(2)])
qed (simp_all only: watcher_check_evolves [OF assms(2)] watcher_update_evolves [OF assms(2)] reaper_evolves [OF assms(2)] simp_thms)

lemma hub_steps_evolve: "hub_step\<^sup>*\<^sup>* h h' \<Longrightarrow> hub_inv h \<Longrightarrow> evolves (tasks (hdb h)) (tasks (hdb h')) \<and> hub_inv h'"
  by (induction rule: rtranclp_induct) (auto intro: evolves_trans dest: hub_step_evolves)

section \<open>Properties\<close>

text \<open>
  C5. The life of a task. However enqueueing, callbacks, timeouts and the reaper interleave, and
  whichever database calls fail, no task disappears, its identity, run and payload never change, a
  task that reached \<open>succeeded\<close>, \<open>failed\<close>, \<open>timeout\<close> or \<open>expired\<close> keeps its
  row as it is, and a live one changes its status only to one of these; the invariant (unique
  identifiers, only the six statuses, a sound event bus) is kept.
\<close>

theorem task_lifecycle:
  assumes "hub_step\<^sup>*\<^sup>* h h'" and "hub_inv h"
  shows "hub_inv h' \<and> length (tasks (hdb h)) \<le> length (tasks (hdb h'))
         \<and> (\<forall>i < length (tasks (hdb h)).
              let t = tasks (hdb h) ! i; t' = tasks (hdb h') ! i in
              t_id t' = t_id t \<and> t_run t' = t_run t \<and> t_payload t' = t_payload t
              \<and> (if live (t_status t) then t' = t \<or> t_status t' \<in> {''succeeded'', ''failed'', ''timeout'', ''expired''}
                 else t' = t))"
  using hub_steps_evolve [OF assms] unfolding evolves_def task_le_def terminal_def by (auto simp: Let_def)

definition demo_task :: "string \<Rightarrow> task" where
  "demo_task st = \<lparr>t_id = ''t1'', t_ws = ''w'', t_session = Some ''s1'', t_run = Some ''r1'', t_type = ''agent_pipeline'',
     t_status = st, t_payload = JNull, t_result = None, t_error = None, t_expires = 0\<rparr>"

definition demo_hub :: "string \<Rightarrow> string \<Rightarrow> hub" where
  "demo_hub tst rst =
     \<lparr>hdb = empty_platform\<lparr>tasks := [demo_task tst], runs := [\<lparr>r_id = ''r1'', r_session = ''s1'', r_status = rst, r_reason = None\<rparr>],
              sessions := [\<lparr>s_id = ''s1'', s_ws = ''w'', s_user = ''u'', s_ds = None, s_dataset = None, s_title = ''t'', s_created = 0\<rparr>]\<rparr>,
      hbus = NewMemoryBus, hnats = [], htimers = [], harmed = [], htimeouts = 0\<rparr>"

lemma demo_hub_inv: "hub_inv (demo_hub ''timeout'' rst)"
  by (simp add: hub_inv_def demo_hub_def demo_task_def terminal_def bus_inv_New)

lemma demo_hub_tasks: "tasks (hdb (demo_hub tst rst)) = [demo_task tst]"
  by (simp add: demo_hub_def)

definition demo_cb :: task_cb where
  "demo_cb = \<lparr>cb_task = ''t1'', cb_status = ''succeeded'', cb_result = [], cb_error = []\<rparr>"

theorem task_lifecycle_witness:
  "tasks (hdb (snd (TaskCallback calm_env (\<lambda>_. Inr JNull) demo_cb (demo_hub ''timeout'' ''running'')))) ! 0 = demo_task ''timeout''"
proof -
  let ?h = "demo_hub ''timeout'' ''running''" and ?u = "\<lambda>_. Inr JNull"
  have "hub_step ?h (snd (TaskCallback calm_env ?u demo_cb ?h))"
    by (rule hub_step.callback [OF prod.collapse [symmetric]])
  from task_lifecycle [OF r_into_rtranclp [of hub_step, OF this] demo_hub_inv] show ?thesis
    by (auto simp: demo_hub_tasks demo_task_def live_def Let_def)
qed

text \<open>
  A late result overrules the timeout for the run, not for the task. The callback's update of
  the task is guarded by its status, but the run and the session are updated without looking at
  whether that update hit anything: after a timeout, a callback that says \<open>succeeded\<close> leaves the
  task at \<open>timeout\<close>, sets its run to \<open>completed\<close> and adds the result to the session's
  messages.
\<close>

theorem late_callback_completes_run:
  "\<exists>h' m. TaskCallback calm_env (\<lambda>_. Inr JNull) demo_cb (demo_hub ''timeout'' ''running'') = (Inr ''ok'', h')
     \<and> map t_status (tasks (hdb h')) = [''timeout''] \<and> map r_status (runs (hdb h')) = [''completed'']
     \<and> messages (hdb h') = [m] \<and> m_session m = ''s1''"
proof -
  have low: "ToLower ''succeeded'' = ''succeeded''" by (simp add: go_str)
  show ?thesis
    by (simp add: TaskCallback_def demo_cb_def low demo_hub_def demo_task_def exec_def update_tasks_def live_def query_row_def
        finish_run_def exec_log_def update_runs_def insert_message_def empty_platform_def Let_def)
qed

text \<open>
  Enqueueing against a database whose INSERT returns no row, as MySQL's does, never succeeds:
  the caller always gets an error, and yet, when the statement itself works, the task is stored as
  \<open>queued\<close>, with neither a message to the workers nor a timeout watcher.
\<close>

theorem EnqueueTask_no_row:
  assumes "ret_row e 0 = None" and "EnqueueTask e ne c ws sid rid ty p h = (r, h')"
  shows "isl r \<and> hnats h' = hnats h \<and> htimers h' = htimers h
         \<and> (if db_err e 0 = None \<and> def_id e 0 \<notin> t_id ` set (tasks (hdb h))
            then \<exists>t. tasks (hdb h') = tasks (hdb h) @ [t] \<and> t_status t = ''queued'' \<and> t_id t = def_id e 0
            else h' = h)"
  using assms by (auto simp: EnqueueTask_def exec_def insert_task_def Let_def split: option.splits if_splits)

theorem EnqueueTask_no_row_witness:
  "isl (fst (EnqueueTask calm_env None (NewClient True) ''w'' ''s1'' ''r1'' ''agent_pipeline'' JNull (demo_hub ''timeout'' ''running'')))"
  using EnqueueTask_no_row [OF _ prod.collapse [symmetric], of calm_env None "NewClient True" "''w''" "''s1''" "''r1''" "''agent_pipeline''" JNull
      "demo_hub ''timeout'' ''running''"]
  by simp

text \<open>Step numbers of a run, in the order they were stored.\<close>

definition steps_numbered :: "step list \<Rightarrow> bool" where
  "steps_numbered ss \<longleftrightarrow>
     (\<forall>r. let idx = map st_index (filter (\<lambda>s. st_run s = r) ss) in idx = map int [0..<length idx])"

lemma next_index_numbered: "steps_numbered ss \<Longrightarrow> next_index r ss = int (length (filter (\<lambda>s. st_run s = r) ss))"
proof -
  assume "steps_numbered ss"
  then have idx: "map st_index (filter (\<lambda>s. st_run s = r) ss) = map int [0..<length (filter (\<lambda>s. st_run s = r) ss)]"
    unfolding steps_numbered_def Let_def by (metis length_map)
  have "(case map int [0..<n] of [] \<Rightarrow> 0 | i # js \<Rightarrow> foldl max i js + 1) = int n" for n
  proof (cases n)
    case (Suc m)
    have "foldl max (0::int) (map int [Suc 0..<Suc m]) = int m"
      by (induction m) auto
    then show ?thesis using Suc by (simp add: upt_conv_Cons del: upt_Suc)
  qed simp
  then show ?thesis by (simp add: next_index_def idx)
qed

text \<open>
  Run steps are numbered consecutively. As long as the query for the next number works, every
  callback keeps the steps of each run numbered 0, 1, 2, ... in the order they were stored, whether
  or not the insertion itself succeeds.
\<close>

theorem run_steps_numbered:
  assumes "steps_numbered (steps (hdb h))" and "RunStepCallback e req h = (r, h')" and "db_err e 0 = None"
  shows "steps_numbered (steps (hdb h'))"
proof -
  let ?n = "next_index (sc_run req) (steps (hdb h))"
  have "steps (hdb h') = steps (hdb h) \<or>
      (\<exists>s. steps (hdb h') = steps (hdb h) @ [s] \<and> st_run s = sc_run req \<and> st_index s = ?n)"
    using assms(2,3)
    by (auto simp: RunStepCallback_def Let_def exec_log_def exec_def insert_step_def query_row_def split: sum.splits option.splits)
  then show ?thesis
    using assms(1) next_index_numbered [OF assms(1), of "sc_run req"]
    by (auto simp: steps_numbered_def Let_def)
qed

definition demo_step_cb :: step_cb where
  "demo_step_cb = \<lparr>sc_run = ''r1'', sc_agent = ''planner'', sc_status = ''ok'', sc_in = [], sc_out = [], sc_error = []\<rparr>"

theorem run_steps_numbered_witness:
  "steps_numbered (steps (hdb (snd (RunStepCallback calm_env demo_step_cb (demo_hub ''timeout'' ''running'')))))"
  by (rule run_steps_numbered [OF _ prod.collapse [symmetric]])
     (simp_all add: steps_numbered_def demo_hub_def empty_platform_def)

text \<open>
  C31. The orchestrator's SQL is read-only. \<open>InternalNL2SQL\<close> passes no role, so whatever text
  the worker generates, the only statement that can reach the platform database is one query that
  the lexer found free of write keywords, wrapped in the row limit.
\<close>

theorem InternalNL2SQL_read_only:
  assumes "InternalNL2SQL order ex p tr um sj di = (calls, r)" and "c \<in> set calls"
  shows "calls = [c] \<and> (\<exists>sql. IsReadOnlySQL (trim_stmt sql) = None \<and> c = Query (wrap_limit (trim_stmt sql) (maxRows ex)))"
proof -
  obtain inp res err where ex: "Execute order ex inp p = (calls, res, err)" and role: "Role inp = []"
    using assms by (auto simp: InternalNL2SQL_def Let_def split: if_splits prod.splits option.splits)
  have "RoleOrder (Role inp) = None" by (simp add: role RoleOrder_def)
  then have "Exec s \<notin> set calls" for s using Execute_unknown_role_no_write ex by blast
  moreover obtain gen :: gen_response where "calls = [c]" "guarded_call order (maxRows ex) (Role inp) (TrimSpace (gen_sql gen)) c"
    using Execute_calls [OF ex] assms(2) by auto
  ultimately show ?thesis by (cases c) (auto simp: guarded_call_def)
qed

definition demo_query :: string where
  "demo_query = ''select a from t''"

lemma demo_query_checked:
  "TrimSpace demo_query = demo_query \<and> ClassifySQL demo_query = SQLTypeSelect \<and> trim_stmt demo_query = demo_query
   \<and> IsReadOnlySQL demo_query = None"
  by (simp add: demo_query_def go_str classify_eval readonly_eval trim_stmt_def TrimSuffix_def suffix_def)

lemma demo_internal:
  "fst (InternalNL2SQL systemTables (NewExecutor (demo_gen demo_query) 500) demo_pool [] ''q'' [] []) = [Query (wrap_limit demo_query 500)]"
  using demo_query_checked
  by (simp add: InternalNL2SQL_def Execute_def NewExecutor_def demo_gen_def QueryRows_def demo_pool_def Let_def)

theorem InternalNL2SQL_read_only_witness:
  "\<exists>sql. IsReadOnlySQL (trim_stmt sql) = None \<and> Query (wrap_limit demo_query 500) = Query (wrap_limit (trim_stmt sql) 500)"
proof -
  have mem: "Query (wrap_limit demo_query 500) \<in> set (fst (InternalNL2SQL systemTables (NewExecutor (demo_gen demo_query) 500) demo_pool [] ''q'' [] []))"
    by (simp add: demo_internal)
  from InternalNL2SQL_read_only [OF prod.collapse [symmetric] mem] show ?thesis
    by (simp add: NewExecutor_def)
qed

end
