(* ===== verification/Schema_Discovery.thy ===== *)
theory Schema_Discovery
  imports Sqlrun Go_Json
begin

text \<open>
  Schema discovery and its cache: \<open>internal/schema/discovery.go\<close> and
  \<open>internal/schema/cache.go\<close>. The answer of \<open>information_schema\<close> is the parameter
  \<open>schema_query\<close>; Redis (\<open>GET\<close>, \<open>SET\<close>) and \<open>json.Unmarshal\<close> into the result type are
  parameters of the cached version. The text of a schema, which is also what the prompt of the
  language model gets, is written out.
\<close>

record ColumnSchema =
  c_name :: string
  c_type :: string
  c_nullable :: bool

record TableSchema =
  ts_name :: string
  ts_columns :: "ColumnSchema list"

type_synonym schema_row = "string \<times> string \<times> string \<times> string"

text \<open>The query fails, or delivers rows, each of which may fail to scan, and then ends or breaks off.\<close>

record schema_query =
  sq_err :: err
  sq_rows :: "schema_row res list"
  sq_iter_err :: err

type_synonym disc_state = "(string \<rightharpoonup> ColumnSchema list) \<times> string list"

definition column_of :: "schema_row \<Rightarrow> ColumnSchema" where
  "column_of r = (case r of (t, c, dt, nullable) \<Rightarrow> \<lparr>c_name = c, c_type = dt, c_nullable = (nullable = ''YES'')\<rparr>)"

text \<open>The loop over the rows; the flag tells that it was left by \<open>break\<close>.\<close>

fun discover_loop :: "int \<Rightarrow> int \<Rightarrow> schema_row res list \<Rightarrow> disc_state \<Rightarrow> (disc_state \<times> bool) res" where
  "discover_loop maxTables maxCols [] st = Inr (st, False)"
| "discover_loop maxTables maxCols (Inl e # rs) st = Inl (''scan schema row: '' @ e)"
| "discover_loop maxTables maxCols (Inr r # rs) (tableMap, tableOrder) =
     (let t = fst r in
      if IsSystemTable t then discover_loop maxTables maxCols rs (tableMap, tableOrder)
      else if tableMap t = None \<and> int (length tableOrder) \<ge> maxTables then Inr ((tableMap, tableOrder), True)
      else (let cols = (case tableMap t of None \<Rightarrow> [] | Some cs \<Rightarrow> cs);
                order = (if tableMap t = None then tableOrder @ [t] else tableOrder)
            in
            if int (length cols) \<ge> maxCols then discover_loop maxTables maxCols rs (tableMap, order)
            else discover_loop maxTables maxCols rs (tableMap(t \<mapsto> cols @ [column_of r]), order)))"

definition DiscoverSchema :: "schema_query \<Rightarrow> int \<Rightarrow> int \<Rightarrow> TableSchema list res" where
  "DiscoverSchema q maxTables maxCols =
     (case sq_err q of
        Some e \<Rightarrow> Inl (''information_schema query: '' @ e)
      | None \<Rightarrow>
          (case discover_loop maxTables maxCols (sq_rows q) (Map.empty, []) of
             Inl e \<Rightarrow> Inl e
           | Inr ((tableMap, tableOrder), broke) \<Rightarrow>
               (case (if broke then None else sq_iter_err q) of
                  Some e \<Rightarrow> Inl (''iterate schema rows: '' @ e)
                | None \<Rightarrow>
                    Inr (map (\<lambda>t. \<lparr>ts_name = t, ts_columns = (case tableMap t of None \<Rightarrow> [] | Some cs \<Rightarrow> cs)\<rparr>) tableOrder))))"

section \<open>The text of a schema\<close>

definition column_text :: "ColumnSchema \<Rightarrow> string" where
  "column_text c = json_struct [(''name'', json_string (c_name c)), (''type'', json_string (c_type c)),
     (''nullable'', if c_nullable c then ''true'' else ''false'')]"

text \<open>An empty list of columns is a nil slice: both places that build tables append to it or leave it out.\<close>

definition table_text :: "TableSchema \<Rightarrow> string" where
  "table_text t = json_struct [(''name'', json_string (ts_name t)),
     (''columns'', if ts_columns t = [] then ''null'' else json_array (map column_text (ts_columns t)))]"

text \<open>\<open>None\<close> is a nil slice of tables. \<open>json.Marshal\<close> has no error on strings and booleans.\<close>

definition ToJSON :: "TableSchema list option \<Rightarrow> string res" where
  "ToJSON tables = Inr (json_struct [(''tables'', case tables of None \<Rightarrow> ''null'' | Some ts \<Rightarrow> json_array (map table_text ts))])"

section \<open>The cache\<close>

definition cacheKey :: "string \<Rightarrow> string \<Rightarrow> string" where
  "cacheKey workspaceID sourceKey = ''schema:'' @ workspaceID @ '':'' @ sourceKey"

abbreviation "default_ttl \<equiv> 300 * (1000000000 :: int)"

definition CachedSchema ::
  "(string \<Rightarrow> 'r \<Rightarrow> string res) \<Rightarrow> (string \<Rightarrow> string \<Rightarrow> int \<Rightarrow> 'r \<Rightarrow> err \<times> 'r) \<Rightarrow>
   (string \<Rightarrow> TableSchema list res) \<Rightarrow>
   schema_query \<Rightarrow> int \<Rightarrow> int \<Rightarrow> int \<Rightarrow> string \<Rightarrow> string \<Rightarrow> 'r \<Rightarrow> TableSchema list res \<times> 'r" where
  "CachedSchema rget rset unmarshal q maxTables maxCols SchemaCacheTTL workspaceID sourceKey rd =
     (let key = cacheKey workspaceID sourceKey;
          hit = (case rget key rd of Inl _ \<Rightarrow> Inl [] | Inr cached \<Rightarrow> unmarshal cached)
      in
      case hit of
        Inr sr \<Rightarrow> (Inr sr, rd)
      | Inl _ \<Rightarrow>
          (case DiscoverSchema q maxTables maxCols of
             Inl e \<Rightarrow> (Inl e, rd)
           | Inr sr \<Rightarrow>
               (case ToJSON (Some sr) of
                  Inl _ \<Rightarrow> (Inr sr, rd)
                | Inr jsonStr \<Rightarrow>
                    (let ttl = (if SchemaCacheTTL \<le> 0 then default_ttl else SchemaCacheTTL) in
                     (Inr sr, snd (rset key jsonStr ttl rd))))))"

section \<open>Bounds\<close>

text \<open>What the loop maintains when at least one column per table is allowed.\<close>

definition disc_inv :: "int \<Rightarrow> int \<Rightarrow> schema_row set \<Rightarrow> disc_state \<Rightarrow> bool" where
  "disc_inv maxTables maxCols seen st \<longleftrightarrow>
     (case st of (tm, order) \<Rightarrow>
        distinct order \<and> set order = dom tm \<and> int (length order) \<le> max 0 maxTables
        \<and> (\<forall>t cs. tm t = Some cs \<longrightarrow>
              \<not> IsSystemTable t \<and> cs \<noteq> [] \<and> int (length cs) \<le> maxCols
              \<and> (\<forall>c \<in> set cs. \<exists>r \<in> seen. fst r = t \<and> c = column_of r)))"

lemma disc_inv_mono: "disc_inv mt mc seen st \<Longrightarrow> seen \<subseteq> seen' \<Longrightarrow> disc_inv mt mc seen' st"
  unfolding disc_inv_def by (auto split: prod.splits) blast

lemma disc_inv_add:
  assumes inv: "disc_inv mt mc seen (tm, order)" and t: "fst r = t" "\<not> IsSystemTable t" and r: "r \<in> seen"
    and new: "tm t = None \<longrightarrow> int (length order) < mt"
    and cols: "cols = (case tm t of None \<Rightarrow> [] | Some cs \<Rightarrow> cs)" "int (length cols) < mc"
  shows "disc_inv mt mc seen (tm(t \<mapsto> cols @ [column_of r]), if tm t = None then order @ [t] else order)"
proof (cases "tm t")
  case None
  then show ?thesis using assms by (auto simp: disc_inv_def)
next
  case (Some cs)
  then show ?thesis using assms by (auto simp: disc_inv_def)
qed

lemma discover_loop_inv:
  assumes "discover_loop mt mc rs st = Inr (st', broke)" and "disc_inv mt mc seen st" and "0 < mc"
    and "\<forall>r. Inr r \<in> set rs \<longrightarrow> r \<in> seen"
  shows "disc_inv mt mc seen st'"
  using assms
proof (induction mt mc rs st rule: discover_loop.induct)
  case (3 maxTables maxCols r rs tableMap tableOrder)
  let ?t = "fst r" and ?cols = "case tableMap (fst r) of None \<Rightarrow> [] | Some cs \<Rightarrow> cs"
  have seen: "r \<in> seen" using 3(7) by (cases r) auto
  show ?case
  proof (cases "IsSystemTable ?t \<or> tableMap ?t = None \<and> maxTables \<le> int (length tableOrder)")
    case True
    then show ?thesis using 3 by (auto simp: Let_def split: if_splits)
  next
    case False
    show ?thesis
    proof (cases "maxCols \<le> int (length ?cols)")
      case True
      then have "tableMap ?t \<noteq> None" using 3(6) by (auto split: option.splits)
      then show ?thesis using 3 True False by (auto simp: Let_def)
    next
      case short: False
      have "disc_inv maxTables maxCols seen (tableMap(?t \<mapsto> ?cols @ [column_of r]), if tableMap ?t = None then tableOrder @ [?t] else tableOrder)"
        using 3(5) seen False short by (intro disc_inv_add) auto
      then show ?thesis using 3 False short by (auto simp: Let_def)
    qed
  qed
qed auto

text \<open>
  C30. What schema discovery exposes. With a positive column limit, a result has at most the
  configured number of tables, with distinct names, none of them a system table of the platform;
  each has between one and the configured number of columns, and every column is one the database
  reported for that table.
\<close>

theorem DiscoverSchema_bounds:
  assumes "DiscoverSchema q maxTables maxCols = Inr tables" and "0 < maxCols"
  shows "int (length tables) \<le> max 0 maxTables \<and> distinct (map ts_name tables)
         \<and> (\<forall>t \<in> set tables. \<not> IsSystemTable (ts_name t) \<and> ts_columns t \<noteq> [] \<and> int (length (ts_columns t)) \<le> maxCols
              \<and> (\<forall>c \<in> set (ts_columns t). \<exists>r. Inr r \<in> set (sq_rows q) \<and> fst r = ts_name t \<and> c = column_of r))"
proof -
  obtain tm order broke where loop: "discover_loop maxTables maxCols (sq_rows q) (Map.empty, []) = Inr ((tm, order), broke)"
    and tables: "tables = map (\<lambda>t. \<lparr>ts_name = t, ts_columns = (case tm t of None \<Rightarrow> [] | Some cs \<Rightarrow> cs)\<rparr>) order"
    using assms(1) by (auto simp: DiscoverSchema_def split: option.splits sum.splits prod.splits)
  have "disc_inv maxTables maxCols {r. Inr r \<in> set (sq_rows q)} (Map.empty, [])"
    by (simp add: disc_inv_def)
  then have "disc_inv maxTables maxCols {r. Inr r \<in> set (sq_rows q)} (tm, order)"
    using discover_loop_inv [OF loop _ assms(2)] by auto
  then show ?thesis unfolding tables disc_inv_def
    by (auto simp: comp_def split: option.splits)
qed

definition demo_schema :: schema_query where
  "demo_schema = \<lparr>sq_err = None,
     sq_rows = [Inr (''orders'', ''id'', ''int'', ''NO''), Inr (''users'', ''email'', ''varchar'', ''NO''),
                Inr (''orders'', ''total'', ''decimal'', ''YES'')],
     sq_iter_err = None\<rparr>"

lemma demo_discover:
  "DiscoverSchema demo_schema 50 100 =
     Inr [\<lparr>ts_name = ''orders'', ts_columns = [\<lparr>c_name = ''id'', c_type = ''int'', c_nullable = False\<rparr>,
            \<lparr>c_name = ''total'', c_type = ''decimal'', c_nullable = True\<rparr>]\<rparr>]"
  by (simp add: DiscoverSchema_def demo_schema_def IsSystemTable_def systemTables_def column_of_def Let_def)

theorem DiscoverSchema_bounds_witness: "\<not> IsSystemTable ''orders''"
  using DiscoverSchema_bounds [OF demo_discover] by simp

section \<open>Reading a schema\<close>

text \<open>The text as any JSON reader sees it, and the schema such a tree stands for.\<close>

definition column_tree :: "ColumnSchema \<Rightarrow> jtree" where
  "column_tree c = TObj [(''name'', TStr (c_name c)), (''type'', TStr (c_type c)), (''nullable'', TBool (c_nullable c))]"

definition table_tree :: "TableSchema \<Rightarrow> jtree" where
  "table_tree t = TObj [(''name'', TStr (ts_name t)), (''columns'', if ts_columns t = [] then TNull else TArr (map column_tree (ts_columns t)))]"

definition schema_tree :: "TableSchema list \<Rightarrow> jtree" where
  "schema_tree ts = TObj [(''tables'', TArr (map table_tree ts))]"

definition column_utf8 :: "ColumnSchema \<Rightarrow> bool" where
  "column_utf8 c \<longleftrightarrow> utf8_ok (c_name c) \<and> utf8_ok (c_type c)"

definition schema_utf8 :: "TableSchema list \<Rightarrow> bool" where
  "schema_utf8 ts \<longleftrightarrow> list_all (\<lambda>t. utf8_ok (ts_name t) \<and> list_all column_utf8 (ts_columns t)) ts"

lemma keys_utf8 [simp]:
  "utf8_ok ''name''" "utf8_ok ''type''" "utf8_ok ''nullable''"
  "utf8_ok ''columns''" "utf8_ok ''tables''"
  by (simp_all add: utf8_ok_def byte_def)

lemma parse_column: "column_utf8 c \<Longrightarrow> parse_value (column_text c @ r) = Some (column_tree c, r)"
  using parse_fields [of "[(''name'', json_string (c_name c), TStr (c_name c)), (''type'', json_string (c_type c), TStr (c_type c)),
     (''nullable'', if c_nullable c then ''true'' else ''false'', TBool (c_nullable c))]" r]
  by (simp add: column_text_def column_tree_def column_utf8_def utf8_ok_def [of "c_name c"] utf8_ok_def [of "c_type c"] parse_string parse_words [simplified])

lemma parse_table:
  assumes "utf8_ok (ts_name t)" and "list_all column_utf8 (ts_columns t)"
  shows "parse_value (table_text t @ r) = Some (table_tree t, r)"
proof -
  have "parse_value (json_array (map column_text (ts_columns t)) @ s) = Some (TArr (map column_tree (ts_columns t)), s)" for s
    using assms(2) by (intro parse_array) (simp add: list_all_iff parse_column)
  then show ?thesis
    using assms(1) parse_fields [of "[(''name'', json_string (ts_name t), TStr (ts_name t)),
      (''columns'', if ts_columns t = [] then ''null'' else json_array (map column_text (ts_columns t)),
         if ts_columns t = [] then TNull else TArr (map column_tree (ts_columns t)))]" r]
    by (simp add: table_text_def table_tree_def utf8_ok_def [of "ts_name t"] parse_string parse_words [simplified])
qed

text \<open>The text of a schema is unambiguous: every JSON reader finds the tables and columns in it.\<close>

lemma json_read_ToJSON:
  assumes "schema_utf8 ts" and "ToJSON (Some ts) = Inr j"
  shows "json_read j = Some (schema_tree ts)"
proof -
  have "parse_value (json_array (map table_text ts) @ s) = Some (TArr (map table_tree ts), s)" for s
    using assms(1) by (intro parse_array) (simp add: schema_utf8_def list_all_iff parse_table)
  then have "parse_value (j @ []) = Some (schema_tree ts, [])"
    using assms(2) parse_fields [of "[(''tables'', json_array (map table_text ts), TArr (map table_tree ts))]" "[]"]
    by (simp add: ToJSON_def schema_tree_def)
  then show ?thesis by (simp add: json_read_def)
qed

text \<open>
  The cache answers for the database. When \<open>json.Unmarshal\<close> decodes the text of a schema and a
  stored value can be read back, a discovery that was stored is what every later call for the same
  workspace and source returns, whatever the database would say then, and Redis is not written again.
\<close>

theorem CachedSchema_hit:
  assumes set_get: "\<And>k v t rd rd'. rset k v t rd = (None, rd') \<Longrightarrow> rget k rd' = Inr v"
    and decodes: "\<And>j ts. json_read j = Some (schema_tree ts) \<Longrightarrow> unmarshal j = Inr ts"
    and miss: "rget (cacheKey w s) rd = Inl e" and stored: "\<And>v t. fst (rset (cacheKey w s) v t rd) = None"
    and utf8: "schema_utf8 sr"
    and first: "CachedSchema rget rset unmarshal q mt mc ttl w s rd = (Inr sr, rd')"
  shows "CachedSchema rget rset unmarshal q' mt' mc' ttl' w s rd' = (Inr sr, rd')"
proof -
  obtain j where j: "ToJSON (Some sr) = Inr j" by (simp add: ToJSON_def)
  have "rd' = snd (rset (cacheKey w s) j (if ttl \<le> 0 then default_ttl else ttl) rd)"
    using first miss j by (auto simp: CachedSchema_def Let_def split: sum.splits)
  then have "rget (cacheKey w s) rd' = Inr j" using set_get stored by (metis prod.collapse)
  then show ?thesis using decodes [OF json_read_ToJSON [OF utf8 j]] by (simp add: CachedSchema_def)
qed

text \<open>A decoder that meets the hypothesis: it accepts the fields in the order they are written.\<close>

fun tree_column :: "jtree \<Rightarrow> ColumnSchema option" where
  "tree_column (TObj [(_, TStr n), (_, TStr t), (_, TBool b)]) = Some \<lparr>c_name = n, c_type = t, c_nullable = b\<rparr>"
| "tree_column _ = None"

fun tree_table :: "jtree \<Rightarrow> TableSchema option" where
  "tree_table (TObj [(_, TStr n), (_, TNull)]) = Some \<lparr>ts_name = n, ts_columns = []\<rparr>"
| "tree_table (TObj [(_, TStr n), (_, TArr cs)]) = map_option (\<lambda>cs. \<lparr>ts_name = n, ts_columns = cs\<rparr>) (those (map tree_column cs))"
| "tree_table _ = None"

fun tree_schema :: "jtree \<Rightarrow> TableSchema list option" where
  "tree_schema (TObj [(_, TArr ts)]) = those (map tree_table ts)"
| "tree_schema _ = None"

lemma those_map_Some: "those (map Some xs) = Some xs"
  by (induction xs) auto

lemma tree_schema_inv: "tree_schema (schema_tree ts) = Some ts"
proof -
  have "tree_column (column_tree c) = Some c" for c by (simp add: column_tree_def)
  then have "tree_table (table_tree t) = Some t" for t by (cases t) (simp add: table_tree_def comp_def those_map_Some)
  then show ?thesis by (simp add: schema_tree_def comp_def those_map_Some)
qed

definition demo_unmarshal :: "string \<Rightarrow> TableSchema list res" where
  "demo_unmarshal j = (case Option.bind (json_read j) tree_schema of None \<Rightarrow> Inl ''invalid'' | Some ts \<Rightarrow> Inr ts)"

definition demo_get :: "string \<Rightarrow> (string \<times> string) list \<Rightarrow> string res" where
  "demo_get k kv = (case map_of kv k of None \<Rightarrow> Inl ''redis: nil'' | Some v \<Rightarrow> Inr v)"

definition demo_set :: "string \<Rightarrow> string \<Rightarrow> int \<Rightarrow> (string \<times> string) list \<Rightarrow> err \<times> (string \<times> string) list" where
  "demo_set k v t kv = (None, (k, v) # kv)"

definition one_column :: schema_query where
  "one_column = \<lparr>sq_err = None, sq_rows = [Inr (''orders'', ''id'', ''int'', ''NO'')], sq_iter_err = None\<rparr>"

theorem CachedSchema_hit_witness:
  "\<exists>rd. CachedSchema demo_get demo_set demo_unmarshal one_column 50 100 0 ''w'' ''s'' []
       = (Inr [\<lparr>ts_name = ''orders'', ts_columns = [\<lparr>c_name = ''id'', c_type = ''int'', c_nullable = False\<rparr>]\<rparr>], rd)
    \<and> CachedSchema demo_get demo_set demo_unmarshal demo_schema 50 100 0 ''w'' ''s'' rd
       = (Inr [\<lparr>ts_name = ''orders'', ts_columns = [\<lparr>c_name = ''id'', c_type = ''int'', c_nullable = False\<rparr>]\<rparr>], rd)"
proof -
  let ?sr = "[\<lparr>ts_name = ''orders'', ts_columns = [\<lparr>c_name = ''id'', c_type = ''int'', c_nullable = False\<rparr>]\<rparr>]"
  have "DiscoverSchema one_column 50 100 = Inr ?sr"
    by code_simp
  then obtain rd where first: "CachedSchema demo_get demo_set demo_unmarshal one_column 50 100 0 ''w'' ''s'' [] = (Inr ?sr, rd)"
    by (simp add: CachedSchema_def demo_get_def demo_set_def ToJSON_def Let_def)
  have "schema_utf8 ?sr" by code_simp
  from CachedSchema_hit [OF _ _ _ _ this first, where q' = demo_schema and mt' = 50 and mc' = 100 and ttl' = 0] first show ?thesis
    by (auto simp: demo_get_def demo_set_def demo_unmarshal_def tree_schema_inv)
qed

end
