(* ===== verification/Messages.thy ===== *)
theory Messages
  imports Data Sessions Datasources Grpcserver Schema_Discovery
begin

text \<open>
  Posting a message: \<open>internal/handlers/messages.go\<close>. A message is stored, a run is created, and
  then one of three paths answers: the dataset of the session, the knowledge base, or the data
  source of the session (or the hub's own database). The state joins the hub (database, bus, task
  queue), the connection manager and Redis; beside the answer the handler returns the statements
  sent to a pool (\<open>None\<close> is the hub's database). Everything outside is in \<open>msg_world\<close>.

  The platform database calls are numbered 0 session, 1 dataset of the session, 2 user message,
  3 run, 4 schema or data source, 5 dataset database or credentials, 10 and 11 the failure, 12 and
  13 the result; \<open>EnqueueTask\<close> has an \<open>env\<close> of its own. \<open>json.Marshal\<close> cannot fail
  on the values marshalled here, and is left out.
\<close>

type_synonym hub_sql = "nat option \<Rightarrow> string \<Rightarrow> string list \<Rightarrow> platform \<Rightarrow> platform"

record 'r msg_world =
  mw_env :: env
  mw_task_env :: env
  mw_nats_err :: err
  mw_async :: async_client
  mw_limiter :: "'r limiter"
  mw_llm :: "llm_client option"
  mw_llm_world :: llm_world
  mw_model :: string
  mw_rag :: "(string \<Rightarrow> string \<Rightarrow> string \<Rightarrow> (bool \<times> string) res) option"
  mw_exec :: executor
  mw_order :: "string list"
  mw_hub_pool :: pool
  mw_pool :: "nat \<Rightarrow> pool"
  mw_hub_sql :: hub_sql
  mw_my :: mysql_server
  mw_secrets :: secrets
  mw_discover :: "string option \<Rightarrow> schema_query"
  mw_rget :: "string \<Rightarrow> 'r \<Rightarrow> string res"
  mw_rset :: "string \<Rightarrow> string \<Rightarrow> int \<Rightarrow> 'r \<Rightarrow> err \<times> 'r"
  mw_unmarshal :: "string \<Rightarrow> TableSchema list res"
  mw_maxTables :: int
  mw_maxCols :: int
  mw_ttl :: int
  mw_collate :: "string \<Rightarrow> int"
  mw_start :: int
  mw_elapsed :: "nat \<Rightarrow> int"

record 'r app_state =
  as_hub :: hub
  as_mgr :: manager
  as_redis :: 'r

type_synonym 'r msg_result = "response \<times> 'r app_state \<times> (nat option \<times> dbcall) list"

record msg_body =
  mb_text :: string
  mb_workflow :: string

section \<open>Results\<close>

definition with_db :: "(platform \<Rightarrow> platform) \<Rightarrow> hub \<Rightarrow> hub" where
  "with_db f h = h\<lparr>hdb := f (hdb h)\<rparr>"

text \<open>The effect of statements on the tables of the hub; queries have none.\<close>

definition call_effect :: "hub_sql \<Rightarrow> nat option \<times> dbcall \<Rightarrow> platform \<Rightarrow> platform" where
  "call_effect eff k db = (case k of (p, Query q) \<Rightarrow> db | (p, Exec sql) \<Rightarrow> eff p sql [] db)"

definition sql_done :: "'r msg_world \<Rightarrow> (nat option \<times> dbcall) list \<Rightarrow> 'r app_state \<Rightarrow> 'r app_state" where
  "sql_done w calls s = s\<lparr>as_hub := with_db (fold (call_effect (mw_hub_sql w)) calls) (as_hub s)\<rparr>"

definition with_event :: "string \<Rightarrow> string \<Rightarrow> json \<Rightarrow> hub \<Rightarrow> hub" where
  "with_event sid typ data h = h\<lparr>hbus := bus_publish sid typ data (hbus h)\<rparr>"

definition post_row :: "env \<Rightarrow> nat \<Rightarrow> string \<Rightarrow> string \<Rightarrow> json \<Rightarrow> message" where
  "post_row e k sid role content = \<lparr>m_id = def_id e k, m_session = sid, m_role = role, m_content = content, m_created = now e\<rparr>"

definition finishRunFailed :: "env \<Rightarrow> string \<Rightarrow> string \<Rightarrow> string \<Rightarrow> nat \<Rightarrow> hub \<Rightarrow> hub" where
  "finishRunFailed e runID sessionID msg c h =
     (let assist = JObj [(''error'', JStr msg), (''code'', JStr (code_string c))];
          h1 = with_db (exec_log e 10 (insert_message (post_row e 10 sessionID ''assistant'' assist))) h;
          h2 = with_db (exec_log e 11 (\<lambda>d. Inr (update_runs (\<lambda>r. r_id r = runID) (\<lambda>r. r\<lparr>r_status := ''failed'', r_reason := Some msg\<rparr>) d))) h1
      in with_event sessionID ''error'' (JObj [(''message'', JStr msg)]) h2)"

definition publishSyncResult :: "'r msg_world \<Rightarrow> string \<Rightarrow> string \<Rightarrow> result \<Rightarrow> hub \<Rightarrow> json \<times> hub" where
  "publishSyncResult w rid sid res h =
     (let e = mw_env w;
          totalElapsedMs = JInt (mw_elapsed w 0);
          startedAt = JStr (rfc3339 (mw_start w));
          h1 = with_event sid ''sql_generated'' (JObj [(''sql'', JStr (res_sql res)), (''elapsed_ms'', JInt (mw_elapsed w 1)), (''is_write'', JBool (IsWrite res))]) h;
          rows = JArr (map row_json (Rows res));
          assist = (if IsWrite res
                    then JObj [(''sql'', JStr (res_sql res)), (''rows_affected'', JInt (RowsAffected res)), (''notes'', JStr (SelfCheckNotes res)),
                               (''type'', JStr ''write''), (''elapsed_ms'', totalElapsedMs), (''started_at'', startedAt)]
                    else JObj [(''sql'', JStr (res_sql res)), (''rows'', rows), (''notes'', JStr (SelfCheckNotes res)),
                               (''elapsed_ms'', totalElapsedMs), (''started_at'', startedAt)]);
          resp = (if IsWrite res
                  then JObj [(''run_id'', JStr rid), (''sql'', JStr (res_sql res)), (''rows_affected'', JInt (RowsAffected res)),
                             (''elapsed_ms'', totalElapsedMs), (''started_at'', startedAt)]
                  else JObj [(''run_id'', JStr rid), (''sql'', JStr (res_sql res)), (''rows'', rows),
                             (''elapsed_ms'', totalElapsedMs), (''started_at'', startedAt)]);
          h2 = with_db (exec_log e 12 (insert_message (post_row e 12 sid ''assistant'' assist))) h1;
          h3 = with_db (exec_log e 13 (\<lambda>d. Inr (update_runs (\<lambda>r. r_id r = rid) (\<lambda>r. r\<lparr>r_status := ''completed''\<rparr>) d))) h2
      in (resp, with_event sid ''result'' assist h3))"

definition mapGRPCCode :: "nat \<Rightarrow> string" where
  "mapGRPCCode c = (if c = 14 then ''worker unavailable'' else if c = 4 then ''deadline exceeded'' else ''worker error'')"

section \<open>Schemas\<close>

text \<open>The loop over the rows: tables finished so far and the current one.\<close>

fun group_columns :: "(string \<times> ColumnSchema) list \<Rightarrow> TableSchema list \<Rightarrow> TableSchema option \<Rightarrow> TableSchema list" where
  "group_columns [] tables current = tables @ (case current of None \<Rightarrow> [] | Some t \<Rightarrow> [t])"
| "group_columns ((tblName, col) # rows) tables current =
     (if current = None \<or> ts_name (the current) \<noteq> tblName
      then group_columns rows (tables @ (case current of None \<Rightarrow> [] | Some t \<Rightarrow> [t])) (Some \<lparr>ts_name = tblName, ts_columns = [col]\<rparr>)
      else group_columns rows tables (map_option (\<lambda>t. t\<lparr>ts_columns := ts_columns t @ [col]\<rparr>) current))"

text \<open>\<open>ORDER BY dt.name, tf.ordinal_position\<close>, names in the order of the collation.\<close>

definition dataset_columns :: "(string \<Rightarrow> int) \<Rightarrow> string \<Rightarrow> platform \<Rightarrow> (string \<times> ColumnSchema) list" where
  "dataset_columns collate datasetID db =
     map (\<lambda>(t, f). (dt_name t, \<lparr>c_name = tf_name f, c_type = tf_type f, c_nullable = tf_nullable f\<rparr>))
       (sort_key (\<lambda>(t, f). collate (dt_name t)) (sort_key (\<lambda>(t, f). tf_pos f)
          [(t, f). f \<leftarrow> tfields db, t \<leftarrow> dtables db,
                   dt_id t = tf_table f \<and> tf_table f \<in> dt_id ` set (filter (\<lambda>t. dt_dataset t = datasetID \<and> dt_status t = ''active'') (dtables db))]))"

definition resolveDatasetSchema :: "'r msg_world \<Rightarrow> string \<Rightarrow> platform \<Rightarrow> string res" where
  "resolveDatasetSchema w datasetID db =
     (case query (mw_env w) 4 (dataset_columns (mw_collate w) datasetID db) of
        Inl m \<Rightarrow> Inl (''query dataset schema: '' @ m)
      | Inr rows0 \<Rightarrow>
          (let rows = rows_next (mw_env w) 4 rows0 in
           if scan_fails (mw_env w) 4 rows then Inl ''scan dataset schema: sql: Scan error''
           else (case rows_Err (mw_env w) 4 of
                   Some m \<Rightarrow> Inl (''iterate dataset schema: '' @ m)
                 | None \<Rightarrow> (let ts = group_columns rows [] None in ToJSON (if ts = [] then None else Some ts)))))"

definition resolveSchema :: "'r msg_world \<Rightarrow> string option \<Rightarrow> string \<Rightarrow> platform \<Rightarrow> 'r \<Rightarrow> string res \<times> 'r" where
  "resolveSchema w dsID workspaceID db rd =
     (let source = (case dsID of
                      None \<Rightarrow> Inr (''hub'', None)
                    | Some i \<Rightarrow>
                        (case query_row (mw_env w) 5 (filter (\<lambda>d. ds_id d = i) (dsources db)) of
                           Inl m \<Rightarrow> Inl (''data source not found: '' @ m)
                         | Inr d \<Rightarrow>
                             (case Decrypt (aes_block (mw_secrets w)) (ds_password d) (enc_key (mw_secrets w)) of
                                Inl _ \<Rightarrow> Inl ''failed to decrypt datasource password''
                              | Inr pwd \<Rightarrow>
                                  (let dsn = ds_dsn (ds_user d) pwd (ds_host d) (ds_port d) (ds_database d) in
                                   case my_open (mw_my w) dsn of
                                     Some m \<Rightarrow> Inl (''schema discovery: cannot connect to data source: '' @ m)
                                   | None \<Rightarrow> Inr (i, Some dsn)))))
      in case source of
           Inl m \<Rightarrow> (Inl m, rd)
         | Inr (sourceKey, dsn) \<Rightarrow>
             (case CachedSchema (mw_rget w) (mw_rset w) (mw_unmarshal w) (mw_discover w dsn)
                     (mw_maxTables w) (mw_maxCols w) (mw_ttl w) workspaceID sourceKey rd of
                (Inl m, rd') \<Rightarrow> (Inl (''schema discovery failed: '' @ m), rd')
              | (Inr sr, rd') \<Rightarrow> ((case ToJSON (Some sr) of Inl _ \<Rightarrow> Inl ''schema error'' | Inr j \<Rightarrow> Inr j), rd')))"

section \<open>Paths\<close>

text \<open>UTF-8 texts of the prompts and keywords.\<close>

definition qa_prompt_head :: string where
  "qa_prompt_head =
     map char_of [228, 189, 160, 230, 152, 175, 228, 184, 128, 228, 184, 170, 231, 159, 165, 232, 175, 134,
     229, 186, 147, 233, 151, 174, 231, 173, 148, 229, 138, 169, 230, 137, 139, 227, 128, 130, 232, 175, 183,
     229, 159, 186, 228, 186, 142, 228, 189, 160, 231, 154, 132, 231, 159, 165, 232, 175, 134, 229, 155, 158,
     231, 173, 148, 228, 187, 165, 228, 184, 139, 233, 151, 174, 233, 162, 152, 227, 128, 130, 10, 229, 166,
     130, 230, 158, 156, 228, 184, 141, 231, 159, 165, 233, 129, 147, 231, 173, 148, 230, 161, 136, 239, 188,
     140, 232, 175, 183, 229, 166, 130, 229, 174, 158, 232, 175, 180, 230, 152, 142, 239, 188, 140, 228, 184,
     141, 232, 166, 129, 231, 188, 150, 233, 128, 160, 227, 128, 130, 10, 10, 233, 151, 174, 233, 162, 152,
     239, 188, 154 :: nat]"

definition qa_prompt_tail :: string where
  "qa_prompt_tail =
     map char_of [10, 10, 232, 175, 183, 231, 148, 168, 228, 184, 173, 230, 150, 135, 229, 155, 158, 231, 173,
     148, 227, 128, 130 :: nat]"

definition qa_failed :: string where
  "qa_failed =
     map char_of [231, 159, 165, 232, 175, 134, 229, 186, 147, 230, 159, 165, 232, 175, 162, 229, 164, 177,
     232, 180, 165, 58, 32 :: nat]"

definition word_analysis :: string where
  "word_analysis =
     map char_of [229, 136, 134, 230, 158, 144 :: nat]"

definition word_report :: string where
  "word_report =
     map char_of [230, 138, 165, 229, 145, 138 :: nat]"

definition useAgentPipeline :: "msg_body \<Rightarrow> bool" where
  "useAgentPipeline b =
     (let wf0 = ToLower (TrimSpace (mb_workflow b));
          workflow = (if wf0 = [] then ''auto'' else wf0);
          textLow = ToLower (mb_text b);
          isComplex = Contains textLow word_analysis \<or> Contains textLow word_report
                      \<or> Contains textLow ''analyze'' \<or> Contains textLow ''report''
      in workflow = ''agent_pipeline'' \<or> (workflow = ''auto'' \<and> isComplex))"

definition fail_run :: "'r msg_world \<Rightarrow> string \<Rightarrow> string \<Rightarrow> string \<Rightarrow> nat \<Rightarrow> response \<Rightarrow> (nat option \<times> dbcall) list \<Rightarrow> 'r app_state \<Rightarrow> 'r msg_result" where
  "fail_run w rid sid msg code r calls s = (r, s\<lparr>as_hub := finishRunFailed (mw_env w) rid sid msg code (as_hub s)\<rparr>, calls)"

definition finish_ok :: "'r msg_world \<Rightarrow> string \<Rightarrow> string \<Rightarrow> result \<Rightarrow> (nat option \<times> dbcall) list \<Rightarrow> 'r app_state \<Rightarrow> 'r msg_result" where
  "finish_ok w rid sid res calls s =
     (case publishSyncResult w rid sid res (as_hub s) of (resp, h') \<Rightarrow> (JSON StatusOK resp, s\<lparr>as_hub := h'\<rparr>, calls))"

text \<open>Handing the question to the agents.\<close>

definition enqueue_pipeline :: "'r msg_world \<Rightarrow> string \<Rightarrow> string \<Rightarrow> string \<Rightarrow> msg_body \<Rightarrow> string \<Rightarrow> 'r app_state \<Rightarrow> 'r msg_result" where
  "enqueue_pipeline w wsID sid rid b schemaJSON s =
     (case EnqueueTask (mw_task_env w) (mw_nats_err w) (mw_async w) wsID sid rid ''agent_pipeline''
             (JObj [(''user_message'', JStr (mb_text b)), (''schema_json'', JStr schemaJSON)]) (as_hub s) of
        (Inl m, h) \<Rightarrow> fail_run w rid sid (''failed to enqueue task: '' @ m) 13 (errJSON StatusInternalServerError ''enqueue error'') [] (s\<lparr>as_hub := h\<rparr>)
      | (Inr taskID, h) \<Rightarrow>
          (JSON StatusAccepted (JObj [(''run_id'', JStr rid), (''task_id'', JStr taskID), (''status'', JStr ''pending_async'')]), s\<lparr>as_hub := h\<rparr>, []))"

definition run_input :: "Claims \<Rightarrow> string \<Rightarrow> string \<Rightarrow> string \<Rightarrow> string \<Rightarrow> string \<Rightarrow> input" where
  "run_input c trace sid text schemaJSON dialect =
     \<lparr>TraceID = trace, SessionID = sid, UserMessage = text, SchemaJSON = schemaJSON, Dialect = dialect, Role = Claims.Role c\<rparr>"

definition postMessageToDataset ::
  "'r msg_world \<Rightarrow> Claims \<Rightarrow> string \<Rightarrow> string \<Rightarrow> msg_body \<Rightarrow> string \<Rightarrow> string \<Rightarrow> 'r app_state \<Rightarrow> 'r msg_result" where
  "postMessageToDataset w c sid rid b trace datasetID s =
     (case resolveDatasetSchema w datasetID (hdb (as_hub s)) of
        Inl m \<Rightarrow> fail_run w rid sid (''schema error: '' @ m) 13 (errJSON StatusBadGateway m) [] s
      | Inr schemaJSON \<Rightarrow>
          (case query_row (mw_env w) 5 (map d_mysql (filter (\<lambda>d. d_id d = datasetID) (datasets (hdb (as_hub s))))) of
             Inl _ \<Rightarrow> fail_run w rid sid ''dataset not found'' 5 (errJSON StatusNotFound ''dataset not found'') [] s
           | Inr mysqlDB \<Rightarrow>
               (case pool_for (mw_my w) datasetID mysqlDB (as_mgr s) of
                  (Inl _, m') \<Rightarrow> fail_run w rid sid ''database connection error'' 13 (errJSON StatusInternalServerError ''database connection error'') [] (s\<lparr>as_mgr := m'\<rparr>)
                | (Inr p, m') \<Rightarrow>
                    (let s1 = s\<lparr>as_mgr := m'\<rparr> in
                     if useAgentPipeline b then enqueue_pipeline w ''workspace'' sid rid b schemaJSON s1
                     else (case Execute (mw_order w) (mw_exec w) (run_input c trace sid (mb_text b) schemaJSON ''mysql'') (mw_pool w p) of
                             (calls0, r, err) \<Rightarrow>
                               (let calls = map (Pair (Some p)) calls0; s2 = sql_done w calls s1 in
                                case err of
                                  Some (GenerateErr m) \<Rightarrow> fail_run w rid sid m 13 (errJSON StatusBadRequest m) calls s2
                                | Some x \<Rightarrow> fail_run w rid sid (Error x) 3 (errJSON StatusBadRequest (Error x)) calls s2
                                | None \<Rightarrow> finish_ok w rid sid (case r of Some res \<Rightarrow> res | None \<Rightarrow> bare_result []) calls s2))))))"

definition postMessageToKnowledge ::
  "'r msg_world \<Rightarrow> llm_client \<Rightarrow> Claims \<Rightarrow> string \<Rightarrow> string \<Rightarrow> msg_body \<Rightarrow> string \<Rightarrow> 'r app_state \<Rightarrow> 'r msg_result" where
  "postMessageToKnowledge w llm c sid rid b trace s =
     (let answer0 = (case mw_rag w of
                       None \<Rightarrow> []
                     | Some rag \<Rightarrow> (case rag trace (WorkspaceID c) (mb_text b) of Inr (True, a) \<Rightarrow> a | _ \<Rightarrow> []));
          finish = (\<lambda>answer. finish_ok w rid sid ((bare_result [])\<lparr>Rows := [[(''answer'', DbText answer)]]\<rparr>) [] s)
      in if answer0 \<noteq> [] then finish answer0
         else (case fst (ChatCompletion (mw_llm_world w) llm (mw_model w) (qa_prompt_head @ mb_text b @ qa_prompt_tail)) of
                 None \<Rightarrow> (panicked, s, [])
               | Some (Inl m) \<Rightarrow> fail_run w rid sid (''knowledge query failed: '' @ m) 13 (errJSON StatusBadGateway (qa_failed @ m)) [] s
               | Some (Inr resp) \<Rightarrow> finish resp))"

text \<open>The data source of the session, or the hub's own database.\<close>

definition session_source :: "env \<Rightarrow> string \<Rightarrow> platform \<Rightarrow> string option \<times> string" where
  "session_source e sid db =
     (case query_row e 4 [(ds_id d, ds_kind d). d \<leftarrow> dsources db, x \<leftarrow> sessions db, s_ds x = Some (ds_id d) \<and> s_id x = sid] of
        Inl _ \<Rightarrow> (None, ''postgres'')
      | Inr (i, k) \<Rightarrow> (Some i, k))"

definition postMessageToSource ::
  "'r msg_world \<Rightarrow> Claims \<Rightarrow> string \<Rightarrow> string \<Rightarrow> msg_body \<Rightarrow> string \<Rightarrow> 'r app_state \<Rightarrow> 'r msg_result" where
  "postMessageToSource w c sid rid b trace s =
     (let db = hdb (as_hub s); ds = session_source (mw_env w) sid db in
      case resolveSchema w (fst ds) (WorkspaceID c) db (as_redis s) of
        (Inl m, rd) \<Rightarrow> (errJSON StatusBadGateway m, s\<lparr>as_redis := rd\<rparr>, [])
      | (Inr schemaJSON, rd) \<Rightarrow>
          (let s1 = s\<lparr>as_redis := rd\<rparr> in
           if useAgentPipeline b then enqueue_pipeline w (WorkspaceID c) sid rid b schemaJSON s1
           else (case Execute (mw_order w) (mw_exec w) (run_input c trace sid (mb_text b) schemaJSON (snd ds)) (mw_hub_pool w) of
                   (calls0, r, err) \<Rightarrow>
                     (let calls = map (Pair None) calls0; s2 = sql_done w calls s1 in
                      case err of
                        Some (StatusErr code m) \<Rightarrow> fail_run w rid sid (''nl2sql: '' @ m) code (errJSON StatusBadGateway (mapGRPCCode code)) calls s2
                      | Some (GenerateErr m) \<Rightarrow> fail_run w rid sid m 13 (errJSON StatusBadRequest m) calls s2
                      | Some (PlainErr m) \<Rightarrow> fail_run w rid sid m 3 (errJSON StatusBadRequest m) calls s2
                      | None \<Rightarrow> finish_ok w rid sid (case r of Some res \<Rightarrow> res | None \<Rightarrow> bare_result []) calls s2))))"

section \<open>PostMessage\<close>

definition start_run :: "'r msg_world \<Rightarrow> string \<Rightarrow> string \<Rightarrow> msg_body \<Rightarrow> hub \<Rightarrow> hub" where
  "start_run w sid rid b h =
     (let e = mw_env w;
          h1 = with_db (exec_log e 2 (insert_message (post_row e 2 sid ''user'' (JObj [(''text'', JStr (mb_text b))])))) h;
          h2 = with_event sid ''user_message'' (JObj [(''text'', JStr (mb_text b))]) h1;
          h3 = with_db (exec_log e 3 (insert_run \<lparr>r_id = rid, r_session = sid, r_status = ''running'', r_reason = None\<rparr>)) h2
      in with_event sid ''run_started'' (JObj [(''run_id'', JStr rid), (''started_at'', JStr (rfc3339 (mw_start w)))]) h3)"

definition session_dataset :: "env \<Rightarrow> string \<Rightarrow> platform \<Rightarrow> string option" where
  "session_dataset e sid db =
     (case query_row e 1 (map s_dataset (filter (\<lambda>x. s_id x = sid) (sessions db))) of Inl _ \<Rightarrow> None | Inr d \<Rightarrow> d)"

definition PostMessage :: "'r msg_world \<Rightarrow> Claims \<Rightarrow> string \<Rightarrow> string \<Rightarrow> msg_body option \<Rightarrow> 'r app_state \<Rightarrow> 'r msg_result" where
  "PostMessage w c trace sid bo s0 =
     (case allow_30 (mw_limiter w) (''msg:'' @ UserID c) (Some (as_redis s0)) of
        (allowed, rdb) \<Rightarrow>
          (let s = s0\<lparr>as_redis := the rdb\<rparr>; db = hdb (as_hub s); e = mw_env w in
           if \<not> allowed then (errJSON StatusTooManyRequests ''rate limit'', s, [])
           else (case bo of
                   None \<Rightarrow> (errJSON StatusBadRequest ''text required'', s, [])
                 | Some b \<Rightarrow>
                     if TrimSpace (mb_text b) = [] then (errJSON StatusBadRequest ''text required'', s, [])
                     else if \<not> sessionBelongsToWorkspace e 0 sid (WorkspaceID c) db then (errJSON StatusNotFound ''session not found'', s, [])
                     else (let datasetID = session_dataset e sid db;
                               rid = uuid e 0;
                               s1 = s\<lparr>as_hub := start_run w sid rid b (as_hub s)\<rparr>
                           in if datasetID \<noteq> None \<and> datasetID \<noteq> Some [] then postMessageToDataset w c sid rid b trace (the datasetID) s1
                              else (case mw_llm w of
                                      Some llm \<Rightarrow> if APIKey llm \<noteq> [] then postMessageToKnowledge w llm c sid rid b trace s1
                                                  else postMessageToSource w c sid rid b trace s1
                                    | None \<Rightarrow> postMessageToSource w c sid rid b trace s1)))))"

section \<open>Statements and the tables of the hub\<close>

text \<open>
  The documented behaviour of MySQL that \<open>hub_sql_frame\<close> states: one statement of a kind that
  works on rows or on one table changes no table whose name does not occur in its text. A text
  with \<open>/*!\<close>, whose comments MySQL executes, and every other kind (among them \<open>DROP\<close> and
  \<open>CREATE DATABASE\<close>) counts as one that may change the hub's tables.
\<close>

definition touches_platform :: "string \<Rightarrow> bool" where
  "touches_platform sql \<longleftrightarrow>
     ClassifySQL sql \<notin> {SQLTypeInsert, SQLTypeUpdate, SQLTypeDelete, SQLTypeCreateTable, SQLTypeAlter, SQLTypeTruncate}
     \<or> list_ex (\<lambda>t. Contains (ToUpper sql) (ToUpper t)) systemTables \<or> Contains sql ''/*!''"

definition hub_sql_frame :: "hub_sql \<Rightarrow> bool" where
  "hub_sql_frame eff \<longleftrightarrow> (\<forall>p sql args db. \<not> touches_platform sql \<longrightarrow> eff p sql args db = db)"

text \<open>The texts of the statements that write.\<close>

definition written :: "(nat option \<times> dbcall) list \<Rightarrow> string list" where
  "written calls = concat (map (\<lambda>k. case snd k of Query _ \<Rightarrow> [] | Exec sql \<Rightarrow> [sql]) calls)"

lemma call_effect_quiet: "hub_sql_frame eff \<Longrightarrow> \<not> list_ex touches_platform (written calls) \<Longrightarrow> fold (call_effect eff) calls db = db"
  by (induction calls) (auto simp: written_def call_effect_def hub_sql_frame_def split: dbcall.splits prod.splits)

lemma sql_done_quiet [simp]:
  "hub_sql_frame (mw_hub_sql w) \<Longrightarrow> \<not> list_ex touches_platform (written calls) \<Longrightarrow> sql_done w calls s = s"
  by (simp add: sql_done_def with_db_def call_effect_quiet)

lemma call_effect_no_writes: "written calls = [] \<Longrightarrow> fold (call_effect eff) calls db = db"
  by (induction calls) (auto simp: written_def call_effect_def split: dbcall.splits prod.splits)

lemma fail_run_calls [simp]: "snd (snd (fail_run w rid sid msg code r calls s)) = calls"
  by (simp add: fail_run_def)

lemma finish_ok_calls [simp]: "snd (snd (finish_ok w rid sid res calls s)) = calls"
  by (simp add: finish_ok_def split: prod.splits)

text \<open>A caller below \<open>normal_user\<close> has nothing but queries sent.\<close>

lemma Execute_low_role:
  assumes "role_level (Nl2sqlexec.Role inp) < 2" and "Execute order e inp p = (calls, r, err)"
  shows "written (map (Pair q) calls) = []"
proof -
  have "\<not> guarded_call order n role sql (Exec s)" if "role_level role < 2" for n role sql s
    using that by (cases "ClassifySQL sql") (auto simp: guarded_call_def IsAllowedForRole_def role_level_def RoleOrder_def split: if_splits)
  with Execute_calls [OF assms(2)] assms(1) show ?thesis
    by (auto simp: written_def split: dbcall.splits)
qed

lemma PostMessage_low_role:
  assumes "role_level (Claims.Role c) < 2" and "PostMessage w c trace sid bo s = (r, s', calls)"
  shows "written calls = []"
proof -
  have run: "Nl2sqlexec.Role (run_input c tr sd tx j d) = Claims.Role c" for tr sd tx j d by (simp add: run_input_def)
  have none: "written [] = []" by (simp add: written_def)
  have enq: "written (snd (snd (enqueue_pipeline w ws sid rid b j s))) = []" for ws rid b j s
    by (simp add: enqueue_pipeline_def none split: prod.split sum.split)
  have ex: "Execute order e (run_input c tr sd tx j d) p = (calls, r, err) \<Longrightarrow> written (map (Pair q) calls) = []"
    for order e tr sd tx j d p calls r err q
    using Execute_low_role assms(1) run by metis
  have "written (snd (snd (postMessageToDataset w c sid rid b trace d s))) = []" for rid b d s
    unfolding postMessageToDataset_def Let_def by (simp add: none enq ex split: sum.split prod.split option.split go_error.split)
  moreover have "written (snd (snd (postMessageToKnowledge w llm c sid rid b trace s))) = []" for llm rid b s
    unfolding postMessageToKnowledge_def Let_def by (simp add: none split: sum.split option.split)
  moreover have "written (snd (snd (postMessageToSource w c sid rid b trace s))) = []" for rid b s
    unfolding postMessageToSource_def Let_def by (simp add: none enq ex split: sum.split prod.split option.split go_error.split)
  ultimately have "written (snd (snd (PostMessage w c trace sid bo s))) = []"
    unfolding PostMessage_def Let_def by (simp add: none split: prod.split option.split)
  then show ?thesis by (simp add: assms(2))
qed

section \<open>Every run ends\<close>

definition run_states :: "string \<Rightarrow> hub \<Rightarrow> string list" where
  "run_states rid h = map r_status (filter (\<lambda>r. r_id r = rid) (runs (hdb h)))"

lemma run_states_event [simp]: "run_states rid (with_event sid typ data h) = run_states rid h"
  by (simp add: run_states_def with_event_def)

lemma runs_insert_message [simp]: "runs (exec_log e k (insert_message m) db) = runs db"
  by (auto simp: exec_log_def exec_def insert_message_def split: option.splits)

lemma run_states_message [simp]: "run_states rid (with_db (exec_log e k (insert_message m)) h) = run_states rid h"
  by (simp add: run_states_def with_db_def)

lemma run_states_update:
  assumes "db_err e k = None" and "\<And>r. r_id (f r) = r_id r" and "\<And>r. r_status (f r) = st"
  shows "run_states rid (with_db (exec_log e k (\<lambda>d. Inr (update_runs (\<lambda>r. r_id r = rid) f d))) h) = map (\<lambda>_. st) (run_states rid h)"
proof -
  have "map r_status (filter (\<lambda>r. r_id r = rid) (map (\<lambda>r. if r_id r = rid then f r else r) xs))
        = map (\<lambda>_. st) (map r_status (filter (\<lambda>r. r_id r = rid) xs))" for xs
    using assms(2,3) by (induction xs) auto
  then show ?thesis using assms(1) by (simp add: run_states_def with_db_def exec_log_def exec_def update_runs_def comp_def)
qed

lemma finishRunFailed_run:
  "db_err e 11 = None \<Longrightarrow> run_states rid (finishRunFailed e rid sid msg c h) = map (\<lambda>_. ''failed'') (run_states rid h)"
  by (simp add: finishRunFailed_def Let_def run_states_update)

lemma publishSyncResult_run:
  "db_err (mw_env w) 13 = None \<Longrightarrow> run_states rid (snd (publishSyncResult w rid sid res h)) = map (\<lambda>_. ''completed'') (run_states rid h)"
  by (simp add: publishSyncResult_def Let_def run_states_update)

lemma EnqueueTask_run:
  "EnqueueTask e ne c ws sid rid ty p h = (r, h') \<Longrightarrow> run_states x h' = run_states x h
     \<and> (\<forall>t. r = Inr t \<longrightarrow> (\<exists>k \<in> set (tasks (hdb h')). t_run k = nullif rid \<and> t_status k = ''queued''))"
  by (auto simp: EnqueueTask_def exec_Inr_iff insert_task_Inr run_states_def startTimeoutWatcher_def Let_def
      split: sum.splits option.splits if_splits)

text \<open>What a request may leave behind: a completed or failed run, or one that waits for a queued task.\<close>

definition run_settled :: "string \<Rightarrow> 'r msg_result \<Rightarrow> bool" where
  "run_settled rid res \<longleftrightarrow>
     (case res of (r, s, calls) \<Rightarrow>
        run_states rid (as_hub s) = [''completed''] \<and> status r = StatusOK
        \<or> run_states rid (as_hub s) = [''failed''] \<and> 400 \<le> status r
        \<or> run_states rid (as_hub s) = [''running''] \<and> status r = StatusAccepted
          \<and> (\<exists>k \<in> set (tasks (hdb (as_hub s))). t_run k = nullif rid \<and> t_status k = ''queued''))"

lemma fail_run_settled:
  assumes "db_err (mw_env w) 11 = None" and "run_states rid (as_hub s) = [st]" and "400 \<le> status r"
  shows "run_settled rid (fail_run w rid sid msg code r calls s)"
  using assms by (simp add: run_settled_def fail_run_def finishRunFailed_run)

lemma finish_ok_settled:
  assumes "db_err (mw_env w) 13 = None" and "run_states rid (as_hub s) = [st]"
  shows "run_settled rid (finish_ok w rid sid res calls s)"
  using assms publishSyncResult_run [of w rid sid res "as_hub s"] by (auto simp: run_settled_def finish_ok_def split: prod.splits)

lemma enqueue_settled:
  assumes "db_err (mw_env w) 11 = None" and "run_states rid (as_hub s) = [''running'']"
  shows "run_settled rid (enqueue_pipeline w ws sid rid b schemaJSON s)"
proof (cases "EnqueueTask (mw_task_env w) (mw_nats_err w) (mw_async w) ws sid rid ''agent_pipeline''
             (JObj [(''user_message'', JStr (mb_text b)), (''schema_json'', JStr schemaJSON)]) (as_hub s)")
  case (Pair r h)
  with assms EnqueueTask_run [OF Pair, of rid] show ?thesis
    by (cases r) (auto simp: enqueue_pipeline_def run_settled_def fail_run_def finishRunFailed_run)
qed

lemmas settled_rules = fail_run_settled finish_ok_settled enqueue_settled

text \<open>A result whose run is settled unless a statement of it touched the hub's tables.\<close>

definition settled_quietly :: "string \<Rightarrow> 'r msg_result \<Rightarrow> bool" where
  "settled_quietly rid res \<longleftrightarrow> \<not> list_ex touches_platform (written (snd (snd res))) \<longrightarrow> run_settled rid res"

lemma quiet_rules:
  assumes "hub_sql_frame (mw_hub_sql w)" and "db_err (mw_env w) 11 = None" and "db_err (mw_env w) 13 = None"
    and "run_states rid (as_hub s) = [''running'']"
  shows "400 \<le> status r \<Longrightarrow> settled_quietly rid (fail_run w rid sid msg code r calls (sql_done w calls s))"
    and "settled_quietly rid (finish_ok w rid sid res calls (sql_done w calls s))"
    and "400 \<le> status r \<Longrightarrow> settled_quietly rid (fail_run w rid sid msg code r [] s)"
    and "settled_quietly rid (enqueue_pipeline w ws sid rid b j s)"
  using assms by (simp_all add: settled_quietly_def settled_rules)

lemma dataset_settled:
  assumes "hub_sql_frame (mw_hub_sql w)" and "db_err (mw_env w) 11 = None" and "db_err (mw_env w) 13 = None"
    and "run_states rid (as_hub s) = [''running'']"
  shows "settled_quietly rid (postMessageToDataset w c sid rid b trace d s)"
  using assms unfolding postMessageToDataset_def Let_def
  by (simp add: quiet_rules split: sum.split prod.split option.split go_error.split)

lemma knowledge_settled:
  assumes "db_err (mw_env w) 11 = None" and "db_err (mw_env w) 13 = None" and "run_states rid (as_hub s) = [''running'']"
    and "BaseURL llm \<noteq> []"
  shows "run_settled rid (postMessageToKnowledge w llm c sid rid b trace s)"
proof -
  obtain y where "fst (ChatCompletion (mw_llm_world w) llm (mw_model w) (qa_prompt_head @ mb_text b @ qa_prompt_tail)) = Some y"
    using ChatCompletion_no_panic [OF assms(4)] by blast
  then show ?thesis
    using assms by (auto simp: postMessageToKnowledge_def Let_def settled_rules split: sum.splits option.splits)
qed

lemma source_settled:
  assumes "hub_sql_frame (mw_hub_sql w)" and "db_err (mw_env w) 11 = None" and "db_err (mw_env w) 13 = None"
    and "run_states rid (as_hub s) = [''running'']"
  shows "settled_quietly rid (postMessageToSource w c sid rid b trace s)
     \<or> (\<exists>m rd. resolveSchema w (fst (session_source (mw_env w) sid (hdb (as_hub s)))) (WorkspaceID c) (hdb (as_hub s)) (as_redis s) = (Inl m, rd)
           \<and> postMessageToSource w c sid rid b trace s = (errJSON StatusBadGateway m, s\<lparr>as_redis := rd\<rparr>, []))"
proof (cases "resolveSchema w (fst (session_source (mw_env w) sid (hdb (as_hub s)))) (WorkspaceID c) (hdb (as_hub s)) (as_redis s)")
  case (Pair r rd)
  then show ?thesis
  proof (cases r)
    case (Inr j)
    with Pair assms have "settled_quietly rid (postMessageToSource w c sid rid b trace s)"
      unfolding postMessageToSource_def Let_def by (simp add: quiet_rules split: prod.split option.split go_error.split)
    then show ?thesis ..
  qed (simp add: postMessageToSource_def Let_def)
qed

lemma start_run_running:
  assumes "db_err (mw_env w) 3 = None" and "rid \<notin> r_id ` set (runs (hdb h))" and "sid \<in> s_id ` set (sessions (hdb h))"
  shows "run_states rid (start_run w sid rid b h) = [''running'']"
proof -
  have none: "filter (\<lambda>r. r_id r = rid) (runs (hdb h)) = []" using assms(2) by (auto simp: filter_empty_conv)
  have fk: "sessions (exec_log e k (insert_message m) db) = sessions db" for e k m db
    by (auto simp: exec_log_def exec_def insert_message_def split: option.splits)
  show ?thesis
    using assms none
    by (simp add: start_run_def Let_def run_states_def with_db_def with_event_def exec_log_def [of _ 3] exec_def insert_run_def fk)
qed

text \<open>The part after the checks: the state once the run was started, and the path taken.\<close>

definition run_started :: "'r msg_world \<Rightarrow> Claims \<Rightarrow> string \<Rightarrow> msg_body \<Rightarrow> 'r app_state \<Rightarrow> 'r app_state" where
  "run_started w c sid b s0 =
     s0\<lparr>as_redis := the (snd (allow_30 (mw_limiter w) (''msg:'' @ UserID c) (Some (as_redis s0)))),
        as_hub := start_run w sid (uuid (mw_env w) 0) b (as_hub s0)\<rparr>"

definition no_dataset :: "'r msg_world \<Rightarrow> string \<Rightarrow> platform \<Rightarrow> bool" where
  "no_dataset w sid db \<longleftrightarrow> session_dataset (mw_env w) sid db = None \<or> session_dataset (mw_env w) sid db = Some []"

definition no_knowledge :: "'r msg_world \<Rightarrow> bool" where
  "no_knowledge w \<longleftrightarrow> (\<forall>llm. mw_llm w = Some llm \<longrightarrow> APIKey llm = [])"

lemma PostMessage_accepted:
  assumes "PostMessage w c trace sid (Some b) s0 = res"
    and "fst (allow_30 (mw_limiter w) (''msg:'' @ UserID c) (Some (as_redis s0)))" and "TrimSpace (mb_text b) \<noteq> []"
    and "sessionBelongsToWorkspace (mw_env w) 0 sid (WorkspaceID c) (hdb (as_hub s0))"
  shows "(\<not> no_dataset w sid (hdb (as_hub s0)) \<and> (\<exists>d. postMessageToDataset w c sid (uuid (mw_env w) 0) b trace d (run_started w c sid b s0) = res))
     \<or> (\<exists>llm. mw_llm w = Some llm \<and> postMessageToKnowledge w llm c sid (uuid (mw_env w) 0) b trace (run_started w c sid b s0) = res)
     \<or> (no_dataset w sid (hdb (as_hub s0)) \<and> no_knowledge w
        \<and> postMessageToSource w c sid (uuid (mw_env w) 0) b trace (run_started w c sid b s0) = res)"
proof -
  obtain rdb where a: "allow_30 (mw_limiter w) (''msg:'' @ UserID c) (Some (as_redis s0)) = (True, rdb)"
    using assms(2) by (cases "allow_30 (mw_limiter w) (''msg:'' @ UserID c) (Some (as_redis s0))") auto
  show ?thesis
    using assms(1,3,4)
    by (auto simp: PostMessage_def run_started_def no_dataset_def no_knowledge_def a [simplified] Let_def split: if_splits option.splits)
qed

text \<open>
  C9. Every run ends. While the database calls of the handler work (those of the task queue may fail), posting a message to a session of
  the caller's workspace (the limiter agreeing, the text not blank, the language model having an
  address) creates exactly one run, and when the request is answered that run is completed and the
  answer is 200, or failed and the answer is an error, or it waits for a task that was queued for it
  and the answer is 202, unless a statement the message sent touches the hub's own tables. The one
  exception is a session without a dataset, on a hub without a knowledge model, whose schema cannot
  be resolved: the answer is 502 with the error of \<open>resolveSchema\<close>, nothing else happens, and the
  run stays running.
\<close>

theorem PostMessage_run_settled:
  assumes "PostMessage w c trace sid (Some b) s0 = (r, s', calls)"
    and "fst (allow_30 (mw_limiter w) (''msg:'' @ UserID c) (Some (as_redis s0)))" and "TrimSpace (mb_text b) \<noteq> []"
    and "sessionBelongsToWorkspace (mw_env w) 0 sid (WorkspaceID c) (hdb (as_hub s0))"
    and "\<forall>k. db_err (mw_env w) k = None" and "uuid (mw_env w) 0 \<notin> r_id ` set (runs (hdb (as_hub s0)))"
    and "\<forall>llm. mw_llm w = Some llm \<longrightarrow> BaseURL llm \<noteq> []"
    and "hub_sql_frame (mw_hub_sql w)" and "\<not> list_ex touches_platform (written calls)"
  shows "run_settled (uuid (mw_env w) 0) (r, s', calls)
         \<or> no_dataset w sid (hdb (as_hub s0)) \<and> no_knowledge w
           \<and> (\<exists>m rd. let s1 = run_started w c sid b s0; db1 = hdb (as_hub s1) in
                resolveSchema w (fst (session_source (mw_env w) sid db1)) (WorkspaceID c) db1 (as_redis s1) = (Inl m, rd)
                \<and> r = errJSON StatusBadGateway m \<and> s' = s1\<lparr>as_redis := rd\<rparr> \<and> calls = []
                \<and> run_states (uuid (mw_env w) 0) (as_hub s') = [''running''])"
proof -
  let ?rid = "uuid (mw_env w) 0" and ?s1 = "run_started w c sid b s0"
  have sess: "sid \<in> s_id ` set (sessions (hdb (as_hub s0)))"
    using assms(4) by (auto simp: belongs_iff dest: filter_eq_ConsD)
  have run: "run_states ?rid (as_hub ?s1) = [''running'']"
    using assms(5,6) sess by (simp add: start_run_running run_started_def)
  have quiet: "settled_quietly ?rid (r, s', calls) \<Longrightarrow> run_settled ?rid (r, s', calls)" using assms(9) by (simp add: settled_quietly_def)
  have ok: "db_err (mw_env w) 11 = None" "db_err (mw_env w) 13 = None" using assms(5) by simp_all
  from PostMessage_accepted [OF assms(1-4)] consider
      d where "postMessageToDataset w c sid ?rid b trace d ?s1 = (r, s', calls)"
    | llm where "mw_llm w = Some llm" "postMessageToKnowledge w llm c sid ?rid b trace ?s1 = (r, s', calls)"
    | (source) "no_dataset w sid (hdb (as_hub s0))" "no_knowledge w" "postMessageToSource w c sid ?rid b trace ?s1 = (r, s', calls)" by blast
  then show ?thesis
  proof cases
    case 1
    with dataset_settled [OF assms(8) ok run, of c sid b trace d] quiet show ?thesis by simp
  next
    case 2
    with knowledge_settled [OF ok run, of llm c sid b trace] assms(7) show ?thesis by simp
  next
    case source
    with source_settled [OF assms(8) ok run, of c sid b trace] quiet run show ?thesis by (auto simp: Let_def)
  qed
qed

text \<open>
  Messages stay in their workspace. To a session outside the caller's workspace nothing is
  posted: the answer is 400, 404 or 429, the database, the bus, the task queue and the pools are
  untouched and no statement is sent anywhere.
\<close>

theorem PostMessage_isolated:
  assumes "\<not> sessionBelongsToWorkspace (mw_env w) 0 sid (WorkspaceID c) (hdb (as_hub s0))"
  shows "\<exists>r rd. PostMessage w c trace sid bo s0 = (r, s0\<lparr>as_redis := rd\<rparr>, []) \<and> status r \<in> {400, 404, 429}"
  using assms by (auto simp: PostMessage_def Let_def split: prod.splits option.splits)

section \<open>Examples\<close>

definition demo_world :: "unit msg_world" where
  "demo_world =
     \<lparr>mw_env = calm_env, mw_task_env = calm_env, mw_nats_err = None, mw_async = NewClient True, mw_limiter = demo_limiter,
      mw_llm = None, mw_llm_world = demo_llm_world, mw_model = ''m'', mw_rag = None,
      mw_exec = NewExecutor (demo_gen demo_query) 500, mw_order = systemTables, mw_hub_pool = demo_pool, mw_pool = (\<lambda>_. demo_pool), mw_hub_sql = (\<lambda>_ _ _ db. db),
      mw_my = calm_server, mw_secrets = demo_secrets, mw_discover = (\<lambda>_. \<lparr>sq_err = Some ''down'', sq_rows = [], sq_iter_err = None\<rparr>),
      mw_rget = (\<lambda>_ _. Inl ''nil''), mw_rset = (\<lambda>_ _ _ r. (None, r)), mw_unmarshal = (\<lambda>_. Inl ''bad''),
      mw_maxTables = 50, mw_maxCols = 100, mw_ttl = 0, mw_collate = (\<lambda>_. 0), mw_start = 0, mw_elapsed = (\<lambda>_. 0)\<rparr>"

definition demo_app :: "platform \<Rightarrow> unit app_state" where
  "demo_app db = \<lparr>as_hub = \<lparr>hdb = db, hbus = NewMemoryBus, hnats = [], htimers = [], harmed = [], htimeouts = 0\<rparr>, as_mgr = demo_mgr, as_redis = ()\<rparr>"

definition demo_msg :: msg_body where
  "demo_msg = \<lparr>mb_text = ''total?'', mb_workflow = ''sql''\<rparr>"

lemma demo_world_simps [simp]:
  "mw_env demo_world = calm_env" "mw_llm demo_world = None" "mw_limiter demo_world = demo_limiter" "mw_my demo_world = calm_server"
  "mw_pool demo_world p = demo_pool" "mw_exec demo_world = NewExecutor (demo_gen demo_query) 500" "mw_order demo_world = systemTables"
  "mw_discover demo_world x = \<lparr>sq_err = Some ''down'', sq_rows = [], sq_iter_err = None\<rparr>"
  "mw_rget demo_world k r = Inl ''nil''" "mw_hub_sql demo_world = (\<lambda>_ _ _ db. db)"
  by (simp_all add: demo_world_def)

lemma demo_allowed: "allow_30 demo_limiter k (Some ()) = (True, Some ())"
  by (simp add: allow_30_def Allow_def demo_limiter_def)

lemma demo_msg_simps [simp]: "mb_text demo_msg = ''total?''" "TrimSpace ''total?'' = ''total?''" "\<not> useAgentPipeline demo_msg"
proof -
  show "mb_text demo_msg = ''total?''" by (simp add: demo_msg_def)
  show "TrimSpace ''total?'' = ''total?''" by (simp add: trim_eval)
  have "TrimSpace ''sql'' = ''sql''" "ToLower ''sql'' = ''sql''" by (simp_all add: trim_eval go_str)
  then show "\<not> useAgentPipeline demo_msg" by (simp add: useAgentPipeline_def demo_msg_def Let_def)
qed

definition demo_chat_db :: platform where
  "demo_chat_db = (demo_ds_db [])\<lparr>workspaces := [''w''], users := [demo_user_row ''u1'' ''read_only_visitor'']\<rparr>"

text \<open>A viewer without any permission, and a database with the dataset \<open>d1\<close>.\<close>

definition demo_viewer :: Claims where
  "demo_viewer = (demo_ws ''w'')\<lparr>Claims.Role := ''read_only_visitor''\<rparr>"

definition demo_chat_session :: session where
  "demo_chat_session = \<lparr>s_id = ''uuid-'' @ nat_dec 0, s_ws = ''w'', s_user = ''u1'', s_ds = None, s_dataset = Some ''d1'', s_title = ''q1'', s_created = 0\<rparr>"

definition demo_cs_body :: create_session_body where
  "demo_cs_body = \<lparr>cs_title = ''q1'', cs_data_source = [], cs_dataset = ''d1'', cs_query_source = []\<rparr>"

lemma demo_dataset_session:
  "CreateSession calm_env demo_viewer demo_cs_body demo_chat_db
   = (JSON StatusCreated (JObj [(''id'', JStr (''uuid-'' @ nat_dec 0)), (''title'', JStr ''q1'')]), demo_chat_db\<lparr>sessions := [demo_chat_session]\<rparr>)"
proof -
  have t: "TrimSpace ''q1'' = ''q1''" "TrimSpace [] = []" "TrimSpace ''d1'' = ''d1''" by (simp_all add: trim_eval)
  show ?thesis
    by (simp add: CreateSession_def create_session_check_def cs_source_of_def cs_title_of_def demo_cs_body_def t exec_def count_or_zero_def
        query_row_def insert_session_def session_row_def demo_chat_session_def demo_viewer_def demo_ws_def demo_chat_db_def demo_ds_db_def demo_dataset_def empty_platform_def Let_def)
qed

lemma demo_dataset_path:
  assumes "as_mgr s = demo_mgr" and "datasets (hdb (as_hub s)) = [demo_dataset]"
  shows "\<exists>r s'. postMessageToDataset demo_world c sid rid demo_msg trace ''d1'' s = (r, s', [(Some 0, Query (wrap_limit demo_query 500))])
      \<and> pools (as_mgr s') ''d1'' = Some 0 \<and> status r = StatusBadRequest"
proof -
  obtain j where schema: "resolveDatasetSchema demo_world ''d1'' (hdb (as_hub s)) = Inr j"
    by (simp add: resolveDatasetSchema_def query_def rows_next_def scan_fails_def rows_Err_def list_ex_iff ToJSON_def Let_def)
  obtain m where pool: "pool_for calm_server ''d1'' ''ds_1'' demo_mgr = (Inr 0, m)" "pools m ''d1'' = Some 0"
    by (simp add: pool_for_def GetPool_def demo_mgr_def NewManager_def Connect_def calm_server_def Let_def)
  have "\<exists>r. Execute systemTables (NewExecutor (demo_gen demo_query) 500) (run_input c trace sid ''total?'' j ''mysql'') demo_pool
      = ([Query (wrap_limit demo_query 500)], r, Some (PlainErr ''no server''))"
    using demo_query_checked
    by (simp add: Execute_def NewExecutor_def demo_gen_def QueryRows_def demo_pool_def Let_def)
  moreover have "d_id demo_dataset = ''d1''" "d_mysql demo_dataset = ''ds_1''" by (simp_all add: demo_dataset_def)
  ultimately show ?thesis
    using pool assms by (auto simp: postMessageToDataset_def schema query_row_def fail_run_def sql_done_def Let_def)
qed

lemma demo_dataset_message:
  "\<exists>r s'. PostMessage demo_world demo_viewer [] (''uuid-'' @ nat_dec 0) (Some demo_msg) (demo_app (demo_chat_db\<lparr>sessions := [demo_chat_session]\<rparr>))
     = (r, s', [(Some 0, Query (wrap_limit demo_query 500))]) \<and> pools (as_mgr s') ''d1'' = Some 0 \<and> status r = StatusBadRequest"
proof -
  let ?s = "demo_app (demo_chat_db\<lparr>sessions := [demo_chat_session]\<rparr>)" and ?sid = "''uuid-'' @ nat_dec 0"
  let ?s1 = "?s\<lparr>as_redis := (), as_hub := start_run demo_world ?sid ?sid demo_msg (as_hub ?s)\<rparr>"
  have bel: "sessionBelongsToWorkspace calm_env 0 ?sid ''w'' (demo_chat_db\<lparr>sessions := [demo_chat_session]\<rparr>)"
    by (simp add: sessionBelongsToWorkspace_def query_row_def demo_chat_session_def)
  have ds: "datasets (hdb (start_run demo_world sid rid b h)) = datasets (hdb h)" for sid rid b h
    by (simp add: start_run_def with_db_def with_event_def exec_log_def exec_def insert_message_def insert_run_def Let_def)
  have "as_mgr ?s1 = demo_mgr" "datasets (hdb (as_hub ?s1)) = [demo_dataset]"
    by (simp_all add: ds demo_app_def demo_chat_db_def demo_ds_db_def)
  note path = demo_dataset_path [OF this, of demo_viewer ?sid ?sid "[]"]
  have "PostMessage demo_world demo_viewer [] ?sid (Some demo_msg) ?s = postMessageToDataset demo_world demo_viewer ?sid ?sid demo_msg [] ''d1'' ?s1"
    using bel
    by (simp add: PostMessage_def demo_app_def demo_allowed demo_viewer_def demo_ws_def demo_chat_session_def session_dataset_def query_row_def Let_def)
  with path show ?thesis by simp
qed

text \<open>
  C39. Chat sessions go around the dataset permissions. \<open>CreateSession\<close> only asks whether the
  dataset exists and \<open>PostMessage\<close> only whether the session is in the workspace: a viewer who has
  no access to dataset \<open>d1\<close>, and is refused by every dataset endpoint, opens a session on it and
  has the query of the worker sent to its database.
\<close>

theorem sessions_bypass_dataset_access:
  "\<exists>r1 db1 r2 s' p. \<not> hasDatasetAccess calm_env 0 (UserID demo_viewer) ''d1'' (Claims.Role demo_viewer) demo_chat_db
     \<and> status (GetDataset calm_env (Some demo_viewer) ''d1'' demo_chat_db) = StatusForbidden
     \<and> CreateSession calm_env demo_viewer demo_cs_body demo_chat_db = (r1, db1) \<and> status r1 = StatusCreated
     \<and> PostMessage demo_world demo_viewer [] (uuid calm_env 0) (Some demo_msg) (demo_app db1) = (r2, s', [(Some p, Query (wrap_limit demo_query 500))])
     \<and> pools (as_mgr s') ''d1'' = Some p"
proof -
  have acc: "\<not> hasDatasetAccess calm_env 0 (UserID demo_viewer) ''d1'' (Claims.Role demo_viewer) demo_chat_db"
    by (simp add: hasDatasetAccess_iff demo_viewer_def demo_ws_def demo_chat_db_def demo_ds_db_def empty_platform_def)
  then have "status (GetDataset calm_env (Some demo_viewer) ''d1'' demo_chat_db) = StatusForbidden" by (simp add: GetDataset_def)
  with acc demo_dataset_session demo_dataset_message show ?thesis by fastforce
qed

theorem PostMessage_run_settled_witness:
  "\<exists>r s' calls. PostMessage demo_world demo_viewer [] (''uuid-'' @ nat_dec 0) (Some demo_msg) (demo_app (demo_chat_db\<lparr>sessions := [demo_chat_session]\<rparr>)) = (r, s', calls)
     \<and> run_settled (''uuid-'' @ nat_dec 0) (r, s', calls)"
proof -
  let ?s = "demo_app (demo_chat_db\<lparr>sessions := [demo_chat_session]\<rparr>)"
  obtain r s' where run: "PostMessage demo_world demo_viewer [] (''uuid-'' @ nat_dec 0) (Some demo_msg) ?s
      = (r, s', [(Some 0, Query (wrap_limit demo_query 500))])" using demo_dataset_message by blast
  have "sessionBelongsToWorkspace calm_env 0 (''uuid-'' @ nat_dec 0) (WorkspaceID demo_viewer) (hdb (as_hub ?s))"
    by (simp add: sessionBelongsToWorkspace_def query_row_def demo_chat_session_def demo_app_def demo_viewer_def demo_ws_def)
  with PostMessage_run_settled [OF run] have "run_settled (uuid calm_env 0) (r, s', [(Some 0, Query (wrap_limit demo_query 500))])"
    by (simp add: demo_allowed demo_app_def demo_chat_db_def demo_ds_db_def empty_platform_def demo_chat_session_def no_dataset_def
        session_dataset_def query_row_def hub_sql_frame_def written_def)
  with run show ?thesis by simp
qed

theorem PostMessage_isolated_witness:
  "\<exists>r rd. PostMessage demo_world (demo_ws ''other'') [] (''uuid-'' @ nat_dec 0) (Some demo_msg) (demo_app (demo_chat_db\<lparr>sessions := [demo_chat_session]\<rparr>))
     = (r, (demo_app (demo_chat_db\<lparr>sessions := [demo_chat_session]\<rparr>))\<lparr>as_redis := rd\<rparr>, []) \<and> status r \<in> {400, 404, 429}"
  by (rule PostMessage_isolated) (simp add: sessionBelongsToWorkspace_def query_row_def demo_chat_session_def demo_app_def demo_ws_def)

end
