(* ===== verification/Go_Files.thy ===== *)
theory Go_Files
  imports Http Go_Path
begin

text \<open>
  Files: \<open>os.MkdirAll\<close>, \<open>os.WriteFile\<close>, \<open>os.Stat\<close> and \<open>http.ServeFile\<close>. A
  disk maps cleaned paths to the bytes of regular files; what the operating system decides is in
  \<open>disk_env\<close>: the error of creating a directory; the error of writing a file with the bytes the
  failed call leaves in it, if it touched it; and the HTTP status for a file that exists and
  cannot be opened. Requests carry no \<open>Range\<close> and no conditional header.
\<close>

type_synonym disk = "string \<Rightarrow> string option"

record disk_env =
  mkdir_err :: "string \<Rightarrow> err"
  write_err :: "string \<Rightarrow> (string \<times> string option) option"
  open_fail :: "string \<Rightarrow> nat option"

definition WriteFile :: "disk_env \<Rightarrow> string \<Rightarrow> string \<Rightarrow> disk \<Rightarrow> err \<times> disk" where
  "WriteFile de path data d =
     (case write_err de path of
        None \<Rightarrow> (None, d(path \<mapsto> data))
      | Some (m, None) \<Rightarrow> (Some m, d)
      | Some (m, Some left) \<Rightarrow> (Some m, d(path \<mapsto> left)))"

text \<open>An answer is a response, or the headers a handler set and the bytes of a file with status 200.\<close>

datatype answer = Answer response | SendFile "(string \<times> string) list" string

definition text_error :: "nat \<Rightarrow> string \<Rightarrow> answer" where
  "text_error st m = Answer (JSON st (JRaw (m @ [CHR 0x0A])))"

definition containsDotDot :: "string \<Rightarrow> bool" where
  "containsDotDot v \<longleftrightarrow> dotdot \<in> set (concat (map (\<lambda>s. Split s (CHR 0x5C)) (Split v CHR ''/'')))"

definition ServeFile :: "disk_env \<Rightarrow> string \<Rightarrow> (string \<times> string) list \<Rightarrow> string \<Rightarrow> disk \<Rightarrow> answer" where
  "ServeFile de urlPath headers path d =
     (if containsDotDot urlPath then text_error StatusBadRequest ''invalid URL path''
      else if HasSuffix urlPath ''/index.html'' then Answer (JSON 301 JNull)
      else (case d path of
              None \<Rightarrow> text_error StatusNotFound ''404 page not found''
            | Some data \<Rightarrow>
                (case open_fail de path of
                   Some st \<Rightarrow> text_error st (if st = StatusForbidden then ''403 Forbidden'' else ''500 Internal Server Error'')
                 | None \<Rightarrow> SendFile headers data)))"

lemma WriteFile_other: "WriteFile de path data d = (m, d') \<Longrightarrow> q \<noteq> path \<Longrightarrow> d' q = d q"
  by (auto simp: WriteFile_def split: option.splits)

lemma WriteFile_ok: "WriteFile de path data d = (None, d') \<Longrightarrow> d' = d(path \<mapsto> data)"
  by (auto simp: WriteFile_def split: option.splits)

lemma ServeFile_ok:
  "\<not> containsDotDot u \<Longrightarrow> \<not> HasSuffix u ''/index.html'' \<Longrightarrow> d path = Some data \<Longrightarrow> open_fail de path = None
   \<Longrightarrow> ServeFile de u hs path d = SendFile hs data"
  by (simp add: ServeFile_def)

lemma ServeFile_SendFile: "ServeFile de u hs path d = SendFile hs' data \<Longrightarrow> hs' = hs \<and> d path = Some data"
  by (auto simp: ServeFile_def text_error_def split: if_splits option.splits)

definition calm_disk :: disk_env where
  "calm_disk = \<lparr>mkdir_err = (\<lambda>_. None), write_err = (\<lambda>_. None), open_fail = (\<lambda>_. None)\<rparr>"

end
