(* ===== verification/Sha256.thy ===== *)
theory Sha256
  imports Hub_Crypto
begin

text \<open>
  \<open>sha256.Sum256\<close> of \<open>crypto/sha256\<close> (FIPS 180-4), which gives the content hash of a
  knowledge document: padding to blocks of 64 bytes, the message schedule, 64 rounds per block on
  eight 32-bit words, additions modulo \<open>2^32\<close>.
\<close>

definition sha_K :: "32 word list" where
  "sha_K =
    [0x428a2f98, 0x71374491, 0xb5c0fbcf, 0xe9b5dba5, 0x3956c25b, 0x59f111f1, 0x923f82a4, 0xab1c5ed5,
     0xd807aa98, 0x12835b01, 0x243185be, 0x550c7dc3, 0x72be5d74, 0x80deb1fe, 0x9bdc06a7, 0xc19bf174,
     0xe49b69c1, 0xefbe4786, 0x0fc19dc6, 0x240ca1cc, 0x2de92c6f, 0x4a7484aa, 0x5cb0a9dc, 0x76f988da,
     0x983e5152, 0xa831c66d, 0xb00327c8, 0xbf597fc7, 0xc6e00bf3, 0xd5a79147, 0x06ca6351, 0x14292967,
     0x27b70a85, 0x2e1b2138, 0x4d2c6dfc, 0x53380d13, 0x650a7354, 0x766a0abb, 0x81c2c92e, 0x92722c85,
     0xa2bfe8a1, 0xa81a664b, 0xc24b8b70, 0xc76c51a3, 0xd192e819, 0xd6990624, 0xf40e3585, 0x106aa070,
     0x19a4c116, 0x1e376c08, 0x2748774c, 0x34b0bcb5, 0x391c0cb3, 0x4ed8aa4a, 0x5b9cca4f, 0x682e6ff3,
     0x748f82ee, 0x78a5636f, 0x84c87814, 0x8cc70208, 0x90befffa, 0xa4506ceb, 0xbef9a3f7, 0xc67178f2]"

type_synonym sha_state = "32 word \<times> 32 word \<times> 32 word \<times> 32 word \<times> 32 word \<times> 32 word \<times> 32 word \<times> 32 word"

definition sha_init :: sha_state where
  "sha_init = (0x6a09e667, 0xbb67ae85, 0x3c6ef372, 0xa54ff53a, 0x510e527f, 0x9b05688c, 0x1f83d9ab, 0x5be0cd19)"

text \<open>Big-endian bytes of a number and the words of a block.\<close>

definition be_bytes :: "nat \<Rightarrow> nat \<Rightarrow> string" where
  "be_bytes w n = map (\<lambda>i. char_of (n div 256 ^ i)) (rev [0..<w])"

fun be_words :: "string \<Rightarrow> 32 word list" where
  "be_words (a # b # c # d # s) = of_nat (((byte a * 256 + byte b) * 256 + byte c) * 256 + byte d) # be_words s"
| "be_words _ = []"

definition sha_pad :: "string \<Rightarrow> string" where
  "sha_pad m = m @ char_of (128 :: nat) # replicate (nat ((55 - int (length m)) mod 64)) (char_of (0 :: nat))
                 @ be_bytes 8 (8 * length m)"

text \<open>The schedule, latest word first.\<close>

primrec sha_extend :: "nat \<Rightarrow> 32 word list \<Rightarrow> 32 word list" where
  "sha_extend 0 ws = ws"
| "sha_extend (Suc n) ws =
     (let w15 = ws ! 14; w2 = ws ! 1;
          s0 = word_rotr 7 w15 XOR word_rotr 18 w15 XOR drop_bit 3 w15;
          s1 = word_rotr 17 w2 XOR word_rotr 19 w2 XOR drop_bit 10 w2
      in sha_extend n ((ws ! 15 + s0 + ws ! 6 + s1) # ws))"

definition sha_round :: "sha_state \<Rightarrow> 32 word \<times> 32 word \<Rightarrow> sha_state" where
  "sha_round = (\<lambda>(a, b, c, d, e, f, g, h) (k, w).
     (let s1 = word_rotr 6 e XOR word_rotr 11 e XOR word_rotr 25 e;
          ch = (e AND f) XOR (NOT e AND g);
          t1 = h + s1 + ch + k + w;
          s0 = word_rotr 2 a XOR word_rotr 13 a XOR word_rotr 22 a;
          maj = (a AND b) XOR (a AND c) XOR (b AND c)
      in (t1 + s0 + maj, a, b, c, d + t1, e, f, g)))"

definition sha_add :: "sha_state \<Rightarrow> sha_state \<Rightarrow> sha_state" where
  "sha_add = (\<lambda>(a, b, c, d, e, f, g, h) (a', b', c', d', e', f', g', h').
     (a + a', b + b', c + c', d + d', e + e', f + f', g + g', h + h'))"

definition sha_block :: "sha_state \<Rightarrow> string \<Rightarrow> sha_state" where
  "sha_block st blk = sha_add st (foldl sha_round st (zip sha_K (rev (sha_extend 48 (rev (be_words blk))))))"

primrec sha_blocks :: "nat \<Rightarrow> sha_state \<Rightarrow> string \<Rightarrow> sha_state" where
  "sha_blocks 0 st m = st"
| "sha_blocks (Suc n) st m = sha_blocks n (sha_block st (take 64 m)) (drop 64 m)"

definition Sum256 :: "string \<Rightarrow> string" where
  "Sum256 m =
     (let p = sha_pad m in
      case sha_blocks (length p div 64) sha_init p of
        (a, b, c, d, e, f, g, h) \<Rightarrow> concat (map (\<lambda>w. be_bytes 4 (unat w)) [a, b, c, d, e, f, g, h]))"

section \<open>Shape of the digest\<close>

text \<open>The padded text is cut into whole blocks, and the digest has 32 bytes.\<close>

lemma be_bytes_length [simp]: "length (be_bytes w n) = w"
  by (simp add: be_bytes_def)

lemma sha_pad_blocks: "length (sha_pad m) mod 64 = 0"
proof -
  have "int (length (sha_pad m)) = int (length m) + 1 + (55 - int (length m)) mod 64 + 8"
    by (simp add: sha_pad_def)
  also have "\<dots> = 64 * (1 - (55 - int (length m)) div 64)"
    using minus_mult_div_eq_mod [of "55 - int (length m)" 64] by (simp add: algebra_simps)
  finally have "int (length (sha_pad m)) mod 64 = 0" by simp
  then show ?thesis by (metis of_nat_0_eq_iff of_nat_mod of_nat_numeral)
qed

lemma Sum256_length: "length (Sum256 m) = 32"
  by (simp add: Sum256_def Let_def split: prod.splits)

lemma EncodeToString_length: "length (EncodeToString s) = 2 * length s"
  by (induction s) auto

end
