(* ===== verification/Knowledge.thy ===== *)
theory Knowledge
  imports Data Grpcserver Go_Files Sha256
begin

text \<open>
  The knowledge base: \<open>internal/handlers/knowledge.go\<close>. A document has a row in the platform
  database and, when it was uploaded as a file, its bytes on disk under
  \<open>KnowledgeFilesDir/workspace/id.ext\<close>. The worker indexes it in a gRPC call (\<open>kw_index\<close>:
  workspace, document, title, text; the flag and the number of chunks it answers, or an error) or,
  when that fails, later through the task queue. Database calls are numbered 0 for the row and 1
  for its status; \<open>EnqueueTask\<close> has an \<open>env\<close> of its own.
\<close>

record kn_world =
  kw_env :: env
  kw_task_env :: env
  kw_nats_err :: err
  kw_async :: async_client
  kw_index :: "(string \<Rightarrow> string \<Rightarrow> string \<Rightarrow> string \<Rightarrow> (bool \<times> int) res) option"
  kw_disk :: disk_env
  kw_dir :: string

record kn_state =
  ks_hub :: hub
  ks_disk :: disk

section \<open>Operations\<close>

definition docTypeFromExt :: "string \<Rightarrow> string res" where
  "docTypeFromExt filename =
     (let ext = ToLower (filepath_Ext filename) in
      if ext = ''.txt'' then Inr ''text''
      else if ext = ''.md'' then Inr ''markdown''
      else if ext = ''.pdf'' then Inr ''pdf''
      else if ext = ''.doc'' \<or> ext = ''.docx'' then Inr ''doc''
      else Inl (''unsupported file type: '' @ ext @ '', only .txt/.md/.pdf/.doc/.docx are supported''))"

definition extFromDocType :: "string \<Rightarrow> string" where
  "extFromDocType docType =
     (if docType = ''text'' then ''.txt'' else if docType = ''markdown'' then ''.md''
      else if docType = ''pdf'' then ''.pdf'' else if docType = ''doc'' then ''.docx'' else [])"

definition saveKnowledgeFile :: "disk_env \<Rightarrow> string \<Rightarrow> string \<Rightarrow> string \<Rightarrow> string \<Rightarrow> string \<Rightarrow> disk \<Rightarrow> err \<times> disk" where
  "saveKnowledgeFile de baseDir workspaceID docID docType data d =
     (let ext = extFromDocType docType;
          dir = filepath_Join [baseDir, workspaceID]
      in case mkdir_err de dir of
           Some m \<Rightarrow> (Some (''create knowledge dir: '' @ m), d)
         | None \<Rightarrow>
             (case WriteFile de (filepath_Join [dir, docID @ ext]) data d of
                (Some m, d') \<Rightarrow> (Some (''write knowledge file: '' @ m), d')
              | (None, d') \<Rightarrow> (None, d')))"

definition kdoc_json :: "kdoc \<Rightarrow> json" where
  "kdoc_json k = JObj [(''id'', JStr (k_id k)), (''title'', JStr (k_title k)), (''doc_type'', JStr (k_type k)),
     (''status'', JStr (k_status k)), (''created_at'', JStr (rfc3339 (k_created k)))]"

definition ListKnowledgeDocs :: "env \<Rightarrow> Claims \<Rightarrow> string \<Rightarrow> platform \<Rightarrow> response" where
  "ListKnowledgeDocs e c wsID db =
     (if wsID \<noteq> WorkspaceID c then errJSON StatusForbidden ''workspace mismatch''
      else (case query e 0 (sort_key (\<lambda>k. - k_created k) (filter (\<lambda>k. k_ws k = wsID) (kdocs db))) of
              Inl _ \<Rightarrow> errJSON StatusInternalServerError ''db error''
            | Inr rows0 \<Rightarrow>
                (let rows = rows_next e 0 rows0 in
                 if scan_fails e 0 rows then errJSON StatusInternalServerError ''db err''
                 else JSON StatusOK (JObj [(''docs'', json_slice (map kdoc_json rows))]))))"

text \<open>The row; columns the statement leaves out get their defaults.\<close>

definition insert_kdoc :: "kdoc \<Rightarrow> platform \<Rightarrow> platform res" where
  "insert_kdoc k db = (if k_id k \<in> k_id ` set (kdocs db) then Inl dup_entry else Inr (db\<lparr>kdocs := kdocs db @ [k]\<rparr>))"

definition kdoc_row :: "env \<Rightarrow> Claims \<Rightarrow> string \<Rightarrow> string \<Rightarrow> string option \<Rightarrow> string \<Rightarrow> kdoc" where
  "kdoc_row e c docID title docType hashStr =
     \<lparr>k_id = docID, k_ws = WorkspaceID c, k_title = title,
      k_type = (case docType of Some t \<Rightarrow> t | None \<Rightarrow> col_default e ''knowledge_docs.doc_type''), k_hash = hashStr,
      k_chroma = None, k_chunks = 0, k_status = ''pending'', k_by = UserID c, k_created = now e\<rparr>"

definition updateDocStatus :: "env \<Rightarrow> nat \<Rightarrow> string \<Rightarrow> string \<Rightarrow> platform \<Rightarrow> platform res" where
  "updateDocStatus e k docID st db =
     exec e k (\<lambda>d. Inr (d\<lparr>kdocs := map (\<lambda>x. if k_id x = docID then x\<lparr>k_status := st\<rparr> else x) (kdocs d)\<rparr>)) db"

text \<open>The call of the worker and, when it does not index the document, the task.\<close>

definition index_doc ::
  "kn_world \<Rightarrow> string \<Rightarrow> string \<Rightarrow> string \<Rightarrow> string \<Rightarrow> (string \<times> json) list \<Rightarrow> (string \<times> json) list \<Rightarrow> kn_state \<Rightarrow> response \<times> kn_state" where
  "index_doc w wsID docID title content extra payload s =
     (let h = ks_hub s;
          indexed = (case kw_index w of
                       None \<Rightarrow> None
                     | Some f \<Rightarrow> (case f wsID docID title content of Inr (True, n) \<Rightarrow> Some n | _ \<Rightarrow> None))
      in case indexed of
           Some chunks \<Rightarrow>
             (JSON StatusAccepted (JObj ([(''id'', JStr docID), (''status'', JStr ''completed''), (''chunk_count'', JInt chunks)] @ extra)),
              s\<lparr>ks_hub := h\<lparr>hdb := (case updateDocStatus (kw_env w) 1 docID ''completed'' (hdb h) of Inl _ \<Rightarrow> hdb h | Inr db' \<Rightarrow> db')\<rparr>\<rparr>)
         | None \<Rightarrow>
             (case EnqueueTask (kw_task_env w) (kw_nats_err w) (kw_async w) wsID [] [] ''knowledge_index'' (JObj payload) h of
                (Inl _, h') \<Rightarrow> (errJSON StatusInternalServerError ''failed to enqueue indexing task'', s\<lparr>ks_hub := h'\<rparr>)
              | (Inr taskID, h') \<Rightarrow>
                  (JSON StatusAccepted (JObj ([(''id'', JStr docID), (''task_id'', JStr taskID), (''status'', JStr ''pending'')] @ extra)),
                   s\<lparr>ks_hub := h'\<rparr>)))"

text \<open>The body is \<open>None\<close> when it is not the expected JSON, otherwise title and content.\<close>

definition UploadKnowledgeDoc :: "kn_world \<Rightarrow> Claims \<Rightarrow> string \<Rightarrow> (string \<times> string) option \<Rightarrow> kn_state \<Rightarrow> response \<times> kn_state" where
  "UploadKnowledgeDoc w c wsID bd s =
     (if wsID \<noteq> WorkspaceID c then (errJSON StatusForbidden ''workspace mismatch'', s)
      else (case bd of
              None \<Rightarrow> (errJSON StatusBadRequest ''invalid payload'', s)
            | Some (title, content) \<Rightarrow>
                if title = [] \<or> content = [] then (errJSON StatusBadRequest ''invalid payload'', s)
                else (let e = kw_env w; docID = uuid e 0; hashStr = EncodeToString (Sum256 content) in
                      case exec e 0 (insert_kdoc (kdoc_row e c docID title None hashStr)) (hdb (ks_hub s)) of
                        Inl _ \<Rightarrow> (errJSON StatusInternalServerError ''db insert'', s)
                      | Inr db' \<Rightarrow>
                          index_doc w wsID docID title content []
                            [(''action'', JStr ''index_document''), (''doc_id'', JStr docID), (''title'', JStr title),
                             (''content'', JStr content), (''doc_type'', JStr ''markdown'')]
                            (s\<lparr>ks_hub := (ks_hub s)\<lparr>hdb := db'\<rparr>\<rparr>))))"

definition form_title :: "multipart \<Rightarrow> string \<Rightarrow> string" where
  "form_title form filename =
     (let title = TrimSpace (mp_value form ''title'') in
      if title = [] then TrimSuffix filename (filepath_Ext filename) else title)"

definition UploadKnowledgeDocFromFile :: "kn_world \<Rightarrow> Claims \<Rightarrow> string \<Rightarrow> multipart \<Rightarrow> kn_state \<Rightarrow> response \<times> kn_state" where
  "UploadKnowledgeDocFromFile w c wsID form s =
     (if wsID \<noteq> WorkspaceID c then (errJSON StatusForbidden ''workspace mismatch'', s)
      else if mp_err form \<noteq> None then (errJSON StatusBadRequest ''file too large or parse failed'', s)
      else (case mp_file form of
              None \<Rightarrow> (errJSON StatusBadRequest ''missing file field'', s)
            | Some (filename, contents) \<Rightarrow>
                (case docTypeFromExt filename of
                   Inl m \<Rightarrow> (errJSON StatusBadRequest m, s)
                 | Inr docType \<Rightarrow>
                     (case contents of
                        Inl _ \<Rightarrow> (errJSON StatusInternalServerError ''failed to read file'', s)
                      | Inr fileData \<Rightarrow>
                          if fileData = [] then (errJSON StatusBadRequest ''empty file'', s)
                          else (let e = kw_env w; title = form_title form filename;
                                    hashStr = EncodeToString (Sum256 fileData); docID = uuid e 0 in
                                case saveKnowledgeFile (kw_disk w) (kw_dir w) wsID docID docType fileData (ks_disk s) of
                                  (Some _, d') \<Rightarrow> (errJSON StatusInternalServerError ''failed to save file'', s\<lparr>ks_disk := d'\<rparr>)
                                | (None, d') \<Rightarrow>
                                    (let s1 = s\<lparr>ks_disk := d'\<rparr> in
                                     case exec e 0 (insert_kdoc (kdoc_row e c docID title (Some docType) hashStr)) (hdb (ks_hub s)) of
                                       Inl _ \<Rightarrow> (errJSON StatusInternalServerError ''db insert'', s1)
                                     | Inr db' \<Rightarrow>
                                         index_doc w wsID docID title fileData [(''doc_type'', JStr docType)]
                                           [(''action'', JStr ''index_document''), (''doc_id'', JStr docID), (''title'', JStr title),
                                            (''doc_type'', JStr docType), (''file_bytes'', JStr (base64 fileData)),
                                            (''file_name'', JStr filename)]
                                           (s1\<lparr>ks_hub := (ks_hub s)\<lparr>hdb := db'\<rparr>\<rparr>)))))))"

definition DownloadKnowledgeDoc :: "env \<Rightarrow> disk_env \<Rightarrow> string \<Rightarrow> string \<Rightarrow> string \<Rightarrow> kn_state \<Rightarrow> answer" where
  "DownloadKnowledgeDoc e de dir urlPath docID s =
     (case query_row e 0 (filter (\<lambda>k. k_id k = docID) (kdocs (hdb (ks_hub s)))) of
        Inl _ \<Rightarrow> Answer (errJSON StatusNotFound ''document not found'')
      | Inr k \<Rightarrow>
          (let ext = extFromDocType (k_type k);
               path = filepath_Join [dir, k_ws k, docID @ ext]
           in if ks_disk s path = None then Answer (errJSON StatusNotFound ''file not available'')
              else ServeFile de urlPath
                     [(''Content-Disposition'', ''attachment; filename='' @ [CHR 0x22] @ k_title k @ ext @ [CHR 0x22])] path (ks_disk s)))"

section \<open>Stored documents\<close>

text \<open>Where a document is stored; ids are those of \<open>uuid.NewString\<close>, without slash and dot.\<close>

definition doc_path :: "string \<Rightarrow> string \<Rightarrow> string \<Rightarrow> string \<Rightarrow> string" where
  "doc_path dir ws docID docType = filepath_Join [dir, ws, docID @ extFromDocType docType]"

definition plain_id :: "string \<Rightarrow> bool" where
  "plain_id i \<longleftrightarrow> i \<noteq> [] \<and> CHR ''/'' \<notin> set i \<and> CHR ''.'' \<notin> set i"

definition doc_types :: "string list" where
  "doc_types = [''text'', ''markdown'', ''pdf'', ''doc'']"

lemma docTypeFromExt_types: "docTypeFromExt f = Inr t \<Longrightarrow> t \<in> set doc_types"
  by (auto simp: docTypeFromExt_def doc_types_def Let_def split: if_splits)

lemma doc_name:
  assumes "plain_id i" and "t \<in> set doc_types"
  shows "takeWhile (\<lambda>c. c \<noteq> CHR ''.'') (i @ extFromDocType t) = i" and "CHR ''/'' \<notin> set (i @ extFromDocType t)"
    and "i @ extFromDocType t \<notin> {[], ''.'', dotdot}"
proof -
  have i: "\<forall>c \<in> set i. c \<noteq> CHR ''.''" using assms(1) by (auto simp: plain_id_def)
  show "takeWhile (\<lambda>c. c \<noteq> CHR ''.'') (i @ extFromDocType t) = i"
    using i assms(2) by (auto simp: takeWhile_append2 doc_types_def extFromDocType_def)
  show "CHR ''/'' \<notin> set (i @ extFromDocType t)"
    using assms by (auto simp: plain_id_def doc_types_def extFromDocType_def)
  show "i @ extFromDocType t \<notin> {[], ''.'', dotdot}"
    using assms by (cases i) (auto simp: plain_id_def)
qed

lemma doc_path_elems:
  assumes "dir \<noteq> []" and "plain_id i" and "t \<in> set doc_types"
  shows "last (clean_elems (doc_path dir ws i t)) = i @ extFromDocType t"
proof -
  let ?f = "i @ extFromDocType t"
  have "filepath_Join [dir, ws] \<noteq> []" using assms(1) by (simp add: filepath_Join_def)
  from Join_name [OF this doc_name(2) [OF assms(2,3)]] doc_name(3) [OF assms(2,3)]
  have "clean_elems (filepath_Join [filepath_Join [dir, ws], ?f]) = clean_elems (filepath_Join [dir, ws]) @ [?f]" by simp
  then show ?thesis by (simp add: doc_path_def Join_Join assms(1))
qed

lemma doc_path_inj:
  assumes "dir \<noteq> []" and "plain_id i" and "t \<in> set doc_types" and "plain_id j" and "u \<in> set doc_types"
    and "doc_path dir ws i t = doc_path dir ws' j u"
  shows "i = j"
  using assms doc_path_elems doc_name(1) by metis

lemma saveKnowledgeFile_path:
  assumes "dir \<noteq> []" and "saveKnowledgeFile de dir ws i t data d = (m, d')"
  shows "q \<noteq> doc_path dir ws i t \<Longrightarrow> d' q = d q" and "m = None \<Longrightarrow> d' = d(doc_path dir ws i t \<mapsto> data)"
  using assms(2) WriteFile_other WriteFile_ok
  by (fastforce simp: saveKnowledgeFile_def doc_path_def Join_Join [OF assms(1)] Let_def split: option.splits prod.splits)+

text \<open>A document is stored: one row with its workspace, title and type, and its bytes on disk.\<close>

definition doc_info :: "string \<Rightarrow> platform \<Rightarrow> (string \<times> string \<times> string) list" where
  "doc_info i db = map (\<lambda>k. (k_ws k, k_title k, k_type k)) (filter (\<lambda>k. k_id k = i) (kdocs db))"

definition doc_stored :: "string \<Rightarrow> string \<Rightarrow> string \<Rightarrow> string \<Rightarrow> string \<Rightarrow> string \<Rightarrow> kn_state \<Rightarrow> bool" where
  "doc_stored dir ws i title t data s \<longleftrightarrow>
     doc_info i (hdb (ks_hub s)) = [(ws, title, t)] \<and> ks_disk s (doc_path dir ws i t) = Some data"

lemma doc_info_upd:
  assumes "\<And>k. (k_id (f k), k_ws (f k), k_title (f k), k_type (f k)) = (k_id k, k_ws k, k_title k, k_type k)"
  shows "doc_info i (db\<lparr>kdocs := map (\<lambda>k. if P k then f k else k) (kdocs db)\<rparr>) = doc_info i db"
proof -
  have "map (\<lambda>k. (k_ws k, k_title k, k_type k)) (filter (\<lambda>k. k_id k = i) (map (\<lambda>k. if P k then f k else k) ks))
      = map (\<lambda>k. (k_ws k, k_title k, k_type k)) (filter (\<lambda>k. k_id k = i) ks)" for ks
    using assms by (induction ks) auto
  then show ?thesis by (simp add: doc_info_def)
qed

lemma doc_info_insert:
  assumes "exec e 0 (insert_kdoc k) db = Inr db'"
  shows "doc_info i db' = (if k_id k = i then [(k_ws k, k_title k, k_type k)] else doc_info i db)"
proof -
  have "k_id k \<notin> k_id ` set (kdocs db)" "db' = db\<lparr>kdocs := kdocs db @ [k]\<rparr>"
    using assms by (auto simp: exec_Inr_iff insert_kdoc_def split: if_splits)
  moreover from this(1) have "filter (\<lambda>x. k_id x = k_id k) (kdocs db) = []"
    unfolding filter_empty_conv by (metis imageI)
  ultimately show ?thesis by (auto simp: doc_info_def)
qed

lemma EnqueueTask_docs: "EnqueueTask e ne c ws sid rid ty p h = (r, h') \<Longrightarrow> doc_info i (hdb h') = doc_info i (hdb h)"
  by (auto simp: EnqueueTask_def startTimeoutWatcher_def Let_def exec_Inr_iff insert_task_Inr doc_info_def split: sum.splits option.splits)

lemma index_doc_docs:
  assumes "index_doc w ws i title content extra payload s = (r, s')"
  shows "doc_info j (hdb (ks_hub s')) = doc_info j (hdb (ks_hub s)) \<and> ks_disk s' = ks_disk s"
  using assms doc_info_upd EnqueueTask_docs
  by (auto simp: index_doc_def updateDocStatus_def exec_def Let_def split: option.splits sum.splits prod.splits)

lemma KnowledgeDocCallback_docs: "KnowledgeDocCallback e d st ch n h = (r, h') \<Longrightarrow> doc_info i (hdb h') = doc_info i (hdb h)"
  using doc_info_upd by (auto simp: KnowledgeDocCallback_def exec_def Let_def split: option.splits if_splits)

text \<open>What an accepted upload stores, and that nothing else touches it.\<close>

lemma UploadKnowledgeDocFromFile_cases:
  assumes "UploadKnowledgeDocFromFile w c ws form s = (r, s')"
  obtains "s' = s" and "status r \<noteq> StatusAccepted"
  | filename t data m d' where "mp_file form = Some (filename, Inr data)" and "docTypeFromExt filename = Inr t"
      and "saveKnowledgeFile (kw_disk w) (kw_dir w) ws (uuid (kw_env w) 0) t data (ks_disk s) = (m, d')"
      and "s' = s\<lparr>ks_disk := d'\<rparr>" and "status r \<noteq> StatusAccepted"
  | filename t data d' db' extra payload where "ws = WorkspaceID c" and "mp_file form = Some (filename, Inr data)" and "docTypeFromExt filename = Inr t"
      and "saveKnowledgeFile (kw_disk w) (kw_dir w) ws (uuid (kw_env w) 0) t data (ks_disk s) = (None, d')"
      and "exec (kw_env w) 0 (insert_kdoc (kdoc_row (kw_env w) c (uuid (kw_env w) 0) (form_title form filename) (Some t) (EncodeToString (Sum256 data)))) (hdb (ks_hub s)) = Inr db'"
      and "index_doc w ws (uuid (kw_env w) 0) (form_title form filename) data extra payload
             (s\<lparr>ks_disk := d', ks_hub := (ks_hub s)\<lparr>hdb := db'\<rparr>\<rparr>) = (r, s')"
proof (cases "ws \<noteq> WorkspaceID c \<or> mp_err form \<noteq> None")
  case True
  with assms have "s' = s \<and> status r \<noteq> StatusAccepted" by (auto simp: UploadKnowledgeDocFromFile_def split: if_splits)
  with that(1) show thesis by blast
next
  case ws: False
  show thesis
  proof (cases "\<exists>filename t data. mp_file form = Some (filename, Inr data) \<and> docTypeFromExt filename = Inr t \<and> data \<noteq> []")
    case False
    with assms ws have "s' = s \<and> status r \<noteq> StatusAccepted"
      by (auto simp: UploadKnowledgeDocFromFile_def split: if_splits option.splits sum.splits)
    with that(1) show thesis by blast
  next
    case True
    then obtain filename t data where f: "mp_file form = Some (filename, Inr data)" "docTypeFromExt filename = Inr t" "data \<noteq> []" by blast
    obtain m d' where sv: "saveKnowledgeFile (kw_disk w) (kw_dir w) ws (uuid (kw_env w) 0) t data (ks_disk s) = (m, d')" by fastforce
    show thesis
    proof (cases "m = None \<and> (\<exists>db'. exec (kw_env w) 0 (insert_kdoc (kdoc_row (kw_env w) c (uuid (kw_env w) 0) (form_title form filename) (Some t) (EncodeToString (Sum256 data)))) (hdb (ks_hub s)) = Inr db')")
      case False
      then have "s' = s\<lparr>ks_disk := d'\<rparr> \<and> status r \<noteq> StatusAccepted"
        using assms ws f sv by (auto simp: UploadKnowledgeDocFromFile_def Let_def split: option.splits sum.splits)
      then show thesis using that(2) f(1,2) sv by blast
    next
      case True
      then show thesis using assms ws f sv that(3) by (auto simp: UploadKnowledgeDocFromFile_def Let_def)
    qed
  qed
qed

lemma UploadKnowledgeDocFromFile_stores:
  assumes "UploadKnowledgeDocFromFile w c ws form s = (r, s')" and "status r = StatusAccepted" and "kw_dir w \<noteq> []"
  shows "\<exists>filename t data. mp_file form = Some (filename, Inr data) \<and> docTypeFromExt filename = Inr t
           \<and> doc_stored (kw_dir w) ws (uuid (kw_env w) 0) (form_title form filename) t data s'"
  using assms(1)
proof (cases rule: UploadKnowledgeDocFromFile_cases)
  case (3 filename t data d' db' extra payload)
  let ?i = "uuid (kw_env w) 0"
  have "doc_info ?i (hdb (ks_hub s')) = doc_info ?i db' \<and> ks_disk s' = d'" using index_doc_docs [OF 3(6)] by simp
  then have "doc_stored (kw_dir w) ws ?i (form_title form filename) t data s'"
    using 3(1) doc_info_insert [OF 3(5), of ?i] saveKnowledgeFile_path(2) [OF assms(3) 3(4)]
    by (auto simp: doc_stored_def kdoc_row_def)
  with 3 show ?thesis by blast
qed (use assms(2) in auto)

lemma UploadKnowledgeDocFromFile_keeps:
  assumes "doc_stored dir ws i title t data s" and "plain_id i" and "t \<in> set doc_types"
    and "UploadKnowledgeDocFromFile w c ws' form s = (r, s')" and "kw_dir w = dir" and "dir \<noteq> []"
    and "plain_id (uuid (kw_env w) 0)" and "uuid (kw_env w) 0 \<noteq> i"
  shows "doc_stored dir ws i title t data s'"
proof -
  have disk: "d' (doc_path dir ws i t) = Some data"
    if "docTypeFromExt f = Inr t'" "saveKnowledgeFile (kw_disk w) (kw_dir w) ws' (uuid (kw_env w) 0) t' dat (ks_disk s) = (m, d')" for f t' dat m d'
  proof -
    have "t' \<in> set doc_types" using that(1) by (rule docTypeFromExt_types)
    then have "doc_path dir ws i t \<noteq> doc_path dir ws' (uuid (kw_env w) 0) t'" using doc_path_inj assms by metis
    with saveKnowledgeFile_path(1) [OF _ that(2)] assms(1,5,6) show ?thesis by (simp add: doc_stored_def)
  qed
  from assms(4) show ?thesis
  proof (cases rule: UploadKnowledgeDocFromFile_cases)
    case 1
    with assms(1) show ?thesis by simp
  next
    case (2 filename t' data' m d')
    with disk [OF 2(2,3)] assms(1) show ?thesis by (simp add: doc_stored_def)
  next
    case (3 filename t' data' d' db' extra payload)
    have "doc_info i (hdb (ks_hub s')) = doc_info i db' \<and> ks_disk s' = d'" using index_doc_docs [OF 3(6)] by simp
    with disk [OF 3(3,4)] doc_info_insert [OF 3(5), of i] assms(1,8) show ?thesis by (simp add: doc_stored_def kdoc_row_def)
  qed
qed

lemma UploadKnowledgeDoc_keeps:
  assumes "doc_stored dir ws i title t data s" and "UploadKnowledgeDoc w c ws' bd s = (r, s')" and "uuid (kw_env w) 0 \<noteq> i"
  shows "doc_stored dir ws i title t data s'"
proof (cases "s' = s")
  case False
  then obtain tt content db' payload where
      ins: "exec (kw_env w) 0 (insert_kdoc (kdoc_row (kw_env w) c (uuid (kw_env w) 0) tt None (EncodeToString (Sum256 content)))) (hdb (ks_hub s)) = Inr db'"
    and idx: "index_doc w ws' (uuid (kw_env w) 0) tt content [] payload (s\<lparr>ks_hub := (ks_hub s)\<lparr>hdb := db'\<rparr>\<rparr>) = (r, s')"
    using assms(2) by (auto simp: UploadKnowledgeDoc_def Let_def split: if_splits option.splits sum.splits)
  with doc_info_insert [OF ins, of i] index_doc_docs [OF idx, of i] assms(1,3) show ?thesis
    by (simp add: doc_stored_def kdoc_row_def)
qed (use assms(1) in simp)

datatype kn_op =
    FileUpload kn_world Claims string multipart
  | TextUpload kn_world Claims string "(string \<times> string) option"
  | DocCallback env string string string int

fun run_kn_op :: "kn_op \<Rightarrow> kn_state \<Rightarrow> kn_state" where
  "run_kn_op (FileUpload w c ws form) s = snd (UploadKnowledgeDocFromFile w c ws form s)"
| "run_kn_op (TextUpload w c ws bd) s = snd (UploadKnowledgeDoc w c ws bd s)"
| "run_kn_op (DocCallback e d st ch n) s = s\<lparr>ks_hub := snd (KnowledgeDocCallback e d st ch n (ks_hub s))\<rparr>"

text \<open>Operations that draw an id other than \<open>i\<close>.\<close>

fun other_op :: "string \<Rightarrow> string \<Rightarrow> kn_op \<Rightarrow> bool" where
  "other_op dir i (FileUpload w c ws form) \<longleftrightarrow> kw_dir w = dir \<and> plain_id (uuid (kw_env w) 0) \<and> uuid (kw_env w) 0 \<noteq> i"
| "other_op dir i (TextUpload w c ws bd) \<longleftrightarrow> uuid (kw_env w) 0 \<noteq> i"
| "other_op dir i (DocCallback e d st ch n) \<longleftrightarrow> True"

lemma run_kn_op_keeps:
  assumes "doc_stored dir ws i title t data s" and "plain_id i" and "t \<in> set doc_types" and "dir \<noteq> []" and "other_op dir i op"
  shows "doc_stored dir ws i title t data (run_kn_op op s)"
proof (cases op)
  case (FileUpload w c ws' form)
  then show ?thesis using UploadKnowledgeDocFromFile_keeps [OF assms(1-3) prod.collapse [symmetric]] assms(4,5) by simp
next
  case (TextUpload w c ws' bd)
  then show ?thesis using UploadKnowledgeDoc_keeps [OF assms(1) prod.collapse [symmetric]] assms(5) by simp
next
  case (DocCallback e d st ch n)
  then show ?thesis using KnowledgeDocCallback_docs [OF prod.collapse [symmetric]] assms(1) by (simp add: doc_stored_def)
qed

lemma run_kn_ops_keep:
  assumes "plain_id i" and "t \<in> set doc_types" and "dir \<noteq> []"
  shows "doc_stored dir ws i title t data s \<Longrightarrow> list_all (other_op dir i) ops
    \<Longrightarrow> doc_stored dir ws i title t data (foldl (\<lambda>s op. run_kn_op op s) s ops)"
  using run_kn_op_keeps assms by (induction ops arbitrary: s) auto

lemma DownloadKnowledgeDoc_stored:
  assumes "doc_stored dir ws i title t data s" and "db_err e 0 = None" and "open_fail de = (\<lambda>_. None)"
    and "\<not> containsDotDot u" and "\<not> HasSuffix u ''/index.html''"
  shows "DownloadKnowledgeDoc e de dir u i s =
    SendFile [(''Content-Disposition'', ''attachment; filename='' @ [CHR 0x22] @ title @ extFromDocType t @ [CHR 0x22])] data"
proof -
  obtain k where "filter (\<lambda>k. k_id k = i) (kdocs (hdb (ks_hub s))) = [k]" "k_ws k = ws" "k_title k = title" "k_type k = t"
    using assms(1) by (auto simp: doc_stored_def doc_info_def)
  then show ?thesis using assms ServeFile_ok
    by (simp add: DownloadKnowledgeDoc_def query_row_def doc_stored_def doc_path_def Let_def)
qed

text \<open>
  C21. Knowledge files survive: when an upload is accepted, then whatever documents are uploaded
  and whatever callbacks of the workers arrive afterwards, downloading the document gives exactly
  the uploaded bytes, under its title and the extension of its type. The ids drawn later must
  differ from its id, and ids contain no slash and no dot, which UUIDs satisfy.
\<close>

theorem knowledge_round_trip:
  assumes "UploadKnowledgeDocFromFile w c ws form s = (r, s1)" and "status r = StatusAccepted"
    and "kw_dir w \<noteq> []" and "plain_id (uuid (kw_env w) 0)"
    and "list_all (other_op (kw_dir w) (uuid (kw_env w) 0)) ops"
    and "db_err e 0 = None" and "open_fail de = (\<lambda>_. None)" and "\<not> containsDotDot u" and "\<not> HasSuffix u ''/index.html''"
  shows "\<exists>filename t data. mp_file form = Some (filename, Inr data) \<and> docTypeFromExt filename = Inr t
    \<and> DownloadKnowledgeDoc e de (kw_dir w) u (uuid (kw_env w) 0) (foldl (\<lambda>s op. run_kn_op op s) s1 ops)
      = SendFile [(''Content-Disposition'',
          ''attachment; filename='' @ [CHR 0x22] @ form_title form filename @ extFromDocType t @ [CHR 0x22])] data"
proof -
  obtain filename t data where u: "mp_file form = Some (filename, Inr data)" "docTypeFromExt filename = Inr t"
      "doc_stored (kw_dir w) ws (uuid (kw_env w) 0) (form_title form filename) t data s1"
    using UploadKnowledgeDocFromFile_stores [OF assms(1-3)] by blast
  with run_kn_ops_keep [OF assms(4) docTypeFromExt_types assms(3) u(3) assms(5)] DownloadKnowledgeDoc_stored assms(6-)
  show ?thesis by blast
qed

text \<open>
  A document sent as JSON is never written to disk, so it can be listed and not downloaded.
\<close>

lemma text_document_not_downloadable:
  assumes "UploadKnowledgeDoc w c ws (Some (title, content)) s = (r, s1)"
    and "ks_disk s (doc_path dir ws (uuid (kw_env w) 0) (col_default (kw_env w) ''knowledge_docs.doc_type'')) = None"
    and "status r = StatusAccepted" and "db_err e 0 = None"
  shows "DownloadKnowledgeDoc e de dir u (uuid (kw_env w) 0) s1 = Answer (errJSON StatusNotFound ''file not available'')"
proof -
  let ?e = "kw_env w"
  let ?i = "uuid ?e 0"
  have ws: "ws = WorkspaceID c" using assms(1,3) by (auto simp: UploadKnowledgeDoc_def split: if_splits)
  obtain db' payload where
      ins: "exec ?e 0 (insert_kdoc (kdoc_row ?e c ?i title None (EncodeToString (Sum256 content)))) (hdb (ks_hub s)) = Inr db'"
    and idx: "index_doc w ws ?i title content [] payload (s\<lparr>ks_hub := (ks_hub s)\<lparr>hdb := db'\<rparr>\<rparr>) = (r, s1)"
    using assms(1,3) by (auto simp: UploadKnowledgeDoc_def Let_def split: if_splits sum.splits)
  have "doc_info ?i (hdb (ks_hub s1)) = [(ws, title, col_default ?e ''knowledge_docs.doc_type'')]" "ks_disk s1 = ks_disk s"
    using doc_info_insert [OF ins, of ?i] index_doc_docs [OF idx, of ?i] ws by (simp_all add: kdoc_row_def)
  then obtain k where "filter (\<lambda>k. k_id k = ?i) (kdocs (hdb (ks_hub s1))) = [k]" "k_ws k = ws" "k_type k = col_default ?e ''knowledge_docs.doc_type''"
    by (auto simp: doc_info_def)
  then show ?thesis using assms(2,4) \<open>ks_disk s1 = ks_disk s\<close>
    by (simp add: DownloadKnowledgeDoc_def query_row_def doc_path_def Let_def)
qed

section \<open>An example\<close>

definition demo_kn :: "string \<Rightarrow> kn_world" where
  "demo_kn i = \<lparr>kw_env = calm_env\<lparr>uuid := (\<lambda>_. i)\<rparr>, kw_task_env = calm_env, kw_nats_err = None, kw_async = NewClient True,
     kw_index = Some (\<lambda>_ _ _ _. Inr (True, 1)), kw_disk = calm_disk, kw_dir = ''kb''\<rparr>"

definition demo_kn_form :: "string \<Rightarrow> multipart" where
  "demo_kn_form content = \<lparr>mp_err = None, mp_file = Some (''a.txt'', Inr content), mp_value = (\<lambda>_. ''notes'')\<rparr>"

definition demo_kn_claims :: Claims where
  "demo_kn_claims = \<lparr>UserID = ''u1'', WorkspaceID = ''w'', Claims.Role = ''data_admin'', ExpiresAt = None, NotBefore = None, IssuedAt = None, ID = [], Subject = []\<rparr>"

definition demo_kn_state :: kn_state where
  "demo_kn_state = \<lparr>ks_hub = \<lparr>hdb = empty_platform, hbus = NewMemoryBus, hnats = [], htimers = [], harmed = [], htimeouts = 0\<rparr>, ks_disk = Map.empty\<rparr>"

lemma demo_doc_type: "docTypeFromExt ''a.txt'' = Inr ''text''"
  by (simp add: docTypeFromExt_def filepath_Ext_def Let_def go_str)

lemma demo_kn_upload:
  "\<exists>r s1. UploadKnowledgeDocFromFile (demo_kn ''d1'') demo_kn_claims ''w'' (demo_kn_form ''hello'') demo_kn_state = (r, s1) \<and> status r = StatusAccepted"
proof -
  have "saveKnowledgeFile calm_disk dir ws i t data d = (None, d(filepath_Join [filepath_Join [dir, ws], i @ extFromDocType t] \<mapsto> data))" for dir ws i t data d
    by (simp add: saveKnowledgeFile_def WriteFile_def calm_disk_def Let_def)
  then show ?thesis using demo_doc_type
    by (simp add: UploadKnowledgeDocFromFile_def index_doc_def demo_kn_def demo_kn_form_def demo_kn_claims_def demo_kn_state_def
        exec_def insert_kdoc_def empty_platform_def Let_def)
qed

theorem knowledge_round_trip_witness:
  "\<exists>r s1 ops. UploadKnowledgeDocFromFile (demo_kn ''d1'') demo_kn_claims ''w'' (demo_kn_form ''hello'') demo_kn_state = (r, s1)
     \<and> ops = [FileUpload (demo_kn ''d2'') demo_kn_claims ''w'' (demo_kn_form ''other''), DocCallback calm_env ''d1'' ''failed'' [] 0]
     \<and> DownloadKnowledgeDoc calm_env calm_disk ''kb'' ''/v1/knowledge/docs/d1/download'' ''d1'' (foldl (\<lambda>s op. run_kn_op op s) s1 ops)
       = SendFile [(''Content-Disposition'', ''attachment; filename='' @ [CHR 0x22] @ ''notes.txt'' @ [CHR 0x22])] ''hello''"
proof -
  let ?ops = "[FileUpload (demo_kn ''d2'') demo_kn_claims ''w'' (demo_kn_form ''other''), DocCallback calm_env ''d1'' ''failed'' [] 0]"
  obtain r s1 where up: "UploadKnowledgeDocFromFile (demo_kn ''d1'') demo_kn_claims ''w'' (demo_kn_form ''hello'') demo_kn_state = (r, s1)" "status r = StatusAccepted"
    using demo_kn_upload by blast
  have "kw_dir (demo_kn i) = ''kb''" "uuid (kw_env (demo_kn i)) 0 = i" for i by (simp_all add: demo_kn_def)
  moreover have "plain_id ''d1''" "plain_id ''d2''" by (simp_all add: plain_id_def)
  moreover have "\<not> containsDotDot ''/v1/knowledge/docs/d1/download''" by (simp add: containsDotDot_def)
  moreover have "\<not> HasSuffix ''/v1/knowledge/docs/d1/download'' ''/index.html''" by (simp add: HasSuffix_def suffix_def)
  moreover have "form_title (demo_kn_form ''hello'') ''a.txt'' = ''notes''" by (simp add: form_title_def demo_kn_form_def trim_eval)
  ultimately show ?thesis
    using knowledge_round_trip [OF up, of ?ops calm_env calm_disk "''/v1/knowledge/docs/d1/download''"] up demo_doc_type
    by (simp add: demo_kn_form_def calm_disk_def extFromDocType_def)
qed

end
