(* ===== verification/Db_Typing.thy ===== *)
theory Db_Typing
  imports Messages Knowledge
begin

text \<open>
  The types of the platform tables. MySQL keeps a role, a status or a reference in a plain text
  column; which values these columns hold, and which rows they refer to, is up to the code that
  writes them. \<open>platform_typed\<close> says what the code keeps: primary keys are unique (the steps of a
  run, whose keys the model leaves out, are only numbered from zero up), the enumerated columns the
  hub itself writes hold one of their values, and these references have their row: the workspace of
  a user, a session and a data source; the user, data source and dataset of a session; the session
  of a message and of a run; the dataset of a permission and of a table; the table of a field.
  Other references the code does not keep, and \<open>platform_typed\<close> does not claim them: the user of a
  dataset permission (lemma \<open>grant_to_nobody\<close>), the user and reviewer of a permission request, the
  workspace, session and run of a task, the run of a step, the workspace and author of a document,
  and the creators of datasets and tables. The status of a step is what the worker sent. The lemmas
  show that each SQL statement of the hub, and with them each handler and callback, keeps the types.
\<close>

section \<open>Tables\<close>

definition table_ok :: "('a \<Rightarrow> 'k) \<Rightarrow> ('a \<Rightarrow> bool) \<Rightarrow> 'a list \<Rightarrow> bool" where
  "table_ok key P rows \<longleftrightarrow> distinct (map key rows) \<and> list_all P rows"

lemma table_ok_Nil [simp]: "table_ok key P []"
  by (simp add: table_ok_def)

lemma table_ok_snoc [simp]:
  "table_ok key P (rows @ [r]) \<longleftrightarrow> table_ok key P rows \<and> key r \<notin> key ` set rows \<and> P r"
  by (auto simp: table_ok_def)

lemma table_ok_filter: "table_ok key P rows \<Longrightarrow> table_ok key P (filter Q rows)"
  by (auto simp: table_ok_def list_all_iff intro: distinct_map_filter)

lemma table_ok_map:
  assumes "table_ok key P rows" and "\<And>r. key (f r) = key r" and "\<And>r. P r \<Longrightarrow> Q r \<Longrightarrow> P (f r)"
  shows "table_ok key P (map (\<lambda>r. if Q r then f r else r) rows)"
  using assms distinct_map_upd [where f = key and g = f and P = Q] list_all_map_upd [where P = Q and g = f and Q = P]
  unfolding table_ok_def by metis

lemma table_ok_mono: "table_ok key P rows \<Longrightarrow> (\<And>r. r \<in> set rows \<Longrightarrow> P r \<Longrightarrow> P' r) \<Longrightarrow> table_ok key P' rows"
  by (auto simp: table_ok_def list_all_iff)

section \<open>The types of the rows\<close>

text \<open>A row is checked against the keys of the tables it refers to.\<close>

definition session_typed :: "string set \<Rightarrow> string set \<Rightarrow> string set \<Rightarrow> string set \<Rightarrow> session \<Rightarrow> bool" where
  "session_typed ws us dss dats s \<longleftrightarrow>
     s_ws s \<in> ws \<and> s_user s \<in> us \<and> (\<forall>d. s_ds s = Some d \<longrightarrow> d \<in> dss) \<and> (\<forall>d. s_dataset s = Some d \<longrightarrow> d \<in> dats) \<and> s_title s \<noteq> []"

definition message_typed :: "string set \<Rightarrow> message \<Rightarrow> bool" where
  "message_typed ss m \<longleftrightarrow> m_session m \<in> ss \<and> m_role m \<in> {''user'', ''assistant''}"

definition run_typed :: "string set \<Rightarrow> run \<Rightarrow> bool" where
  "run_typed ss r \<longleftrightarrow> r_session r \<in> ss \<and> r_status r \<in> {''running'', ''completed'', ''failed''}"

definition task_typed :: "task \<Rightarrow> bool" where
  "task_typed t \<longleftrightarrow> (live (t_status t) \<or> t_status t \<in> terminal) \<and> t_type t \<in> {''agent_pipeline'', ''knowledge_index''}
     \<and> t_session t \<noteq> Some [] \<and> t_run t \<noteq> Some []"

definition step_typed :: "step \<Rightarrow> bool" where
  "step_typed x \<longleftrightarrow> 0 \<le> st_index x"

definition kdoc_typed :: "kdoc \<Rightarrow> bool" where
  "kdoc_typed k \<longleftrightarrow> k_status k \<in> {''pending'', ''completed'', ''failed''}"

definition dsource_typed :: "string set \<Rightarrow> dsource \<Rightarrow> bool" where
  "dsource_typed ws d \<longleftrightarrow>
     ds_ws d \<in> ws \<and> ds_kind d = ''mysql'' \<and> ds_name d \<noteq> [] \<and> ds_host d \<noteq> [] \<and> ds_port d \<noteq> 0 \<and> ds_database d \<noteq> []
     \<and> ds_user d \<noteq> [] \<and> ds_ssl d \<noteq> []"

definition dataset_typed :: "dataset \<Rightarrow> bool" where
  "dataset_typed d \<longleftrightarrow> d_name d \<noteq> []"

definition dperm_typed :: "string set \<Rightarrow> dperm \<Rightarrow> bool" where
  "dperm_typed dats p \<longleftrightarrow> dp_dataset p \<in> dats \<and> dp_level p \<in> {''read'', ''write'', ''admin''}"

definition dtable_typed :: "string set \<Rightarrow> dtable \<Rightarrow> bool" where
  "dtable_typed dats t \<longleftrightarrow> dt_dataset t \<in> dats \<and> dt_name t \<noteq> []"

definition tfield_typed :: "string set \<Rightarrow> tfield \<Rightarrow> bool" where
  "tfield_typed ts f \<longleftrightarrow> tf_table f \<in> ts \<and> tf_type f \<in> set validTypes \<and> 0 < tf_pos f"

abbreviation session_ids :: "platform \<Rightarrow> string set" where
  "session_ids db \<equiv> s_id ` set (sessions db)"

abbreviation dataset_ids :: "platform \<Rightarrow> string set" where
  "dataset_ids db \<equiv> d_id ` set (datasets db)"

definition platform_typed :: "platform \<Rightarrow> bool" where
  "platform_typed db \<longleftrightarrow>
     users_inv db
     \<and> table_ok s_id (session_typed (set (workspaces db)) (u_id ` set (users db)) (ds_id ` set (dsources db)) (dataset_ids db)) (sessions db)
     \<and> table_ok m_id (message_typed (session_ids db)) (messages db)
     \<and> table_ok r_id (run_typed (session_ids db)) (runs db)
     \<and> table_ok t_id task_typed (tasks db)
     \<and> list_all step_typed (steps db)
     \<and> table_ok k_id kdoc_typed (kdocs db)
     \<and> table_ok ds_id (dsource_typed (set (workspaces db))) (dsources db)
     \<and> table_ok d_id dataset_typed (datasets db)
     \<and> table_ok (\<lambda>p. (dp_dataset p, dp_user p)) (dperm_typed (dataset_ids db)) (dperms db)
     \<and> table_ok dt_id (dtable_typed (dataset_ids db)) (dtables db)
     \<and> table_ok tf_id (tfield_typed (dt_id ` set (dtables db))) (tfields db)
     \<and> distinct (map (\<lambda>f. (tf_table f, tf_name f)) (tfields db))"

section \<open>Statements keep the types\<close>

lemma image_upd: "(\<And>x. key (f x) = key x) \<Longrightarrow> key ` set (map (\<lambda>x. if P x then f x else x) xs) = key ` set xs"
  using distinct_map_upd [of key f P xs] by (metis set_map)

text \<open>A new row of a table that others refer to keeps their references.\<close>

lemma references_kept [simp]:
  "table_ok s_id (session_typed ws us dss dats) S \<Longrightarrow> table_ok s_id (session_typed ws (insert x us) dss dats) S"
  "table_ok s_id (session_typed ws us dss dats) S \<Longrightarrow> table_ok s_id (session_typed ws us (insert x dss) dats) S"
  "table_ok s_id (session_typed ws us dss dats) S \<Longrightarrow> table_ok s_id (session_typed ws us dss (insert x dats)) S"
  "table_ok m_id (message_typed ss) M \<Longrightarrow> table_ok m_id (message_typed (insert x ss)) M"
  "table_ok r_id (run_typed ss) R \<Longrightarrow> table_ok r_id (run_typed (insert x ss)) R"
  "table_ok pk (dperm_typed dats) P \<Longrightarrow> table_ok pk (dperm_typed (insert x dats)) P"
  "table_ok dt_id (dtable_typed dats) T \<Longrightarrow> table_ok dt_id (dtable_typed (insert x dats)) T"
  "table_ok tf_id (tfield_typed ts) F \<Longrightarrow> table_ok tf_id (tfield_typed (insert x ts)) F"
  by (auto simp: table_ok_def list_all_iff session_typed_def message_typed_def run_typed_def dperm_typed_def dtable_typed_def
      tfield_typed_def)

named_theorems typed_rules \<open>statements and operations that keep the tables well typed\<close>

text \<open>Users and permission requests.\<close>

lemma typed_insert_user [typed_rules]:
  assumes "platform_typed db" and "insert_user u db = Inr db'" and "u_role u \<in> set validRoles"
  shows "platform_typed db'"
proof -
  have "users_inv db'" using assms users_inv_insert_user by (auto simp: platform_typed_def)
  moreover have "db' = db\<lparr>users := users db @ [u]\<rparr>" using assms(2) by (simp add: insert_user_Inr)
  ultimately show ?thesis using assms(1)
    by (auto simp: platform_typed_def)
qed

lemma typed_set_role [typed_rules]:
  assumes "platform_typed db" and "r \<in> set validRoles"
  shows "platform_typed (set_role i r db)"
  using assms users_inv_set_role [of db r i] by (simp add: platform_typed_def update_users_def image_upd del: set_map)

lemma typed_insert_preq [typed_rules]:
  assumes "platform_typed db" and "insert_preq p db = Inr db'" and "pr_role p \<in> {''data_admin'', ''read_only_visitor''}"
  shows "platform_typed db'"
  using assms users_inv_insert_preq [of db p db'] by (auto simp: platform_typed_def insert_preq_Inr)

lemma typed_decide [typed_rules]: "platform_typed db \<Longrightarrow> platform_typed (decide i st rv n db)"
  using users_inv_decide [of db i n rv st] by (simp add: platform_typed_def update_preqs_def)

lemma typed_delete_users [typed_rules]:
  assumes "platform_typed db"
  shows "platform_typed (delete_users P db)"
proof -
  let ?gone = "u_id ` {u \<in> set (users db). P u}" and ?db = "delete_users P db"
  let ?S = "filter (\<lambda>s. s_user s \<notin> ?gone) (sessions db)"
  have keys: "distinct (map s_id (sessions db))" using assms by (simp add: platform_typed_def table_ok_def)
  have frame: "sessions ?db = ?S" "workspaces ?db = workspaces db" "dsources ?db = dsources db" "datasets ?db = datasets db"
      "tasks ?db = tasks db" "steps ?db = steps db" "kdocs ?db = kdocs db" "dperms ?db = dperms db" "dtables ?db = dtables db" "tfields ?db = tfields db"
      "messages ?db = filter (\<lambda>m. m_session m \<notin> s_id ` {s \<in> set (sessions db). s_user s \<in> ?gone}) (messages db)"
      "runs ?db = filter (\<lambda>r. r_session r \<notin> s_id ` {s \<in> set (sessions db). s_user s \<in> ?gone}) (runs db)"
    by (simp_all add: delete_users_def delete_sessions_def Let_def)
  have "table_ok s_id (session_typed (set (workspaces db)) (u_id ` set (users ?db)) (ds_id ` set (dsources db)) (dataset_ids db)) ?S"
    using assms unfolding platform_typed_def
    by (elim conjE) (rule table_ok_mono [OF table_ok_filter], assumption, auto simp: session_typed_def)
  moreover have "table_ok m_id (message_typed (session_ids ?db)) (messages ?db)"
    using assms unfolding platform_typed_def frame
    by (elim conjE) (rule table_ok_mono [OF table_ok_filter], assumption, auto simp: message_typed_def)
  moreover have "table_ok r_id (run_typed (session_ids ?db)) (runs ?db)"
    using assms unfolding platform_typed_def frame
    by (elim conjE) (rule table_ok_mono [OF table_ok_filter], assumption, auto simp: run_typed_def)
  ultimately show ?thesis
    using assms users_inv_delete [of db P] unfolding platform_typed_def frame by (simp add: frame)
qed

text \<open>Sessions, messages, runs and tasks.\<close>

lemma typed_insert_session [typed_rules]:
  assumes "platform_typed db" and "insert_session s db = Inr db'" and "\<forall>d. s_dataset s = Some d \<longrightarrow> d \<in> dataset_ids db"
    and "s_title s \<noteq> []"
  shows "platform_typed db'"
proof -
  have "db' = db\<lparr>sessions := sessions db @ [s]\<rparr>" "s_id s \<notin> session_ids db"
      "session_typed (set (workspaces db)) (u_id ` set (users db)) (ds_id ` set (dsources db)) (dataset_ids db) s"
    using assms(2-) by (auto simp: insert_session_def session_typed_def split: if_splits)
  then show ?thesis using assms(1)
    by (auto simp: platform_typed_def users_inv_def)
qed

lemma typed_insert_message [typed_rules]:
  assumes "platform_typed db" and "insert_message m db = Inr db'" and "m_role m \<in> {''user'', ''assistant''}"
  shows "platform_typed db'"
  using assms by (auto simp: platform_typed_def users_inv_def insert_message_def message_typed_def split: if_splits)

lemma typed_insert_run [typed_rules]:
  assumes "platform_typed db" and "insert_run r db = Inr db'" and "r_status r \<in> {''running'', ''completed'', ''failed''}"
  shows "platform_typed db'"
  using assms by (auto simp: platform_typed_def users_inv_def insert_run_def run_typed_def split: if_splits)

lemma typed_update_runs [typed_rules]:
  assumes "platform_typed db" and "\<And>r. r_id (f r) = r_id r \<and> r_session (f r) = r_session r"
    and "\<And>r. r_status (f r) \<in> {''running'', ''completed'', ''failed''}"
  shows "platform_typed (update_runs P f db)"
  using assms unfolding platform_typed_def users_inv_def update_runs_def
  by (auto simp: run_typed_def intro!: table_ok_map)

lemma typed_insert_task [typed_rules]:
  assumes "platform_typed db" and "insert_task t db = Inr db'" and "task_typed t"
  shows "platform_typed db'"
  using assms by (auto simp: platform_typed_def users_inv_def insert_task_Inr)

lemma typed_update_tasks [typed_rules]:
  assumes "platform_typed db" and "\<And>t. t_id (f t) = t_id t \<and> t_type (f t) = t_type t \<and> t_session (f t) = t_session t \<and> t_run (f t) = t_run t" and "\<And>t. t_status (f t) \<in> terminal"
  shows "platform_typed (update_tasks P f db)"
  using assms unfolding platform_typed_def users_inv_def update_tasks_def
  by (auto simp: task_typed_def intro!: table_ok_map)

lemma typed_insert_step [typed_rules]: "platform_typed db \<Longrightarrow> insert_step x db = Inr db' \<Longrightarrow> step_typed x \<Longrightarrow> platform_typed db'"
  by (auto simp: insert_step_def platform_typed_def users_inv_def)

text \<open>Documents and data sources.\<close>

lemma typed_insert_kdoc [typed_rules]:
  "platform_typed db \<Longrightarrow> insert_kdoc k db = Inr db' \<Longrightarrow> kdoc_typed k \<Longrightarrow> platform_typed db'"
  by (auto simp: insert_kdoc_def platform_typed_def users_inv_def split: if_splits)

lemma typed_update_kdocs [typed_rules]:
  assumes "platform_typed db" and "\<And>k. k_id (f k) = k_id k" and "\<And>k. kdoc_typed (f k)"
  shows "platform_typed (db\<lparr>kdocs := map (\<lambda>k. if P k then f k else k) (kdocs db)\<rparr>)"
  using assms unfolding platform_typed_def users_inv_def by (auto intro!: table_ok_map)

lemma typed_insert_dsource [typed_rules]:
  assumes "platform_typed db" and "insert_dsource d db = Inr db'" and "dsource_typed {ds_ws d} d"
  shows "platform_typed db'"
proof -
  have "db' = db\<lparr>dsources := dsources db @ [d]\<rparr>" "ds_id d \<notin> ds_id ` set (dsources db)" "dsource_typed (set (workspaces db)) d"
    using assms(2,3) by (auto simp: insert_dsource_def dsource_typed_def split: if_splits)
  then show ?thesis using assms(1)
    by (auto simp: platform_typed_def users_inv_def)
qed

lemma typed_update_dsources [typed_rules]:
  assumes "platform_typed db" and "\<And>d. ds_id (f d) = ds_id d" and "\<And>d ws. ds_ws d \<in> ws \<Longrightarrow> dsource_typed ws (f d)"
  shows "platform_typed (update_dsources P f db)"
  using assms unfolding platform_typed_def users_inv_def update_dsources_def
  by (auto simp: dsource_typed_def image_upd simp del: set_map intro!: table_ok_map)

lemma typed_delete_dsources [typed_rules]:
  assumes "platform_typed db"
  shows "platform_typed (delete_dsources P db)"
proof -
  let ?gone = "ds_id ` {d \<in> set (dsources db). P d}" and ?db = "delete_dsources P db"
  let ?ty = "\<lambda>dss. session_typed (set (workspaces db)) (u_id ` set (users db)) dss (dataset_ids db)"
  have rest: "Some i \<notin> Some ` ?gone \<Longrightarrow> i \<in> ds_id ` set (dsources db) \<Longrightarrow> i \<in> ds_id ` {d \<in> set (dsources db). \<not> P d}" for i by blast
  let ?f = "\<lambda>s. if s_ds s \<in> Some ` ?gone then s\<lparr>s_ds := None\<rparr> else s"
  have ids: "s_id ` set (map ?f (sessions db)) = session_ids db" by (rule image_upd) simp
  have "table_ok s_id (?ty (ds_id ` set (dsources db))) (map ?f (sessions db))"
    using assms unfolding platform_typed_def by (intro table_ok_map) (auto simp: session_typed_def)
  then have "table_ok s_id (?ty (ds_id ` set (dsources ?db))) (map ?f (sessions db))"
    by (rule table_ok_mono) (auto simp: delete_dsources_def session_typed_def Let_def rest split: if_splits)
  then show ?thesis
    using assms ids unfolding platform_typed_def users_inv_def
    by (simp add: delete_dsources_def Let_def table_ok_filter del: set_map)
qed

text \<open>Datasets, their permissions, tables and fields.\<close>

lemma typed_insert_dataset [typed_rules]:
  "platform_typed db \<Longrightarrow> insert_dataset d db = Inr db' \<Longrightarrow> dataset_typed d \<Longrightarrow> platform_typed db'"
  by (auto simp: insert_dataset_def platform_typed_def users_inv_def split: if_splits)

lemma typed_update_datasets [typed_rules]:
  assumes "platform_typed db" and "\<And>d. d_id (f d) = d_id d" and "\<And>d. dataset_typed d \<Longrightarrow> dataset_typed (f d)"
  shows "platform_typed (update_datasets P f db)"
  using assms unfolding platform_typed_def users_inv_def update_datasets_def
  by (auto simp: image_upd simp del: set_map intro!: table_ok_map)

lemma typed_insert_dperm [typed_rules]:
  "platform_typed db \<Longrightarrow> insert_dperm p db = Inr db' \<Longrightarrow> dperm_typed (dataset_ids db) p \<Longrightarrow> platform_typed db'"
  by (auto simp: insert_dperm_def platform_typed_def users_inv_def split: if_splits)

lemma typed_upsert_dperm [typed_rules]:
  assumes "platform_typed db" and "dperm_typed (dataset_ids db) p"
  shows "platform_typed (upsert_dperm p db)"
  using assms unfolding platform_typed_def users_inv_def upsert_dperm_def
  by (auto simp: dperm_typed_def intro!: table_ok_map)

lemma typed_filter_dperms [typed_rules]: "platform_typed db \<Longrightarrow> platform_typed (db\<lparr>dperms := filter P (dperms db)\<rparr>)"
  by (auto simp: platform_typed_def users_inv_def intro: table_ok_filter)

lemma typed_update_dtables [typed_rules]:
  assumes "platform_typed db" and "\<And>t. dt_id (f t) = dt_id t \<and> dt_dataset (f t) = dt_dataset t \<and> dt_name (f t) = dt_name t"
  shows "platform_typed (db\<lparr>dtables := map (\<lambda>t. if P t then f t else t) (dtables db)\<rparr>)"
  using assms unfolding platform_typed_def users_inv_def
  by (auto simp: dtable_typed_def image_upd simp del: set_map intro!: table_ok_map)

lemma typed_insert_dtable [typed_rules]:
  "platform_typed db \<Longrightarrow> insert_dtable t db = Inr db' \<Longrightarrow> dtable_typed (dataset_ids db) t \<Longrightarrow> platform_typed db'"
  by (auto simp: insert_dtable_def platform_typed_def users_inv_def split: if_splits)

text \<open>
  The fields of a new table are inserted one by one. Names already given to the table must not
  come again, which \<open>ValidateFields\<close> made sure of.
\<close>

lemma typed_insert_fields:
  assumes "insert_fields e tid i fs db = Inr db'" and "platform_typed db" and "tid \<in> dt_id ` set (dtables db)"
    and "list_all valid_field fs" and "distinct (map fd_name fs)"
    and "\<forall>f \<in> set (tfields db). tf_table f = tid \<longrightarrow> tf_name f \<notin> fd_name ` set fs"
  shows "platform_typed db'"
  using assms
proof (induction fs arbitrary: i db)
  case (Cons f fs)
  let ?row = "field_row e tid i f"
  obtain db1 where db1: "insert_tfield ?row db = Inr db1" and rest: "insert_fields e tid (Suc i) fs db1 = Inr db'"
    using Cons.prems(1) by (auto simp: exec_Inr_iff split: sum.splits)
  have eq: "db1 = db\<lparr>tfields := tfields db @ [?row]\<rparr>" and fresh: "tf_id ?row \<notin> tf_id ` set (tfields db)"
    using db1 by (auto simp: insert_tfield_def split: if_splits)
  have row: "tf_table ?row = tid" "tf_name ?row = fd_name f" by (simp_all add: field_row_def)
  have "tfield_typed (dt_id ` set (dtables db)) ?row"
    using Cons.prems(3,4) by (simp add: tfield_typed_def field_row_def valid_field_def IsValidFieldType_def)
  moreover have "(tid, fd_name f) \<notin> (\<lambda>f. (tf_table f, tf_name f)) ` set (tfields db)"
    using Cons.prems(6) by auto
  ultimately have "platform_typed db1"
    using Cons.prems(2) fresh unfolding eq platform_typed_def users_inv_def by (simp add: row)
  then show ?case
    by (rule Cons.IH [OF rest]) (use Cons.prems(3-6) in \<open>auto simp: eq row\<close>)
qed simp

section \<open>Handlers keep the types\<close>

lemma typed_exec_log:
  assumes "platform_typed db" and "\<And>db'. stmt db = Inr db' \<Longrightarrow> platform_typed db'"
  shows "platform_typed (exec_log e k stmt db)"
  using assms by (cases rule: exec_log_cases [of e k stmt db]) auto

lemma typed_user_effect: "user_effect co req db db' \<Longrightarrow> platform_typed db \<Longrightarrow> platform_typed db'"
proof (induction rule: user_effect.induct)
  case (self_created u db db' co req)
  then show ?case by (auto intro: typed_insert_user)
next
  case (created co u db db' req)
  then show ?case by (auto intro: typed_insert_user)
next
  case (role_set co r i db t ts req)
  then show ?case by (blast intro: typed_set_role)
next
  case (requested p db db' co req)
  then show ?case by (blast intro: typed_insert_preq)
next
  case (approved co p db i b rv n)
  then have "pr_role p \<in> set validRoles" by (auto simp: platform_typed_def intro: users_inv_preq_role)
  with approved show ?case by (blast intro: typed_set_role typed_decide)
qed (simp_all only: typed_delete_users typed_decide)

lemma typed_user_api [typed_rules]: "platform_typed db \<Longrightarrow> platform_typed (snd (user_api e co req db))"
  using user_api_effect [of e co req db] typed_user_effect by (metis prod.collapse)

lemma typed_EnsureAdminUser [typed_rules]: "platform_typed db \<Longrightarrow> platform_typed (snd (EnsureAdminUser e em pw db))"
  by (auto simp: EnsureAdminUser_def exec_Inr_iff Let_def split: sum.splits option.splits intro: typed_insert_user)

lemma counted_dataset: "0 < count_or_zero e k (filter (\<lambda>x. d_id x = d \<and> Q x) (datasets db)) \<Longrightarrow> d \<in> dataset_ids db"
  by (drule count_or_zero_pos) (auto simp: filter_empty_conv)

lemma typed_CreateSession [typed_rules]:
  assumes "platform_typed db"
  shows "platform_typed (snd (CreateSession e c b db))"
proof (cases "create_session_check e c b db")
  case None
  have "\<forall>d. s_dataset (session_row e c b) = Some d \<longrightarrow> d \<in> dataset_ids db"
  proof (intro allI impI)
    fix d assume d: "s_dataset (session_row e c b) = Some d"
    then have "0 < count_or_zero e 1 (filter (\<lambda>x. d_id x = d \<and> d_status x \<noteq> ''deleted'') (datasets db))"
      using None by (auto simp: create_session_check_def session_row_def Let_def split: if_splits)
    then show "d \<in> dataset_ids db" by (rule counted_dataset)
  qed
  moreover have "s_title (session_row e c b) \<noteq> []" by (simp add: session_row_def cs_title_of_def Let_def)
  ultimately show ?thesis using assms None
    by (auto simp: CreateSession_def exec_Inr_iff split: sum.splits intro: typed_insert_session)
qed (use assms in \<open>simp add: CreateSession_def\<close>)

lemma typed_dsource_handlers [typed_rules]:
  assumes "platform_typed db"
  shows "platform_typed (fst (snd (CreateDataSource e k l c bo (db, rdb))))"
    and "platform_typed (snd (UpdateDataSource e k c i bo db))"
    and "platform_typed (snd (DeleteDataSource e c i db))"
proof -
  have check: "b_kind b = ''mysql'' \<and> b_name b \<noteq> [] \<and> b_host b \<noteq> [] \<and> b_port b \<noteq> 0 \<and> b_database b \<noteq> [] \<and> b_username b \<noteq> [] \<and> b_sslmode b \<noteq> []"
    if "check_ds_body bo = Inr b" for b
    using that by (auto simp: check_ds_body_def Let_def split: option.splits if_splits)
  show "platform_typed (fst (snd (CreateDataSource e k l c bo (db, rdb))))"
    using assms by (auto simp: CreateDataSource_def exec_Inr_iff dsource_typed_def split: prod.splits sum.splits bool.splits
        dest!: check intro: typed_insert_dsource)
  show "platform_typed (snd (UpdateDataSource e k c i bo db))"
    using assms by (auto simp: UpdateDataSource_def exec_Inr_iff Let_def dsource_typed_def split: sum.splits
        dest!: check intro!: typed_update_dsources)
  show "platform_typed (snd (DeleteDataSource e c i db))"
    using assms by (auto simp: DeleteDataSource_def exec_Inr_iff Let_def split: sum.splits intro: typed_delete_dsources)
qed

lemma typed_dataset_handlers [typed_rules]:
  assumes "platform_typed db"
  shows "platform_typed (fst (fst (snd (CreateDataset e srv co bn (db, mgr)))))"
    and "platform_typed (snd (UpdateDataset e co did bn db))"
    and "platform_typed (fst (fst (snd (DeleteDataset e srv co did (db, mgr)))))"
    and "platform_typed (snd (GrantDatasetAccess e co did bg db))"
    and "platform_typed (snd (RevokeDatasetAccess e co did bn db))"
proof -
  have create: "platform_typed (exec_log e 2 (insert_dperm \<lparr>dp_dataset = uuid e 1, dp_user = u, dp_level = ''admin''\<rparr>) db1)"
    if "insert_dataset (dataset_row e name my u) db = Inr db1" "name \<noteq> []" for name my u db1
  proof -
    have "platform_typed db1" using assms that by (auto simp: dataset_typed_def dataset_row_def intro: typed_insert_dataset)
    moreover have "uuid e 1 \<in> dataset_ids db1" using that(1) by (auto simp: insert_dataset_def dataset_row_def split: if_splits)
    ultimately show ?thesis
      by (intro typed_exec_log) (assumption, erule (1) typed_insert_dperm, simp add: dperm_typed_def)
  qed
  show "platform_typed (fst (fst (snd (CreateDataset e srv co bn (db, mgr)))))"
    using assms create by (auto simp: CreateDataset_def keep_def exec_Inr_iff Let_def split: option.splits prod.splits sum.splits)
  show "platform_typed (snd (UpdateDataset e co did bn db))"
    using assms by (auto simp: UpdateDataset_def exec_Inr_iff dataset_typed_def Let_def split: option.splits sum.splits
        intro!: typed_update_datasets)
  show "platform_typed (fst (fst (snd (DeleteDataset e srv co did (db, mgr)))))"
    using assms by (auto simp: DeleteDataset_def keep_def exec_Inr_iff dataset_typed_def Let_def split: option.splits prod.splits sum.splits
        intro!: typed_update_datasets)
  show "platform_typed (snd (GrantDatasetAccess e co did bg db))"
    using assms by (auto simp: GrantDatasetAccess_def exec_Inr_iff dperm_typed_def Let_def split: option.splits prod.splits sum.splits
        intro!: typed_upsert_dperm elim: counted_dataset)
  show "platform_typed (snd (RevokeDatasetAccess e co did bn db))"
    using assms by (auto simp: RevokeDatasetAccess_def exec_Inr_iff split: option.splits sum.splits intro: typed_filter_dperms)
qed

lemma typed_table_tx:
  assumes "platform_typed db" and tx: "table_tx e t flds db = Inr db'" and "ValidateFields flds = None"
    and "dtable_typed (dataset_ids db) t"
  shows "platform_typed db'"
proof -
  obtain db1 where db1: "insert_dtable t db = Inr db1" and flds: "insert_fields e (dt_id t) 0 flds db1 = Inr db'"
    using tx by (auto simp: table_tx_def exec_Inr_iff split: option.splits sum.splits)
  have eq: "db1 = db\<lparr>dtables := dtables db @ [t]\<rparr>" and fresh: "dt_id t \<notin> dt_id ` set (dtables db)"
    using db1 by (auto simp: insert_dtable_def split: if_splits)
  have "\<forall>f \<in> set (tfields db). tf_table f \<noteq> dt_id t"
  proof -
    have "\<forall>f \<in> set (tfields db). tf_table f \<in> dt_id ` set (dtables db)"
      using assms(1) by (simp add: platform_typed_def table_ok_def tfield_typed_def list_all_iff)
    with fresh show ?thesis by metis
  qed
  moreover have "list_all valid_field flds" "distinct (map fd_name flds)"
    using assms(3) by (simp_all add: ValidateFields_def validate_loop_iff)
  ultimately show ?thesis
    by (intro typed_insert_fields [OF flds typed_insert_dtable [OF assms(1) db1 assms(4)]]) (auto simp: eq)
qed

lemma typed_table_handlers [typed_rules]:
  assumes "platform_typed db"
  shows "platform_typed (fst (fst (snd (CreateDatasetTable e srv co did bt (db, mgr)))))"
    and "platform_typed (fst (fst (snd (DeleteDatasetTable e srv co did tid (db, mgr)))))"
proof -
  have dtable: "dtable_typed (dataset_ids db) (table_row e c did name display my)"
    if "query_row e k (map d_mysql (filter (\<lambda>d. d_id d = did \<and> d_status d \<noteq> ''deleted'') (datasets db))) = Inr x" "name \<noteq> []"
    for k c name display my x
    using query_row_mem [OF that(1)] that(2) by (auto simp: dtable_typed_def table_row_def)
  show "platform_typed (fst (fst (snd (CreateDatasetTable e srv co did bt (db, mgr)))))"
    using assms by (auto simp: CreateDatasetTable_def keep_def Let_def split: option.splits prod.splits sum.splits
        intro: typed_table_tx dtable)
  show "platform_typed (fst (fst (snd (DeleteDatasetTable e srv co did tid (db, mgr)))))"
    using assms by (auto simp: DeleteDatasetTable_def keep_def exec_Inr_iff Let_def split: option.splits prod.splits sum.splits
        intro!: typed_update_dtables)
qed

section \<open>Messages, tasks and callbacks\<close>

text \<open>The database is well typed and the event bus well formed.\<close>

definition hub_typed :: "hub \<Rightarrow> bool" where
  "hub_typed h \<longleftrightarrow> platform_typed (hdb h) \<and> bus_inv (hbus h)"

lemma hub_typed_frame [simp]:
  "hub_typed (h\<lparr>hnats := x\<rparr>) = hub_typed h" "hub_typed (h\<lparr>htimers := t\<rparr>) = hub_typed h"
  "hub_typed (h\<lparr>harmed := t\<rparr>) = hub_typed h" "hub_typed (h\<lparr>htimeouts := n\<rparr>) = hub_typed h"
  "hub_typed (h\<lparr>hdb := d\<rparr>) \<longleftrightarrow> platform_typed d \<and> bus_inv (hbus h)"
  by (simp_all add: hub_typed_def)

lemma hub_typed_event [simp, intro]: "hub_typed h \<Longrightarrow> hub_typed (with_event sid typ data h)"
  by (simp add: hub_typed_def with_event_def bus_inv_publish)

lemma hub_typed_publish [simp, intro]: "hub_typed h \<Longrightarrow> hub_typed (h\<lparr>hbus := bus_publish sid typ data (hbus h)\<rparr>)"
  by (simp add: hub_typed_def bus_inv_publish)

lemma nullif_nonempty [simp]: "nullif s \<noteq> Some []"
  by (simp add: nullif_def)

lemma typed_EnqueueTask [typed_rules]:
  "hub_typed h \<Longrightarrow> ty \<in> {''agent_pipeline'', ''knowledge_index''} \<Longrightarrow> hub_typed (snd (EnqueueTask e ne c ws sid rid ty p h))"
  by (auto simp: EnqueueTask_def startTimeoutWatcher_def exec_Inr_iff Let_def hub_typed_def task_typed_def live_def
      split: sum.splits option.splits elim!: typed_insert_task)

lemma typed_watcher_check [typed_rules]: "hub_typed h \<Longrightarrow> hub_typed (watcher_check e w h)"
  by (simp add: watcher_check_def Let_def split: sum.splits)

lemma typed_watcher_update [typed_rules]: "hub_typed h \<Longrightarrow> hub_typed (watcher_update e c w h)"
  by (auto simp: watcher_update_def exec_Inr_iff Let_def hub_typed_def terminal_def
      split: prod.splits sum.splits intro!: typed_update_tasks bus_inv_publish)

lemma typed_reaper_tick [typed_rules]: "hub_typed h \<Longrightarrow> hub_typed (reaper_tick e h)"
  by (auto simp: reaper_tick_def hub_typed_def terminal_def intro!: typed_exec_log typed_update_tasks)

lemma typed_finish_run [typed_rules]: "hub_typed h \<Longrightarrow> hub_typed (finish_run e st r m h)"
proof -
  assume h: "hub_typed h"
  define rs where "rs = (if st = ''failed'' then ''failed'' else ''completed'')"
  let ?h1 = "h\<lparr>hdb := exec_log e 2 (\<lambda>d. Inr (update_runs (\<lambda>x. r_id x = r) (\<lambda>x. x\<lparr>r_status := rs\<rparr>) d)) (hdb h)\<rparr>"
  have h1: "hub_typed ?h1"
    using h by (auto simp: hub_typed_def rs_def intro!: typed_exec_log typed_update_runs)
  have "hub_typed (g\<lparr>hdb := exec_log e 4 (insert_message \<lparr>m_id = i, m_session = sid, m_role = ''assistant'', m_content = v, m_created = t\<rparr>) (hdb g),
          hbus := bus_publish sid ''result'' v (hbus g)\<rparr>)" if "hub_typed g" for g i sid v t
    using that by (auto simp: hub_typed_def intro!: typed_exec_log bus_inv_publish elim: typed_insert_message)
  from this [OF h1] h1 show ?thesis by (simp add: finish_run_def Let_def rs_def [symmetric] split: sum.splits)
qed

lemma foldl_max: "(i :: int) \<le> foldl max i js"
proof (induction js arbitrary: i)
  case (Cons j js)
  from Cons [of "max i j"] show ?case by simp
qed simp

lemma next_index_nonneg:
  assumes "list_all step_typed ss"
  shows "0 \<le> next_index r ss"
proof (cases "map st_index (filter (\<lambda>s. st_run s = r) ss)")
  case (Cons i js)
  then have "i \<in> st_index ` set ss" by (auto simp: Cons_eq_map_conv filter_eq_Cons_iff)
  with assms have "0 \<le> i" by (auto simp: step_typed_def list_all_iff)
  with Cons foldl_max [of i js] show ?thesis by (simp add: next_index_def)
qed (simp add: next_index_def)

lemma typed_callbacks [typed_rules]:
  assumes "hub_typed h"
  shows "hub_typed (snd (TaskCallback e u req h))" and "hub_typed (snd (RunStepCallback e sreq h))"
    and "hub_typed (snd (KnowledgeDocCallback e d st cd n h))"
proof -
  show "hub_typed (snd (TaskCallback e u req h))"
    using prod.collapse [of "TaskCallback e u req h", symmetric]
  proof (cases rule: TaskCallback_cases)
    case (2 res)
    then have "hub_typed (task_result req res h)"
      using assms by (auto simp: hub_typed_def terminal_def intro!: typed_update_tasks)
    with 2(2) show ?thesis by (auto simp del: hub_typed_frame intro: typed_finish_run)
  qed (use assms in simp_all)
  have "hub_typed (h\<lparr>hdb := exec_log e 1 (insert_step x) (hdb h)\<rparr>)" if "step_typed x" for x
    using assms that by (auto simp: hub_typed_def intro!: typed_exec_log elim: typed_insert_step)
  moreover define i where "i = (case query_row e 0 [next_index (sc_run sreq) (steps (hdb h))] of Inl _ \<Rightarrow> 0 | Inr i \<Rightarrow> i)"
  have "0 \<le> i"
    using assms next_index_nonneg [of "steps (hdb h)" "sc_run sreq"]
    by (auto simp: hub_typed_def platform_typed_def query_row_Inr_iff i_def split: sum.splits)
  moreover have "bus_inv (hbus h)" using assms by (simp add: hub_typed_def)
  ultimately show "hub_typed (snd (RunStepCallback e sreq h))"
    unfolding RunStepCallback_def Let_def i_def [symmetric]
    by (simp add: hub_typed_def bus_inv_publish step_typed_def split: sum.split)
  show "hub_typed (snd (KnowledgeDocCallback e d st cd n h))"
    using assms by (auto simp: KnowledgeDocCallback_def Let_def exec_def hub_typed_def kdoc_typed_def split: option.splits
        intro!: typed_update_kdocs)
qed

lemma typed_index_doc: "hub_typed (ks_hub s) \<Longrightarrow> hub_typed (ks_hub (snd (index_doc w ws i t c x p s)))"
  using typed_EnqueueTask [of "ks_hub s" "''knowledge_index''" "kw_task_env w" "kw_nats_err w" "kw_async w" ws "[]" "[]" "JObj p"]
  by (auto simp: index_doc_def updateDocStatus_def exec_def hub_typed_def kdoc_typed_def Let_def
      split: option.splits sum.splits prod.splits intro!: typed_update_kdocs)

lemma typed_knowledge [typed_rules]:
  assumes "hub_typed (ks_hub s)"
  shows "hub_typed (ks_hub (snd (UploadKnowledgeDoc w c ws bd s)))" and "hub_typed (ks_hub (snd (UploadKnowledgeDocFromFile w c ws form s)))"
proof -
  have doc: "hub_typed ((ks_hub s)\<lparr>hdb := db'\<rparr>)" if "insert_kdoc (kdoc_row e c i t ty hs) (hdb (ks_hub s)) = Inr db'" for e i t ty hs db'
    using assms that by (auto simp: hub_typed_def kdoc_typed_def kdoc_row_def elim!: typed_insert_kdoc)
  show "hub_typed (ks_hub (snd (UploadKnowledgeDoc w c ws bd s)))"
    using assms by (auto simp: UploadKnowledgeDoc_def exec_Inr_iff Let_def split: option.splits sum.splits
        intro!: typed_index_doc dest: doc)
  show "hub_typed (ks_hub (snd (UploadKnowledgeDocFromFile w c ws form s)))"
    using assms by (auto simp: UploadKnowledgeDocFromFile_def exec_Inr_iff Let_def split: option.splits sum.splits prod.splits
        intro!: typed_index_doc dest: doc)
qed

text \<open>The bus stays well formed whatever the tables hold.\<close>

lemma bus_inv_EnqueueTask: "bus_inv (hbus h) \<Longrightarrow> bus_inv (hbus (snd (EnqueueTask e ne c ws sid rid ty p h)))"
  by (simp add: EnqueueTask_def startTimeoutWatcher_def Let_def split: sum.split option.split)

lemma bus_inv_watchers:
  assumes "bus_inv (hbus h)"
  shows "bus_inv (hbus (watcher_check e w h))" and "bus_inv (hbus (watcher_update e c w h))" and "bus_inv (hbus (reaper_tick e h))"
  using assms by (simp_all add: watcher_check_def watcher_update_def reaper_tick_def Let_def bus_inv_publish split: sum.split prod.split)

lemma bus_inv_finish_run: "bus_inv (hbus h) \<Longrightarrow> bus_inv (hbus (finish_run e st r m h))"
  by (simp add: finish_run_def Let_def bus_inv_publish split: sum.split)

lemma bus_inv_callbacks:
  assumes "bus_inv (hbus h)"
  shows "bus_inv (hbus (snd (TaskCallback e u req h)))" and "bus_inv (hbus (snd (RunStepCallback e sreq h)))"
    and "bus_inv (hbus (snd (KnowledgeDocCallback e d st cd n h)))"
proof -
  have "bus_inv (hbus (task_result req res h))" for res using assms by simp
  with prod.collapse [of "TaskCallback e u req h", symmetric] assms show "bus_inv (hbus (snd (TaskCallback e u req h)))"
    by (cases rule: TaskCallback_cases) (auto intro!: bus_inv_finish_run)
  show "bus_inv (hbus (snd (RunStepCallback e sreq h)))"
    using assms unfolding RunStepCallback_def Let_def by (simp add: bus_inv_publish split: sum.split)
  show "bus_inv (hbus (snd (KnowledgeDocCallback e d st cd n h)))"
    using assms by (simp add: KnowledgeDocCallback_def Let_def split: option.split sum.split)
qed

lemma bus_inv_index_doc: "bus_inv (hbus (ks_hub s)) \<Longrightarrow> bus_inv (hbus (ks_hub (snd (index_doc w ws i t c x p s))))"
  using bus_inv_EnqueueTask [of "ks_hub s" "kw_task_env w" "kw_nats_err w" "kw_async w" ws "[]" "[]" "''knowledge_index''" "JObj p"]
  by (auto simp: index_doc_def Let_def split: option.splits sum.splits prod.splits)

lemma bus_inv_knowledge:
  assumes "bus_inv (hbus (ks_hub s))"
  shows "bus_inv (hbus (ks_hub (snd (UploadKnowledgeDoc w c ws bd s))))" and "bus_inv (hbus (ks_hub (snd (UploadKnowledgeDocFromFile w c ws form s))))"
  using assms
  by (auto simp: UploadKnowledgeDoc_def UploadKnowledgeDocFromFile_def Let_def intro!: bus_inv_index_doc split: option.splits sum.splits prod.splits)

lemma mgr_inv_pool_for [inv_rules]: "mgr_inv m \<Longrightarrow> pool_for srv d n m = (r, m') \<Longrightarrow> mgr_inv m'"
  using cached.get_inv by (metis snd_conv)

section \<open>Invariants of a message\<close>

text \<open>
  A message reaches the database, the bus and the pools only through a few operations. What these
  keep, the whole of \<open>PostMessage\<close> keeps, on every path, if the statements it sent keep it too.
\<close>

locale message_invariant =
  fixes I :: "hub \<Rightarrow> bool" and M :: "manager \<Rightarrow> bool"
  assumes event: "I h \<Longrightarrow> I (with_event sid typ data h)"
    and message: "I h \<Longrightarrow> role \<in> {''user'', ''assistant''} \<Longrightarrow> I (with_db (exec_log e k (insert_message (post_row e k sid role v))) h)"
    and run: "I h \<Longrightarrow> I (with_db (exec_log e k (insert_run \<lparr>r_id = rid, r_session = sid, r_status = ''running'', r_reason = None\<rparr>)) h)"
    and completed: "I h \<Longrightarrow> I (with_db (exec_log e k (\<lambda>d. Inr (update_runs (\<lambda>r. r_id r = rid) (\<lambda>r. r\<lparr>r_status := ''completed''\<rparr>) d))) h)"
    and failed: "I h \<Longrightarrow> I (with_db (exec_log e k (\<lambda>d. Inr (update_runs (\<lambda>r. r_id r = rid) (\<lambda>r. r\<lparr>r_status := ''failed'', r_reason := Some msg\<rparr>) d))) h)"
    and task: "I h \<Longrightarrow> I (snd (EnqueueTask te ne c ws sid rid ''agent_pipeline'' p h))"
    and pool: "M m \<Longrightarrow> M (snd (pool_for srv d n m))"
begin

text \<open>The statements keep \<open>I\<close>; then the request does.\<close>

definition stable :: "'r msg_world \<Rightarrow> (nat option \<times> dbcall) list \<Rightarrow> bool" where
  "stable w calls \<longleftrightarrow> (\<forall>h. I h \<longrightarrow> I (with_db (fold (call_effect (mw_hub_sql w)) calls) h))"

definition msg_keeps :: "'r msg_world \<Rightarrow> 'r msg_result \<Rightarrow> bool" where
  "msg_keeps w res \<longleftrightarrow> (case res of (r, s, calls) \<Rightarrow> (stable w calls \<longrightarrow> I (as_hub s)) \<and> M (as_mgr s))"

lemma finishRunFailed: "I h \<Longrightarrow> I (finishRunFailed e rid sid msg c h)"
  by (simp add: finishRunFailed_def Let_def event message failed)

lemma publishSyncResult: "I h \<Longrightarrow> I (snd (publishSyncResult w rid sid res h))"
  by (simp add: publishSyncResult_def Let_def event message completed)

lemma start_run: "I h \<Longrightarrow> I (start_run w sid rid b h)"
  by (simp add: start_run_def Let_def event message run)

lemma kept: "I (as_hub s) \<Longrightarrow> M (as_mgr s) \<Longrightarrow> msg_keeps w (r, s, calls)"
  by (simp add: msg_keeps_def)

lemma fail_run: "I (as_hub s) \<Longrightarrow> M (as_mgr s) \<Longrightarrow> msg_keeps w (fail_run w rid sid msg code r calls s)"
  by (simp add: msg_keeps_def fail_run_def finishRunFailed)

lemma fail_after: "I (as_hub s) \<Longrightarrow> M (as_mgr s) \<Longrightarrow> msg_keeps w (fail_run w rid sid msg code r calls (sql_done w calls s))"
  by (simp add: msg_keeps_def fail_run_def sql_done_def stable_def finishRunFailed)

lemma finish_ok: "I (as_hub s) \<Longrightarrow> M (as_mgr s) \<Longrightarrow> msg_keeps w (finish_ok w rid sid res calls s)"
  by (simp add: msg_keeps_def finish_ok_def publishSyncResult case_prod_beta)

lemma finish_after: "I (as_hub s) \<Longrightarrow> M (as_mgr s) \<Longrightarrow> msg_keeps w (finish_ok w rid sid res calls (sql_done w calls s))"
  by (simp add: msg_keeps_def finish_ok_def sql_done_def stable_def publishSyncResult case_prod_beta)

lemma enqueue_pipeline:
  assumes "I (as_hub s)" and "M (as_mgr s)"
  shows "msg_keeps w (enqueue_pipeline w ws sid rid b j s)"
proof (cases "EnqueueTask (mw_task_env w) (mw_nats_err w) (mw_async w) ws sid rid ''agent_pipeline''
           (JObj [(''user_message'', JStr (mb_text b)), (''schema_json'', JStr j)]) (as_hub s)")
  case (Pair q h)
  with task [OF assms(1)] have "I h" by (metis snd_conv)
  with assms(2) Pair show ?thesis by (cases q) (simp_all add: enqueue_pipeline_def fail_run kept)
qed

lemma pool_for_M: "M m \<Longrightarrow> pool_for srv d n m = (r, m') \<Longrightarrow> M m'"
  using pool by (metis snd_conv)

lemmas ends = fail_run finish_ok fail_after finish_after enqueue_pipeline kept

lemma paths:
  assumes "I (as_hub s)" and "M (as_mgr s)"
  shows "msg_keeps w (postMessageToDataset w c sid rid b trace ds s)" and "msg_keeps w (postMessageToKnowledge w llm c sid rid b trace s)"
    and "msg_keeps w (postMessageToSource w c sid rid b trace s)"
proof -
  show "msg_keeps w (postMessageToDataset w c sid rid b trace ds s)"
    using assms unfolding postMessageToDataset_def
    by (auto simp: Let_def ends pool_for_M split: sum.splits prod.splits option.splits go_error.splits)
  show "msg_keeps w (postMessageToKnowledge w llm c sid rid b trace s)"
    using assms unfolding postMessageToKnowledge_def by (simp add: Let_def ends split: sum.splits option.splits)
  show "msg_keeps w (postMessageToSource w c sid rid b trace s)"
    using assms unfolding postMessageToSource_def
    by (simp add: Let_def ends split: sum.splits prod.splits option.splits go_error.splits)
qed

lemma PostMessage:
  assumes "I (as_hub s)" and "M (as_mgr s)" and "PostMessage w c trace sid bo s = (r, s', calls)"
  shows "(stable w calls \<longrightarrow> I (as_hub s')) \<and> M (as_mgr s')"
proof -
  have "msg_keeps w (PostMessage w c trace sid bo s)"
    using assms(1,2) unfolding PostMessage_def
    by (simp add: Let_def ends paths start_run split: prod.splits option.splits)
  then show ?thesis by (simp add: assms(3) msg_keeps_def)
qed

lemma stable_quiet: "hub_sql_frame (mw_hub_sql w) \<Longrightarrow> \<not> list_ex touches_platform (written calls) \<Longrightarrow> stable w calls"
  by (simp add: stable_def with_db_def call_effect_quiet)

end

interpretation typed: message_invariant hub_typed mgr_inv
proof unfold_locales
  show "hub_typed (with_db (exec_log e k (insert_message (post_row e k sid role v))) h)"
    if "hub_typed h" "role \<in> {''user'', ''assistant''}" for h role e k sid v
    using that by (auto simp: hub_typed_def with_db_def post_row_def intro!: typed_exec_log elim: typed_insert_message)
  show "hub_typed (with_db (exec_log e k (insert_run \<lparr>r_id = rid, r_session = sid, r_status = ''running'', r_reason = None\<rparr>)) h)"
    if "hub_typed h" for h e k rid sid
    using that by (auto simp: hub_typed_def with_db_def intro!: typed_exec_log elim: typed_insert_run)
qed (auto simp: hub_typed_def with_db_def intro!: typed_exec_log typed_update_runs intro: cached.get_inv
      simp: typed_EnqueueTask [unfolded hub_typed_def] with_event_def bus_inv_publish)

text \<open>
  A reference the code does not keep: a permission may be granted to a user who does not exist, and
  deleting a user leaves the permissions of that user behind.
\<close>

lemma grant_to_nobody:
  "\<exists>r db p. GrantDatasetAccess calm_env (Some (demo_super ''a'')) ''d1'' (Some (''ghost'', ''read'')) (demo_ds_db []) = (r, db)
     \<and> status r = StatusOK \<and> p \<in> set (dperms db) \<and> dp_user p \<notin> u_id ` set (users db)"
proof -
  have "ToLower (TrimSpace ''read'') = ''read''" by (simp add: trim_eval go_str)
  then show ?thesis
    by (simp add: GrantDatasetAccess_def demo_super_def count_or_zero_def query_row_def exec_def upsert_dperm_def demo_ds_db_def demo_dataset_def
        empty_platform_def IsSuperAdmin_def Let_def)
qed

lemma deleted_users_keep_permissions: "dperms (delete_users P db) = dperms db"
  by (simp add: delete_users_def delete_sessions_def Let_def)

end
