(* ===== verification/Routes.thy ===== *)
theory Routes
  imports Auth
begin

text \<open>
  The routing table of \<open>handlers.Routes\<close> (\<open>internal/handlers/handlers.go\<close>): methods,
  patterns, the authentication of the group \<open>/v1\<close> and the minimum role of a route. The router
  itself is the package chi: what the table needs of it is the locale \<open>router\<close> (it finds a
  route that matches, when there is one). A pattern element in braces matches one path element.
  The middleware that only observes a request is not part of the table: the metrics are in
  \<open>Telemetry\<close>, \<open>Recoverer\<close>, \<open>Timeout\<close> and logging are left out.
\<close>

section \<open>The table\<close>

record route =
  rt_method :: string
  rt_pattern :: string
  rt_auth :: bool
  rt_min :: "string option"
  rt_handler :: string

definition open_route :: "string \<Rightarrow> string \<Rightarrow> string \<Rightarrow> route" where
  "open_route m p h = \<lparr>rt_method = m, rt_pattern = p, rt_auth = False, rt_min = None, rt_handler = h\<rparr>"

definition v1 :: "string \<Rightarrow> string \<Rightarrow> string \<Rightarrow> route" where
  "v1 m p h = \<lparr>rt_method = m, rt_pattern = ''/v1'' @ p, rt_auth = True, rt_min = None, rt_handler = h\<rparr>"

definition v1_min :: "string \<Rightarrow> string \<Rightarrow> string \<Rightarrow> string \<Rightarrow> route" where
  "v1_min r m p h = \<lparr>rt_method = m, rt_pattern = ''/v1'' @ p, rt_auth = True, rt_min = Some r, rt_handler = h\<rparr>"

definition Routes :: "route list" where
  "Routes =
    [open_route ''*'' ''/metrics'' ''telemetry.Handler'',
     open_route ''GET'' ''/health'' ''Health'',
     open_route ''GET'' ''/version'' ''Version'',
     open_route ''POST'' ''/v1/auth/login'' ''Login'',
     open_route ''POST'' ''/v1/auth/self-register'' ''SelfRegister'',
     v1 ''GET'' ''/sessions'' ''ListSessions'',
     v1 ''POST'' ''/sessions'' ''CreateSession'',
     v1 ''GET'' ''/sessions/{sessionID}/messages'' ''ListMessages'',
     v1 ''POST'' ''/sessions/{sessionID}/messages'' ''PostMessage'',
     v1 ''GET'' ''/sessions/{sessionID}/stream'' ''SessionStream'',
     v1 ''POST'' ''/sessions/{sessionID}/sse-token'' ''SSEToken'',
     v1_min ''super_admin'' ''POST'' ''/auth/register'' ''Register'',
     v1_min ''super_admin'' ''GET'' ''/users'' ''ListUsers'',
     v1_min ''super_admin'' ''PUT'' ''/users/{id}/role'' ''ChangeUserRole'',
     v1_min ''super_admin'' ''DELETE'' ''/users/{id}'' ''DeleteUser'',
     v1 ''POST'' ''/auth/upgrade-request'' ''CreateUpgradeRequest'',
     v1_min ''super_admin'' ''GET'' ''/auth/upgrade-requests'' ''ListUpgradeRequests'',
     v1_min ''super_admin'' ''PUT'' ''/auth/upgrade-requests/{id}'' ''ReviewUpgradeRequest'',
     v1 ''GET'' ''/data-sources'' ''ListDataSources'',
     v1_min ''data_admin'' ''POST'' ''/data-sources'' ''CreateDataSource'',
     v1_min ''normal_user'' ''POST'' ''/data-sources/{id}/test'' ''TestDataSource'',
     v1_min ''super_admin'' ''PUT'' ''/data-sources/{id}'' ''UpdateDataSource'',
     v1_min ''super_admin'' ''DELETE'' ''/data-sources/{id}'' ''DeleteDataSource'',
     v1_min ''data_admin'' ''GET'' ''/workspaces/{workspaceID}/knowledge/docs'' ''ListKnowledgeDocs'',
     v1_min ''data_admin'' ''POST'' ''/workspaces/{workspaceID}/knowledge/docs'' ''UploadKnowledgeDoc'',
     v1_min ''data_admin'' ''POST'' ''/workspaces/{workspaceID}/knowledge/docs/upload'' ''UploadKnowledgeDocFromFile'',
     v1 ''GET'' ''/knowledge/docs/{docID}/download'' ''DownloadKnowledgeDoc'',
     v1 ''GET'' ''/runs/{runID}/report'' ''DownloadReport'',
     v1 ''GET'' ''/tasks/{taskID}'' ''TaskStatus'',
     v1_min ''normal_user'' ''POST'' ''/data/upload'' ''UploadData'',
     v1_min ''data_admin'' ''POST'' ''/data/execute'' ''ExecuteDataSQL'',
     v1 ''GET'' ''/datasets'' ''ListDatasets'',
     v1_min ''super_admin'' ''POST'' ''/datasets'' ''CreateDataset'',
     v1 ''GET'' ''/datasets/{id}'' ''GetDataset'',
     v1_min ''super_admin'' ''PUT'' ''/datasets/{id}'' ''UpdateDataset'',
     v1_min ''super_admin'' ''DELETE'' ''/datasets/{id}'' ''DeleteDataset'',
     v1_min ''super_admin'' ''POST'' ''/datasets/{id}/grant'' ''GrantDatasetAccess'',
     v1_min ''super_admin'' ''POST'' ''/datasets/{id}/revoke'' ''RevokeDatasetAccess'',
     v1 ''GET'' ''/datasets/{did}/tables'' ''ListDatasetTables'',
     v1_min ''data_admin'' ''POST'' ''/datasets/{did}/tables'' ''CreateDatasetTable'',
     v1 ''GET'' ''/datasets/{did}/tables/{tid}'' ''GetDatasetTable'',
     v1_min ''data_admin'' ''DELETE'' ''/datasets/{did}/tables/{tid}'' ''DeleteDatasetTable'',
     v1 ''GET'' ''/datasets/{did}/tables/{tid}/fields'' ''ListFields'']"

section \<open>Matching\<close>

definition is_param :: "string \<Rightarrow> bool" where
  "is_param s \<longleftrightarrow> HasPrefix s ''{''"

text \<open>A parameter takes a segment of the path, which may be empty unless it is the last one.\<close>

definition path_match :: "string \<Rightarrow> string \<Rightarrow> bool" where
  "path_match pat path \<longleftrightarrow>
     list_all2 (\<lambda>s x. is_param s \<or> s = x) (Split pat CHR ''/'') (Split path CHR ''/'')
     \<and> \<not> (is_param (last (Split pat CHR ''/'')) \<and> last (Split path CHR ''/'') = [])"

definition route_match :: "string \<Rightarrow> string \<Rightarrow> route \<Rightarrow> bool" where
  "route_match m path rt \<longleftrightarrow> (rt_method rt = ''*'' \<or> rt_method rt = m) \<and> path_match (rt_pattern rt) path"

text \<open>Two routes that some request could reach.\<close>

definition route_key :: "route \<Rightarrow> string \<times> string list" where
  "route_key rt = (rt_method rt, Split (rt_pattern rt) CHR ''/'')"

definition overlap :: "string \<times> string list \<Rightarrow> string \<times> string list \<Rightarrow> bool" where
  "overlap a b \<longleftrightarrow> (fst a = ''*'' \<or> fst b = ''*'' \<or> fst a = fst b)
     \<and> list_all2 (\<lambda>s t. is_param s \<or> is_param t \<or> s = t) (snd a) (snd b)"

fun pairwise :: "('a \<Rightarrow> 'a \<Rightarrow> bool) \<Rightarrow> 'a list \<Rightarrow> bool" where
  "pairwise P [] \<longleftrightarrow> True"
| "pairwise P (x # xs) \<longleftrightarrow> list_all (P x) xs \<and> pairwise P xs"

lemma both_match:
  assumes "route_match m path a" and "route_match m path b"
  shows "overlap (route_key a) (route_key b)"
proof -
  have "list_all2 (\<lambda>s t. is_param s \<or> is_param t \<or> s = t) xs ys"
    if "list_all2 (\<lambda>s x. is_param s \<or> s = x) xs zs" "list_all2 (\<lambda>s x. is_param s \<or> s = x) ys zs" for xs ys zs :: "string list"
    using that unfolding list_all2_conv_all_nth by metis
  then show ?thesis using assms by (auto simp: route_match_def path_match_def overlap_def route_key_def)
qed

lemma pairwise_unique:
  "pairwise (\<lambda>a b. \<not> Q a b) xs \<Longrightarrow> (\<And>a b. P a \<Longrightarrow> P b \<Longrightarrow> Q a b) \<Longrightarrow> length (filter P xs) \<le> 1"
proof (induction xs)
  case (Cons x xs)
  show ?case
  proof (cases "P x")
    case True
    with Cons.prems have "filter P xs = []" by (auto simp: filter_empty_conv list_all_iff)
    with True show ?thesis by simp
  qed (use Cons in simp)
qed simp

lemma Routes_disjoint: "pairwise (\<lambda>a b. \<not> overlap a b) (map route_key Routes)"
  by code_simp

lemma pairwise_map: "pairwise P (map f xs) = pairwise (\<lambda>a b. P (f a) (f b)) xs"
  by (induction xs) (auto simp: list_all_iff)

lemma Routes_unique: "length (filter (route_match m path) Routes) \<le> 1"
  using Routes_disjoint unfolding pairwise_map by (rule pairwise_unique) (rule both_match)

section \<open>The router\<close>

text \<open>
  What the table needs of chi: a lookup finds a matching route of the table whenever there is one,
  and nothing else. Since no two routes overlap, this determines the lookup, whatever precedence
  chi gives to patterns.
\<close>

locale router =
  fixes lookup :: "string \<Rightarrow> string \<Rightarrow> route option"
  assumes lookup_sound: "lookup m path = Some rt \<Longrightarrow> rt \<in> set Routes \<and> route_match m path rt"
    and lookup_complete: "rt \<in> set Routes \<Longrightarrow> route_match m path rt \<Longrightarrow> lookup m path \<noteq> None"
begin

lemma lookup_determined: "lookup m path = List.find (route_match m path) Routes"
proof (cases "filter (route_match m path) Routes")
  case Nil
  then have "lookup m path = None" using lookup_sound by (cases "lookup m path") (auto simp: filter_empty_conv)
  with Nil show ?thesis by (simp add: find_eq_hd_filter)
next
  case (Cons rt rts)
  then have "rts = []" using Routes_unique [of m path] by simp
  from Cons have "rt \<in> set (filter (route_match m path) Routes)" by simp
  then obtain rt' where rt': "lookup m path = Some rt'" using lookup_complete by fastforce
  with lookup_sound have "rt' \<in> set (filter (route_match m path) Routes)" by simp
  with Cons \<open>rts = []\<close> rt' show ?thesis by (simp add: find_eq_hd_filter)
qed

end

definition find_route :: "string \<Rightarrow> string \<Rightarrow> route option" where
  "find_route m path = List.find (route_match m path) Routes"

interpretation chi: router find_route
  by unfold_locales (auto simp: find_route_def find_Some_iff find_None_iff)

section \<open>Serving a request\<close>

text \<open>Either the answer of the middleware, or the route whose handler runs and its claims.\<close>

definition serve ::
  "jwtlib \<Rightarrow> int \<Rightarrow> string \<Rightarrow> (string \<Rightarrow> 'r \<Rightarrow> nat res) \<Rightarrow> 'r option \<Rightarrow> http_auth \<Rightarrow> route \<Rightarrow> response + (string \<times> Claims option)" where
  "serve L now secret rexists rdb r rt =
     (if \<not> rt_auth rt then Inr (rt_handler rt, None)
      else (case Auth L now secret rexists rdb r of
              Inl resp \<Rightarrow> Inl resp
            | Inr c \<Rightarrow>
                (case rt_min rt of
                   None \<Rightarrow> Inr (rt_handler rt, Some c)
                 | Some role \<Rightarrow>
                     (case RequireMinRole role (Some c) of
                        Some resp \<Rightarrow> Inl resp
                      | None \<Rightarrow> Inr (rt_handler rt, Some c)))))"

text \<open>Who may run which handler, stated by role.\<close>

definition public_handlers :: "string list" where
  "public_handlers = [''telemetry.Handler'', ''Health'', ''Version'', ''Login'', ''SelfRegister'']"

definition token_handlers :: "string list" where
  "token_handlers =
    [''ListSessions'', ''CreateSession'', ''ListMessages'', ''PostMessage'', ''SessionStream'', ''SSEToken'', ''CreateUpgradeRequest'',
     ''ListDataSources'', ''DownloadKnowledgeDoc'', ''DownloadReport'', ''TaskStatus'', ''ListDatasets'', ''GetDataset'',
     ''ListDatasetTables'', ''GetDatasetTable'', ''ListFields'']"

definition normal_user_handlers :: "string list" where
  "normal_user_handlers = [''TestDataSource'', ''UploadData'']"

definition data_admin_handlers :: "string list" where
  "data_admin_handlers =
    [''CreateDataSource'', ''ListKnowledgeDocs'', ''UploadKnowledgeDoc'', ''UploadKnowledgeDocFromFile'', ''ExecuteDataSQL'',
     ''CreateDatasetTable'', ''DeleteDatasetTable'']"

definition super_admin_handlers :: "string list" where
  "super_admin_handlers =
    [''Register'', ''ListUsers'', ''ChangeUserRole'', ''DeleteUser'', ''ListUpgradeRequests'', ''ReviewUpgradeRequest'',
     ''UpdateDataSource'', ''DeleteDataSource'', ''CreateDataset'', ''UpdateDataset'', ''DeleteDataset'',
     ''GrantDatasetAccess'', ''RevokeDatasetAccess'']"

definition handlers_for :: "string \<Rightarrow> string list" where
  "handlers_for role =
     token_handlers @ (if role_level role \<ge> 2 then normal_user_handlers else [])
     @ (if role_level role \<ge> 3 then data_admin_handlers else []) @ (if role_level role \<ge> 4 then super_admin_handlers else [])"

lemma Routes_by_role:
  "map rt_handler (filter (\<lambda>rt. \<not> rt_auth rt) Routes) = public_handlers"
  "map rt_handler (filter (\<lambda>rt. rt_auth rt \<and> rt_min rt = None) Routes) = token_handlers"
  "map rt_handler (filter (\<lambda>rt. rt_auth rt \<and> rt_min rt = Some ''normal_user'') Routes) = normal_user_handlers"
  "map rt_handler (filter (\<lambda>rt. rt_auth rt \<and> rt_min rt = Some ''data_admin'') Routes) = data_admin_handlers"
  "map rt_handler (filter (\<lambda>rt. rt_auth rt \<and> rt_min rt = Some ''super_admin'') Routes) = super_admin_handlers"
  "list_all (\<lambda>rt. rt_min rt \<in> {None, Some ''normal_user'', Some ''data_admin'', Some ''super_admin''}) Routes"
  by code_simp+

lemma handlers_by_role:
  "set public_handlers = rt_handler ` {rt \<in> set Routes. \<not> rt_auth rt}"
  "set token_handlers = rt_handler ` {rt \<in> set Routes. rt_auth rt \<and> rt_min rt = None}"
  "set normal_user_handlers = rt_handler ` {rt \<in> set Routes. rt_auth rt \<and> rt_min rt = Some ''normal_user''}"
  "set data_admin_handlers = rt_handler ` {rt \<in> set Routes. rt_auth rt \<and> rt_min rt = Some ''data_admin''}"
  "set super_admin_handlers = rt_handler ` {rt \<in> set Routes. rt_auth rt \<and> rt_min rt = Some ''super_admin''}"
  unfolding Routes_by_role(1-5) [symmetric] by simp_all

lemma Routes_mins: "rt \<in> set Routes \<Longrightarrow> rt_min rt \<in> {None, Some ''normal_user'', Some ''data_admin'', Some ''super_admin''}"
  using Routes_by_role(6) unfolding list_all_iff by blast

lemma serve_handler:
  assumes "rt \<in> set Routes" and "serve L now secret rexists rdb r rt = Inr (h, co)"
  shows "h = rt_handler rt \<and> (h \<in> set public_handlers \<and> co = None
     \<or> (\<exists>c. Auth L now secret rexists rdb r = Inr c \<and> co = Some c \<and> h \<in> set (handlers_for (Claims.Role c))))"
  using assms Routes_mins [OF assms(1)] unfolding handlers_by_role handlers_for_def set_append
  by (auto simp: serve_def RequireMinRole_def MinRole_level handlers_by_role split: sum.splits if_splits option.splits)

text \<open>
  C7. The role matrix of the API. Whatever the token of a request is, the handlers it can reach
  are exactly the five public ones and, when the middleware accepts the token, those of its role:
  every authenticated caller, \<open>normal_user\<close> and above, \<open>data_admin\<close> and above, \<open>super_admin\<close>.
  A role string the hub does not know reaches only the handlers without a role check.
\<close>

theorem role_matrix:
  "{h. \<exists>rt co. rt \<in> set Routes \<and> serve L now secret rexists rdb r rt = Inr (h, co)}
   = set public_handlers
     \<union> (case Auth L now secret rexists rdb r of Inl _ \<Rightarrow> {} | Inr c \<Rightarrow> set (handlers_for (Claims.Role c)))"
proof (cases "Auth L now secret rexists rdb r")
  case (Inl resp)
  then show ?thesis unfolding handlers_by_role by (auto simp: serve_def)
next
  case (Inr c)
  let ?runs = "\<lambda>rt. \<not> rt_auth rt \<or> (case rt_min rt of None \<Rightarrow> True | Some m \<Rightarrow> MinRole m (Claims.Role c))"
  have "(\<exists>co. serve L now secret rexists rdb r rt = Inr (h, co)) \<longleftrightarrow> h = rt_handler rt \<and> ?runs rt" for rt h
    using Inr by (auto simp: serve_def RequireMinRole_def split: option.splits)
  then have lhs: "{h. \<exists>rt co. rt \<in> set Routes \<and> serve L now secret rexists rdb r rt = Inr (h, co)} = rt_handler ` {rt \<in> set Routes. ?runs rt}" by blast
  have runs: "?runs rt \<longleftrightarrow> \<not> rt_auth rt \<or> rt_min rt = None \<or> rt_min rt = Some ''normal_user'' \<and> 2 \<le> role_level (Claims.Role c)
      \<or> rt_min rt = Some ''data_admin'' \<and> 3 \<le> role_level (Claims.Role c) \<or> rt_min rt = Some ''super_admin'' \<and> 4 \<le> role_level (Claims.Role c)"
    if "rt \<in> set Routes" for rt
    using Routes_mins [OF that] by (auto simp: MinRole_level)
  have "{rt \<in> set Routes. ?runs rt} = {rt \<in> set Routes. \<not> rt_auth rt \<or> rt_min rt = None \<or> rt_min rt = Some ''normal_user'' \<and> 2 \<le> role_level (Claims.Role c)
      \<or> rt_min rt = Some ''data_admin'' \<and> 3 \<le> role_level (Claims.Role c) \<or> rt_min rt = Some ''super_admin'' \<and> 4 \<le> role_level (Claims.Role c)}"
    using runs by blast
  also have "\<dots> = {rt \<in> set Routes. \<not> rt_auth rt} \<union> {rt \<in> set Routes. rt_auth rt \<and> rt_min rt = None}
      \<union> (if role_level (Claims.Role c) \<ge> 2 then {rt \<in> set Routes. rt_auth rt \<and> rt_min rt = Some ''normal_user''} else {})
      \<union> (if role_level (Claims.Role c) \<ge> 3 then {rt \<in> set Routes. rt_auth rt \<and> rt_min rt = Some ''data_admin''} else {})
      \<union> (if role_level (Claims.Role c) \<ge> 4 then {rt \<in> set Routes. rt_auth rt \<and> rt_min rt = Some ''super_admin''} else {})"
    by auto
  finally show ?thesis using Inr unfolding lhs handlers_for_def handlers_by_role set_append
    by (simp add: image_Un handlers_by_role Un_assoc)
qed

end
