(* ===== verification/Reports.thy ===== *)
theory Reports
  imports Auth Async_Task Go_Files
begin

text \<open>
  Results of finished work: \<open>internal/handlers/reports.go\<close> (the report files the workers
  write) and \<open>internal/handlers/tasks.go\<close> (the state of a task). \<open>unmarshal\<close> is
  \<open>json.Unmarshal\<close> into an empty interface.
\<close>

section \<open>Reports\<close>

definition hex_low :: "char \<Rightarrow> bool" where
  "hex_low c \<longleftrightarrow> 48 \<le> byte c \<and> byte c \<le> 57 \<or> 97 \<le> byte c \<and> byte c \<le> 102"

definition uuid_classes :: "(char \<Rightarrow> bool) list" where
  "uuid_classes = replicate 8 hex_low @ [\<lambda>c. c = CHR ''-''] @ replicate 4 hex_low @ [\<lambda>c. c = CHR ''-'', \<lambda>c. c = CHR ''4'']
     @ replicate 3 hex_low @ [\<lambda>c. c = CHR ''-'', \<lambda>c. c \<in> {CHR ''8'', CHR ''9'', CHR ''a'', CHR ''b''}]
     @ replicate 3 hex_low @ [\<lambda>c. c = CHR ''-''] @ replicate 12 hex_low"

text \<open>\<open>uuidRE.MatchString\<close>: the expression is anchored at both ends and has one class per character.\<close>

definition uuidRE :: "string \<Rightarrow> bool" where
  "uuidRE s \<longleftrightarrow> list_all2 (\<lambda>P c. P c) uuid_classes s"

definition reportFormats :: "string \<Rightarrow> (string \<times> string) option" where
  "reportFormats f =
     (if f = ''pdf'' then Some (''.pdf'', ''application/pdf'')
      else if f = ''md'' then Some (''.md'', ''text/markdown'')
      else if f = ''docx'' then Some (''.docx'', ''application/vnd.openxmlformats-officedocument.wordprocessingml.document'')
      else None)"

definition DownloadReport :: "env \<Rightarrow> disk_env \<Rightarrow> string \<Rightarrow> string \<Rightarrow> string \<Rightarrow> string \<Rightarrow> platform \<Rightarrow> disk \<Rightarrow> answer" where
  "DownloadReport e de reportsDir urlPath runID formatArg db d =
     (if \<not> uuidRE runID then Answer (errJSON StatusBadRequest ''invalid run id format'')
      else (let f0 = ToLower formatArg; format = (if f0 = [] then ''pdf'' else f0) in
            case reportFormats format of
              None \<Rightarrow> Answer (errJSON StatusBadRequest ''unsupported format, use: pdf, md, docx'')
            | Some (ext, contentType) \<Rightarrow>
                (case query_row e 0 (map r_status (filter (\<lambda>r. r_id r = runID) (runs db))) of
                   Inl _ \<Rightarrow> Answer (errJSON StatusNotFound ''run not found'')
                 | Inr st \<Rightarrow>
                     if st \<noteq> ''completed'' then Answer (errJSON StatusNotFound ''report not ready'')
                     else (let path = filepath_Join [reportsDir, runID @ ext] in
                           if d path = None then Answer (errJSON StatusNotFound ''report file not found'')
                           else ServeFile de urlPath
                                  [(''Content-Disposition'', ''attachment; filename='' @ runID @ ext), (''Content-Type'', contentType)]
                                  path d))))"

section \<open>Tasks\<close>

definition TaskStatus :: "env \<Rightarrow> (string \<Rightarrow> json res) \<Rightarrow> Claims \<Rightarrow> string \<Rightarrow> platform \<Rightarrow> response" where
  "TaskStatus e unmarshal c taskID db =
     (case query_row e 0 (filter (\<lambda>t. t_id t = taskID \<and> t_ws t = WorkspaceID c) (tasks db)) of
        Inl _ \<Rightarrow> errJSON StatusNotFound ''task not found''
      | Inr t \<Rightarrow>
          JSON StatusOK (JObj
            ([(''id'', JStr taskID), (''status'', JStr (t_status t)), (''task_type'', JStr (t_type t))]
             @ (case t_result t of None \<Rightarrow> [] | Some b \<Rightarrow> [(''result'', case unmarshal b of Inl _ \<Rightarrow> JNull | Inr v \<Rightarrow> v)])
             @ (case t_error t of None \<Rightarrow> [] | Some m \<Rightarrow> [(''error'', JStr m)]))))"

section \<open>Properties\<close>

lemma uuid_class_chars: "P \<in> set uuid_classes \<Longrightarrow> P c \<Longrightarrow> c \<noteq> CHR ''/'' \<and> c \<noteq> CHR ''.''"
  by (auto simp: uuid_classes_def hex_low_def byte_def)

lemma uuidRE_chars: "uuidRE s \<Longrightarrow> length s = 36 \<and> CHR ''/'' \<notin> set s \<and> CHR ''.'' \<notin> set s"
proof -
  assume a: "uuidRE s"
  then have "length uuid_classes = length s" unfolding uuidRE_def by (rule list_all2_lengthD)
  then have "length s = 36" by (simp add: uuid_classes_def)
  moreover have "c \<noteq> CHR ''/'' \<and> c \<noteq> CHR ''.''" if "c \<in> set s" for c
    using a that uuid_class_chars unfolding uuidRE_def list_all2_conv_all_nth by (metis in_set_conv_nth nth_mem)
  ultimately show ?thesis by blast
qed

lemma reportFormats_ext: "reportFormats f = Some (ext, ct) \<Longrightarrow> ext \<in> {''.pdf'', ''.md'', ''.docx''}"
  by (auto simp: reportFormats_def split: if_splits)

text \<open>
  C27. Report downloads stay in the report directory: whatever the run id, the format and the
  address are, a file that is sent lies directly in the configured directory, under the name of a
  completed run and one of the three report extensions.
\<close>

theorem DownloadReport_confined:
  assumes "DownloadReport e de dir u runID formatArg db d = SendFile hs data" and "dir \<noteq> []"
  shows "\<exists>ext path. ext \<in> {''.pdf'', ''.md'', ''.docx''} \<and> clean_elems path = clean_elems dir @ [runID @ ext]
    \<and> path = filepath_Join [dir, runID @ ext] \<and> d path = Some data
    \<and> (\<exists>r. r \<in> set (runs db) \<and> r_id r = runID \<and> r_status r = ''completed'')"
proof -
  obtain f ext ct where r: "uuidRE runID" "reportFormats f = Some (ext, ct)"
      "query_row e 0 (map r_status (filter (\<lambda>r. r_id r = runID) (runs db))) = Inr ''completed''"
      "ServeFile de u [(''Content-Disposition'', ''attachment; filename='' @ runID @ ext), (''Content-Type'', ct)] (filepath_Join [dir, runID @ ext]) d = SendFile hs data"
    using assms(1) by (auto simp: DownloadReport_def Let_def split: if_splits option.splits sum.splits)
  have ext: "ext \<in> {''.pdf'', ''.md'', ''.docx''}" using r(2) by (rule reportFormats_ext)
  have "CHR ''/'' \<notin> set (runID @ ext)" "runID @ ext \<notin> {[], ''.'', dotdot}"
    using uuidRE_chars [OF r(1)] ext by (auto dest: arg_cong [where f = length])
  then have "clean_elems (filepath_Join [dir, runID @ ext]) = clean_elems dir @ [runID @ ext]"
    using assms(2) by (intro Join_name) auto
  moreover have "\<exists>r. r \<in> set (runs db) \<and> r_id r = runID \<and> r_status r = ''completed''"
    using query_row_mem [OF r(3)] by auto
  ultimately show ?thesis using ext ServeFile_SendFile [OF r(4)] by blast
qed

definition demo_run_id :: string where
  "demo_run_id = ''01234567-89ab-4cde-8f01-23456789abcd''"

theorem DownloadReport_confined_witness:
  "\<exists>hs ext path. DownloadReport calm_env calm_disk ''out'' ''/v1/runs/x/report'' demo_run_id ''MD''
       (empty_platform\<lparr>runs := [\<lparr>r_id = demo_run_id, r_session = ''s'', r_status = ''completed'', r_reason = None\<rparr>]\<rparr>) (\<lambda>_. Some ''report'')
     = SendFile hs ''report'' \<and> ext \<in> {''.pdf'', ''.md'', ''.docx''}
     \<and> clean_elems path = clean_elems ''out'' @ [demo_run_id @ ext]"
proof -
  have "uuidRE demo_run_id"
    by (simp add: uuidRE_def uuid_classes_def demo_run_id_def hex_low_def byte_def eval_nat_numeral)
  moreover have "\<not> containsDotDot ''/v1/runs/x/report''" by (simp add: containsDotDot_def)
  moreover have "\<not> HasSuffix ''/v1/runs/x/report'' ''/index.html''" by (simp add: HasSuffix_def suffix_def)
  ultimately have "DownloadReport calm_env calm_disk ''out'' ''/v1/runs/x/report'' demo_run_id ''MD''
       (empty_platform\<lparr>runs := [\<lparr>r_id = demo_run_id, r_session = ''s'', r_status = ''completed'', r_reason = None\<rparr>]\<rparr>) (\<lambda>_. Some ''report'')
     = SendFile [(''Content-Disposition'', ''attachment; filename='' @ demo_run_id @ ''.md''), (''Content-Type'', ''text/markdown'')] ''report''"
    by (simp add: DownloadReport_def reportFormats_def query_row_def ServeFile_def calm_disk_def go_str Let_def)
  with DownloadReport_confined [OF this] show ?thesis by blast
qed

text \<open>The row that \<open>EnqueueTask\<close> adds, if it adds one.\<close>

definition queued_row :: "env \<Rightarrow> string \<Rightarrow> string \<Rightarrow> task \<Rightarrow> bool" where
  "queued_row e ws ty t \<longleftrightarrow> t_id t = def_id e 0 \<and> t_ws t = ws \<and> t_type t = ty \<and> t_status t = ''queued'' \<and> t_result t = None \<and> t_error t = None"

lemma EnqueueTask_row:
  assumes "EnqueueTask e ne ac ws sid rid ty p h = (r, h')"
  shows "hdb h' = hdb h \<and> isl r
    \<or> (\<exists>t. queued_row e ws ty t \<and> def_id e 0 \<notin> t_id ` set (tasks (hdb h)) \<and> hdb h' = (hdb h)\<lparr>tasks := tasks (hdb h) @ [t]\<rparr>)"
proof -
  let ?t = "\<lparr>t_id = def_id e 0, t_ws = ws, t_session = nullif sid, t_run = nullif rid, t_type = ty, t_status = ''queued'', t_payload = p,
    t_result = None, t_error = None, t_expires = int (dec_val (col_default e ''async_tasks.expires_at''))\<rparr>"
  have "hdb h' = hdb h \<and> isl r \<or> def_id e 0 \<notin> t_id ` set (tasks (hdb h)) \<and> hdb h' = (hdb h)\<lparr>tasks := tasks (hdb h) @ [?t]\<rparr>"
    using assms by (auto simp: EnqueueTask_def startTimeoutWatcher_def exec_Inr_iff insert_task_Inr Let_def split: sum.splits option.splits)
  moreover have "queued_row e ws ty ?t" by (simp add: queued_row_def)
  ultimately show ?thesis by blast
qed

text \<open>
  A task is visible in the workspace it was enqueued for, and only there: after a successful
  \<open>EnqueueTask\<close> whose statement returns the id of the stored row, \<open>TaskStatus\<close> answers with the
  queued task inside the workspace and 404 outside.
\<close>

theorem TaskStatus_enqueued:
  assumes "EnqueueTask e ne ac ws sid rid ty p h = (Inr taskID, h')" and "taskID = def_id e 0" and "db_err e' 0 = None"
  shows "TaskStatus e' um c taskID (hdb h') =
    (if WorkspaceID c = ws
     then JSON StatusOK (JObj [(''id'', JStr taskID), (''status'', JStr ''queued''), (''task_type'', JStr ty)])
     else errJSON StatusNotFound ''task not found'')"
proof -
  obtain t where t: "t_id t = taskID" "t_ws t = ws" "t_type t = ty" "t_status t = ''queued''" "t_result t = None" "t_error t = None"
      "taskID \<notin> t_id ` set (tasks (hdb h))" "tasks (hdb h') = tasks (hdb h) @ [t]"
    using EnqueueTask_row [OF assms(1)] assms(2) by (auto simp: queued_row_def)
  have "filter (\<lambda>x. t_id x = taskID \<and> t_ws x = w) (tasks (hdb h)) = []" for w
    unfolding filter_empty_conv using t(7) by blast
  then show ?thesis using t assms(3) by (auto simp: TaskStatus_def query_row_def)
qed

theorem TaskStatus_enqueued_witness:
  "\<exists>h'. EnqueueTask (calm_env\<lparr>ret_row := (\<lambda>_. Some ''default-id'')\<rparr>) None (NewClient True) ''w'' [] [] ''knowledge_index'' JNull
      \<lparr>hdb = empty_platform, hbus = NewMemoryBus, hnats = [], htimers = [], harmed = [], htimeouts = 0\<rparr> = (Inr ''default-id'', h')
     \<and> TaskStatus calm_env (\<lambda>b. Inr (JRaw b)) \<lparr>UserID = ''u1'', WorkspaceID = ''v'', Claims.Role = ''normal_user'', ExpiresAt = None, NotBefore = None, IssuedAt = None, ID = [], Subject = []\<rparr>
         ''default-id'' (hdb h') = errJSON StatusNotFound ''task not found''"
proof -
  let ?h = "\<lparr>hdb = empty_platform, hbus = NewMemoryBus, hnats = [], htimers = [], harmed = [], htimeouts = 0\<rparr>"
  let ?e = "calm_env\<lparr>ret_row := (\<lambda>_. Some ''default-id'')\<rparr>"
  obtain h' where h: "EnqueueTask ?e None (NewClient True) ''w'' [] [] ''knowledge_index'' JNull ?h = (Inr ''default-id'', h')"
    by (simp add: EnqueueTask_def exec_def insert_task_def empty_platform_def Let_def)
  with TaskStatus_enqueued [OF h, of calm_env] show ?thesis by auto
qed

end
