(* ===== verification/Hub_Api.thy ===== *)
theory Hub_Api
  imports Db_Typing Routes Reports
begin

text \<open>
  The hub as one machine. \<open>ServeHTTP\<close> is what \<open>handlers.Routes\<close> builds: a request is
  routed, passes the middleware of its route and runs the handler registered for it, on the whole
  state of the hub. \<open>hub_evolve\<close> interleaves requests with everything else that changes the
  state: callbacks of the workers, timeouts, the reaper, the reads and the end of event streams.
  The state has a log of the texts of the writing statements sent so far, which no code reads: it
  says when SQL of users or workers may have changed the hub's own tables.
  The record \<open>world\<close> collects what is decided outside for one request; \<open>decoders\<close> are the
  instances of \<open>json.Decoder.Decode\<close> for the bodies of the handlers (\<open>None\<close> for an error).
\<close>

section \<open>Requests and state\<close>

record http_request =
  rq_method :: string
  rq_path :: string
  rq_auth :: http_auth
  rq_remote :: string
  rq_trace :: string
  rq_query :: "string \<Rightarrow> string"
  rq_form :: multipart
  rq_body :: string

record decoders =
  dc_login :: "string \<Rightarrow> (string \<times> string) option"
  dc_self_register :: "string \<Rightarrow> (string \<times> string \<times> string) option"
  dc_register :: "string \<Rightarrow> register_body option"
  dc_role :: "string \<Rightarrow> string option"
  dc_upgrade :: "string \<Rightarrow> (string \<times> string) option"
  dc_review :: "string \<Rightarrow> (string \<times> string) option"
  dc_session :: "string \<Rightarrow> create_session_body"
  dc_message :: "string \<Rightarrow> msg_body option"
  dc_source :: "string \<Rightarrow> ds_body option"
  dc_document :: "string \<Rightarrow> (string \<times> string) option"
  dc_sql :: "string \<Rightarrow> (string \<times> string) option"
  dc_dataset :: "string \<Rightarrow> string option"
  dc_grant :: "string \<Rightarrow> (string \<times> string) option"
  dc_revoke :: "string \<Rightarrow> string option"
  dc_table :: "string \<Rightarrow> table_body option"

record 'r world =
  w_env :: env
  w_jwt :: jwtlib
  w_time :: int
  w_secret :: string
  w_exists :: "string \<Rightarrow> 'r \<Rightarrow> nat res"
  w_limiter :: "'r limiter"
  w_keys :: secrets
  w_data :: data_server
  w_ai :: column_ai
  w_xlsx :: excelize
  w_msg :: "'r msg_world"
  w_kn :: kn_world
  w_reports :: string
  w_unmarshal :: "string \<Rightarrow> json res"
  w_db_up :: bool
  w_redis_up :: "bool option"
  w_metrics :: response
  w_unrouted :: "http_request \<Rightarrow> response"
  w_dec :: decoders

record 'r hub_state =
  hs_app :: "'r app_state"
  hs_disk :: disk
  hs_sql :: "string list"

abbreviation sdb :: "'r hub_state \<Rightarrow> platform" where
  "sdb s \<equiv> hdb (as_hub (hs_app s))"

abbreviation sbus :: "'r hub_state \<Rightarrow> memory_bus" where
  "sbus s \<equiv> hbus (as_hub (hs_app s))"

definition set_hub :: "hub \<Rightarrow> 'r hub_state \<Rightarrow> 'r hub_state" where
  "set_hub h s = s\<lparr>hs_app := (hs_app s)\<lparr>as_hub := h\<rparr>\<rparr>"

definition set_db :: "platform \<Rightarrow> 'r hub_state \<Rightarrow> 'r hub_state" where
  "set_db db s = set_hub ((as_hub (hs_app s))\<lparr>hdb := db\<rparr>) s"

definition set_mgr :: "manager \<Rightarrow> 'r hub_state \<Rightarrow> 'r hub_state" where
  "set_mgr m s = s\<lparr>hs_app := (hs_app s)\<lparr>as_mgr := m\<rparr>\<rparr>"

definition set_redis :: "'r option \<Rightarrow> 'r hub_state \<Rightarrow> 'r hub_state" where
  "set_redis r s = s\<lparr>hs_app := (hs_app s)\<lparr>as_redis := the r\<rparr>\<rparr>"

text \<open>A handler answers, or keeps the connection open as an event stream on a channel.\<close>

datatype reply = Reply answer | Stream chan

type_synonym 'r handler = "Claims option \<Rightarrow> 'r hub_state \<Rightarrow> reply \<times> 'r hub_state"

definition say :: "response \<Rightarrow> reply" where
  "say r = Reply (Answer r)"

section \<open>Adapting the handlers\<close>

text \<open>
  \<open>ClaimsFromContext\<close> gives \<open>nil\<close> on a route without authentication; a handler that uses the
  claims without a test would panic there, which the middleware \<open>Recoverer\<close> turns into a 500.
\<close>

definition with_claims :: "(Claims \<Rightarrow> 'r hub_state \<Rightarrow> reply \<times> 'r hub_state) \<Rightarrow> 'r handler" where
  "with_claims f co s = (case co of None \<Rightarrow> (say panicked, s) | Some c \<Rightarrow> f c s)"

definition reads :: "(platform \<Rightarrow> response) \<Rightarrow> 'r hub_state \<Rightarrow> reply \<times> 'r hub_state" where
  "reads f s = (say (f (sdb s)), s)"

definition on_db :: "(platform \<Rightarrow> response \<times> platform) \<Rightarrow> 'r hub_state \<Rightarrow> reply \<times> 'r hub_state" where
  "on_db f s = (case f (sdb s) of (r, db) \<Rightarrow> (say r, set_db db s))"

definition on_datasets :: "(ds_state \<Rightarrow> ds_result) \<Rightarrow> 'r hub_state \<Rightarrow> reply \<times> 'r hub_state" where
  "on_datasets f s = (case f (sdb s, as_mgr (hs_app s)) of (r, (db, m), log) \<Rightarrow> (say r, set_mgr m (set_db db s)))"

text \<open>The statements of an import or of the terminal: their effect on the hub's tables, and their texts.\<close>

definition data_effect :: "hub_sql \<Rightarrow> nat \<times> data_call \<Rightarrow> platform \<Rightarrow> platform" where
  "data_effect eff k db = (case k of (p, Plain c) \<Rightarrow> call_effect eff (Some p, c) db | (p, Insert sql args) \<Rightarrow> eff (Some p) sql args db)"

definition data_written :: "(nat \<times> data_call) list \<Rightarrow> string list" where
  "data_written calls = concat (map (\<lambda>k. case snd k of Plain c \<Rightarrow> written [(None, c)] | Insert sql _ \<Rightarrow> [sql]) calls)"

definition on_data :: "hub_sql \<Rightarrow> (platform \<Rightarrow> manager \<Rightarrow> data_result) \<Rightarrow> 'r hub_state \<Rightarrow> reply \<times> 'r hub_state" where
  "on_data eff f s =
     (case f (sdb s) (as_mgr (hs_app s)) of
        (r, m, calls) \<Rightarrow>
          (say r, (set_mgr m (set_db (fold (data_effect eff) calls (sdb s)) s))\<lparr>hs_sql := hs_sql s @ data_written calls\<rparr>))"

definition on_kn :: "(kn_state \<Rightarrow> response \<times> kn_state) \<Rightarrow> 'r hub_state \<Rightarrow> reply \<times> 'r hub_state" where
  "on_kn f s =
     (case f \<lparr>ks_hub = as_hub (hs_app s), ks_disk = hs_disk s\<rparr> of
        (r, k) \<Rightarrow> (say r, (set_hub (ks_hub k) s)\<lparr>hs_disk := ks_disk k\<rparr>))"

definition on_app :: "('r app_state \<Rightarrow> 'r msg_result) \<Rightarrow> 'r hub_state \<Rightarrow> reply \<times> 'r hub_state" where
  "on_app f s = (case f (hs_app s) of (r, a, calls) \<Rightarrow> (say r, s\<lparr>hs_app := a, hs_sql := hs_sql s @ written calls\<rparr>))"

definition on_login :: "('r option \<Rightarrow> platform \<Rightarrow> response \<times> 'r option) \<Rightarrow> 'r hub_state \<Rightarrow> reply \<times> 'r hub_state" where
  "on_login f s = (case f (Some (as_redis (hs_app s))) (sdb s) of (r, rd) \<Rightarrow> (say r, set_redis rd s))"

definition on_source ::
  "(platform \<times> 'r option \<Rightarrow> response \<times> platform \<times> 'r option) \<Rightarrow> 'r hub_state \<Rightarrow> reply \<times> 'r hub_state" where
  "on_source f s = (case f (sdb s, Some (as_redis (hs_app s))) of (r, db, rd) \<Rightarrow> (say r, set_redis rd (set_db db s)))"

definition on_stream :: "(platform \<Rightarrow> memory_bus \<Rightarrow> (response + chan) \<times> memory_bus) \<Rightarrow> 'r hub_state \<Rightarrow> reply \<times> 'r hub_state" where
  "on_stream f s =
     (case f (sdb s) (sbus s) of
        (a, b) \<Rightarrow> (case a of Inl r \<Rightarrow> say r | Inr ch \<Rightarrow> Stream ch, set_hub ((as_hub (hs_app s))\<lparr>hbus := b\<rparr>) s))"

section \<open>The handlers by the name under which a route registers them\<close>

text \<open>\<open>p\<close> reads a parameter of the path, as \<open>chi.URLParam\<close> does.\<close>

definition handlers :: "'r world \<Rightarrow> http_request \<Rightarrow> (string \<Rightarrow> string) \<Rightarrow> (string \<times> 'r handler) list" where
  "handlers w r p =
    (let e = w_env w; d = w_dec w; b = rq_body r; srv = w_data w; my = srv_my (w_data w); kn = w_kn w; lim = w_limiter w; eff = mw_hub_sql (w_msg w) in
    [(''telemetry.Handler'', \<lambda>co. reads (\<lambda>_. w_metrics w)),
     (''Health'', \<lambda>co. reads (\<lambda>_. Health (w_db_up w) (w_redis_up w))),
     (''Version'', \<lambda>co. reads (\<lambda>_. Version)),
     (''Login'', \<lambda>co. on_login (Login e (w_jwt w) (lm_pipe lim) (lm_now lim) (lm_edge_now lim) (lm_fail_closed lim) (w_secret w)
                    (rq_remote r) (dc_login d b))),
     (''SelfRegister'', \<lambda>co. on_db (SelfRegister e (dc_self_register d b))),
     (''ListSessions'', with_claims (\<lambda>c. reads (ListSessions e c))),
     (''CreateSession'', with_claims (\<lambda>c. on_db (CreateSession e c (dc_session d b)))),
     (''ListMessages'', with_claims (\<lambda>c. reads (ListMessages e c (p ''sessionID'')))),
     (''PostMessage'', with_claims (\<lambda>c. on_app (PostMessage (w_msg w) c (rq_trace r) (p ''sessionID'') (dc_message d b)))),
     (''SessionStream'', with_claims (\<lambda>c. on_stream (stream_open e c (p ''sessionID'')))),
     (''SSEToken'', with_claims (\<lambda>c. reads (SSEToken e (w_jwt w) (w_time w) (w_secret w) c (p ''sessionID'')))),
     (''Register'', \<lambda>co. on_db (Register e co (dc_register d b))),
     (''ListUsers'', \<lambda>co. on_db (ListUsers e co)),
     (''ChangeUserRole'', \<lambda>co. on_db (ChangeUserRole e co (p ''id'') (dc_role d b))),
     (''DeleteUser'', \<lambda>co. on_db (DeleteUser e co (p ''id''))),
     (''CreateUpgradeRequest'', \<lambda>co. on_db (CreateUpgradeRequest e co (dc_upgrade d b))),
     (''ListUpgradeRequests'', \<lambda>co. on_db (ListUpgradeRequests e co (rq_query r ''status''))),
     (''ReviewUpgradeRequest'', \<lambda>co. on_db (ReviewUpgradeRequest e co (p ''id'') (dc_review d b))),
     (''ListDataSources'', with_claims (\<lambda>c. reads (ListDataSources e c))),
     (''CreateDataSource'', with_claims (\<lambda>c. on_source (CreateDataSource e (w_keys w) lim c (dc_source d b)))),
     (''TestDataSource'', with_claims (\<lambda>c. reads (TestDataSource e (w_keys w) my c (p ''id'')))),
     (''UpdateDataSource'', with_claims (\<lambda>c. on_db (UpdateDataSource e (w_keys w) c (p ''id'') (dc_source d b)))),
     (''DeleteDataSource'', with_claims (\<lambda>c. on_db (DeleteDataSource e c (p ''id'')))),
     (''ListKnowledgeDocs'', with_claims (\<lambda>c. reads (ListKnowledgeDocs e c (p ''workspaceID'')))),
     (''UploadKnowledgeDoc'', with_claims (\<lambda>c. on_kn (UploadKnowledgeDoc kn c (p ''workspaceID'') (dc_document d b)))),
     (''UploadKnowledgeDocFromFile'', with_claims (\<lambda>c. on_kn (UploadKnowledgeDocFromFile kn c (p ''workspaceID'') (rq_form r)))),
     (''DownloadKnowledgeDoc'', \<lambda>co s. (Reply (DownloadKnowledgeDoc e (kw_disk kn) (kw_dir kn) (rq_path r) (p ''docID'')
                                   \<lparr>ks_hub = as_hub (hs_app s), ks_disk = hs_disk s\<rparr>), s)),
     (''DownloadReport'', \<lambda>co s. (Reply (DownloadReport e (kw_disk kn) (w_reports w) (rq_path r) (p ''runID'') (rq_query r ''format'')
                                   (sdb s) (hs_disk s)), s)),
     (''TaskStatus'', with_claims (\<lambda>c. reads (TaskStatus e (w_unmarshal w) c (p ''taskID'')))),
     (''UploadData'', \<lambda>co. on_data eff (UploadData e srv (w_ai w) (w_xlsx w) co (rq_form r))),
     (''ExecuteDataSQL'', \<lambda>co. on_data eff (ExecuteDataSQL e srv co (dc_sql d b))),
     (''ListDatasets'', \<lambda>co. reads (ListDatasets e co)),
     (''CreateDataset'', \<lambda>co. on_datasets (CreateDataset e my co (dc_dataset d b))),
     (''GetDataset'', \<lambda>co. reads (GetDataset e co (p ''id''))),
     (''UpdateDataset'', \<lambda>co. on_db (UpdateDataset e co (p ''id'') (dc_dataset d b))),
     (''DeleteDataset'', \<lambda>co. on_datasets (DeleteDataset e my co (p ''id''))),
     (''GrantDatasetAccess'', \<lambda>co. on_db (GrantDatasetAccess e co (p ''id'') (dc_grant d b))),
     (''RevokeDatasetAccess'', \<lambda>co. on_db (RevokeDatasetAccess e co (p ''id'') (dc_revoke d b))),
     (''ListDatasetTables'', \<lambda>co. reads (ListDatasetTables e co (p ''did''))),
     (''CreateDatasetTable'', \<lambda>co. on_datasets (CreateDatasetTable e my co (p ''did'') (dc_table d b))),
     (''GetDatasetTable'', \<lambda>co. reads (GetDatasetTable e co (p ''did'') (p ''tid''))),
     (''DeleteDatasetTable'', \<lambda>co. on_datasets (DeleteDatasetTable e my co (p ''did'') (p ''tid''))),
     (''ListFields'', \<lambda>co. reads (ListFields e co (p ''did'') (p ''tid'')))])"

lemma handlers_names: "map fst (handlers w r p) = map rt_handler Routes"
  by (simp add: handlers_def Routes_def open_route_def v1_def v1_min_def Let_def)

text \<open>\<open>chi.URLParam\<close>: the element of the path at the place of the parameter in the pattern.\<close>

definition URLParam :: "string \<Rightarrow> string \<Rightarrow> string \<Rightarrow> string" where
  "URLParam pattern path name =
     (case map_of (zip (Split pattern CHR ''/'') (Split path CHR ''/'')) (''{'' @ name @ ''}'') of None \<Rightarrow> [] | Some x \<Rightarrow> x)"

definition ServeHTTP :: "'r world \<Rightarrow> http_request \<Rightarrow> 'r hub_state \<Rightarrow> reply \<times> 'r hub_state" where
  "ServeHTTP w r s =
     (case find_route (rq_method r) (rq_path r) of
        None \<Rightarrow> (say (w_unrouted w r), s)
      | Some rt \<Rightarrow>
          (case serve (w_jwt w) (w_time w) (w_secret w) (w_exists w) (Some (as_redis (hs_app s))) (rq_auth r) rt of
             Inl resp \<Rightarrow> (say resp, s)
           | Inr (h, co) \<Rightarrow>
               (case map_of (handlers w r (URLParam (rt_pattern rt) (rq_path r))) h of
                  None \<Rightarrow> (say (w_unrouted w r), s)
                | Some f \<Rightarrow> f co s)))"

section \<open>The state stays well typed\<close>

text \<open>
  The bus and the pools always keep their invariants. The tables are well typed as long as no
  statement was sent that may touch them.
\<close>

definition quiet :: "'r hub_state \<Rightarrow> bool" where
  "quiet s \<longleftrightarrow> \<not> list_ex touches_platform (hs_sql s)"

definition state_typed :: "'r hub_state \<Rightarrow> bool" where
  "state_typed s \<longleftrightarrow> (quiet s \<longrightarrow> platform_typed (sdb s)) \<and> bus_inv (sbus s) \<and> mgr_inv (as_mgr (hs_app s))"

definition keeps_types :: "('r hub_state \<Rightarrow> reply \<times> 'r hub_state) \<Rightarrow> bool" where
  "keeps_types f \<longleftrightarrow> (\<forall>s. state_typed s \<longrightarrow> state_typed (snd (f s)))"

lemma data_effect_quiet:
  "hub_sql_frame eff \<Longrightarrow> \<not> list_ex touches_platform (data_written calls) \<Longrightarrow> fold (data_effect eff) calls db = db"
proof (induction calls)
  case (Cons k calls)
  obtain p c where k: "k = (p, c)" by fastforce
  have "data_effect eff k db = db"
    using Cons.prems by (auto simp: k data_effect_def data_written_def written_def call_effect_def hub_sql_frame_def split: data_call.splits dbcall.splits)
  moreover have "\<not> list_ex touches_platform (data_written calls)" using Cons.prems(2) by (simp add: data_written_def)
  ultimately show ?case using Cons.IH Cons.prems(1) by simp
qed simp

lemma keeps_reads [simp]: "keeps_types (reads f)" "keeps_types (\<lambda>s. (a s, s))"
  by (simp_all add: keeps_types_def reads_def)

lemma keeps_with_claims: "(\<And>c. keeps_types (f c)) \<Longrightarrow> keeps_types (with_claims f co)"
  by (cases co) (simp_all add: keeps_types_def with_claims_def)

lemma keeps_on_db: "(\<And>db. platform_typed db \<Longrightarrow> platform_typed (snd (f db))) \<Longrightarrow> keeps_types (on_db f)"
  by (simp add: keeps_types_def on_db_def state_typed_def quiet_def set_db_def set_hub_def case_prod_beta)

lemma keeps_on_datasets:
  assumes "\<And>db m. platform_typed db \<Longrightarrow> platform_typed (fst (fst (snd (f (db, m)))))" and "\<And>db m. mgr_inv m \<Longrightarrow> mgr_inv (snd (fst (snd (f (db, m)))))"
  shows "keeps_types (on_datasets f)"
  using assms by (simp add: keeps_types_def on_datasets_def state_typed_def quiet_def set_mgr_def set_db_def set_hub_def case_prod_beta)

lemma keeps_on_data:
  "hub_sql_frame eff \<Longrightarrow> (\<And>db m. mgr_inv m \<Longrightarrow> mgr_inv (fst (snd (f db m)))) \<Longrightarrow> keeps_types (on_data eff f)"
  by (simp add: keeps_types_def on_data_def state_typed_def quiet_def set_mgr_def set_db_def set_hub_def data_effect_quiet case_prod_beta)

lemma keeps_on_kn:
  assumes "\<And>k. hub_typed (ks_hub k) \<Longrightarrow> hub_typed (ks_hub (snd (f k)))" and "\<And>k. bus_inv (hbus (ks_hub k)) \<Longrightarrow> bus_inv (hbus (ks_hub (snd (f k))))"
  shows "keeps_types (on_kn f)"
  unfolding keeps_types_def
proof (intro allI impI)
  fix s :: "'a hub_state" assume s: "state_typed s"
  let ?k = "\<lparr>ks_hub = as_hub (hs_app s), ks_disk = hs_disk s\<rparr>"
  show "state_typed (snd (on_kn f s))"
    using assms(1) [of ?k] assms(2) [of ?k] s
    by (auto simp: on_kn_def state_typed_def quiet_def set_hub_def hub_typed_def case_prod_beta)
qed

interpretation pools: message_invariant "\<lambda>h. bus_inv (hbus h)" mgr_inv
  by unfold_locales (auto simp: with_event_def with_db_def bus_inv_publish bus_inv_EnqueueTask intro: cached.get_inv)

lemma keeps_PostMessage:
  assumes "hub_sql_frame (mw_hub_sql w)"
  shows "keeps_types (on_app (PostMessage w c trace sid bo))"
  unfolding keeps_types_def
proof (intro allI impI)
  fix s :: "'a hub_state" assume s: "state_typed s"
  obtain r a calls where p: "PostMessage w c trace sid bo (hs_app s) = (r, a, calls)" by (metis prod_cases3)
  have "pools.stable w calls" by (simp add: pools.stable_def with_db_def)
  then have "bus_inv (hbus (as_hub a)) \<and> mgr_inv (as_mgr a)" using pools.PostMessage [OF _ _ p] s by (simp add: state_typed_def)
  moreover have "platform_typed (hdb (as_hub a))" if "quiet s" "\<not> list_ex touches_platform (written calls)"
    using typed.PostMessage [OF _ _ p] typed.stable_quiet [OF assms that(2)] s that(1) by (simp add: state_typed_def hub_typed_def)
  ultimately show "state_typed (snd (on_app (PostMessage w c trace sid bo) s))"
    using p by (simp add: on_app_def state_typed_def quiet_def)
qed

lemma keeps_on_login [simp]: "keeps_types (on_login f)"
  by (simp add: keeps_types_def on_login_def state_typed_def quiet_def set_redis_def case_prod_beta)

lemma keeps_on_source: "(\<And>db rd. platform_typed db \<Longrightarrow> platform_typed (fst (snd (f (db, rd))))) \<Longrightarrow> keeps_types (on_source f)"
  by (simp add: keeps_types_def on_source_def state_typed_def quiet_def set_redis_def set_db_def set_hub_def case_prod_beta)

lemma keeps_stream [simp]: "keeps_types (on_stream (stream_open e c sid))"
  by (simp add: keeps_types_def on_stream_def stream_open_def state_typed_def quiet_def set_hub_def case_prod_beta bus_inv_Subscribe)

lemma typed_user_handlers [typed_rules]:
  assumes "platform_typed db"
  shows "platform_typed (snd (SelfRegister e sb db))" "platform_typed (snd (Register e co rb db))" "platform_typed (snd (ListUsers e co db))"
    "platform_typed (snd (ChangeUserRole e co i x db))" "platform_typed (snd (DeleteUser e co i db))"
    "platform_typed (snd (CreateUpgradeRequest e co ub db))" "platform_typed (snd (ListUpgradeRequests e co q db))"
    "platform_typed (snd (ReviewUpgradeRequest e co i ub db))"
  using assms typed_user_api [of db e co "ReqSelfRegister sb"] typed_user_api [of db e co "ReqRegister rb"] typed_user_api [of db e co ReqListUsers]
    typed_user_api [of db e co "ReqChangeRole i x"] typed_user_api [of db e co "ReqDeleteUser i"] typed_user_api [of db e co "ReqCreateUpgrade ub"]
    typed_user_api [of db e co "ReqListUpgrade q"] typed_user_api [of db e co "ReqReview i ub"]
  by simp_all

lemma mgr_table_ops:
  "mgr_inv m \<Longrightarrow> CreateTable srv d n t fs m = (r, m', log) \<Longrightarrow> mgr_inv m'" "mgr_inv m \<Longrightarrow> DropTable srv d n t m = (r, m', log) \<Longrightarrow> mgr_inv m'"
  by (auto simp: CreateTable_def DropTable_def split: option.splits) (metis mgr_inv_dataset_exec fst_conv snd_conv)+

lemma mgr_dataset_handlers:
  assumes "mgr_inv m"
  shows "mgr_inv (snd (fst (snd (CreateDataset e srv co bn (db, m)))))" and "mgr_inv (snd (fst (snd (DeleteDataset e srv co did (db, m)))))"
    and "mgr_inv (snd (fst (snd (CreateDatasetTable e srv co did bt (db, m)))))"
    and "mgr_inv (snd (fst (snd (DeleteDatasetTable e srv co did tid (db, m)))))"
proof -
  show "mgr_inv (snd (fst (snd (CreateDataset e srv co bn (db, m)))))"
    using assms by (simp add: CreateDataset_def keep_def Let_def split: option.split prod.split sum.split)
  show "mgr_inv (snd (fst (snd (DeleteDataset e srv co did (db, m)))))"
    using assms by (simp add: DeleteDataset_def keep_def Let_def mgr_inv_Close split: option.split prod.split sum.split)
  show "mgr_inv (snd (fst (snd (CreateDatasetTable e srv co did bt (db, m)))))"
    using assms by (auto simp: CreateDatasetTable_def keep_def Let_def split: option.splits prod.splits sum.splits dest: mgr_table_ops)
  show "mgr_inv (snd (fst (snd (DeleteDatasetTable e srv co did tid (db, m)))))"
    using assms by (auto simp: DeleteDatasetTable_def keep_def Let_def split: option.splits prod.splits sum.splits dest: mgr_table_ops)
qed

lemma mgr_data_handlers:
  assumes "mgr_inv m"
  shows "mgr_inv (fst (snd (UploadData e srv ai x co r db m)))" and "mgr_inv (fst (snd (ExecuteDataSQL e srv co bo db m)))"
proof -
  show "mgr_inv (fst (snd (UploadData e srv ai x co r db m)))"
    using assms unfolding UploadData_def uploadToDataset_def Let_def
    by (auto split: option.splits prod.splits sum.splits dest: mgr_inv_pool_for)
  have pool: "mgr_inv m'" if "getDatasetPool e srv d db m = (q, m')" for d q m'
    using terminal.get_inv [OF assms] that by (metis snd_conv)
  show "mgr_inv (fst (snd (ExecuteDataSQL e srv co bo db m)))"
    using assms unfolding ExecuteDataSQL_def Let_def
    by (auto split: option.splits prod.splits sum.splits dest: pool)
qed

lemmas keeps_intros =
  keeps_with_claims keeps_on_db keeps_on_datasets keeps_on_data keeps_on_kn keeps_on_source keeps_PostMessage
lemmas handler_types =
  typed_user_handlers typed_CreateSession typed_dsource_handlers typed_knowledge typed_dataset_handlers
  typed_table_handlers mgr_dataset_handlers mgr_data_handlers bus_inv_knowledge

lemma handlers_keep_types:
  "hub_sql_frame (mw_hub_sql (w_msg w)) \<Longrightarrow> list_all (\<lambda>(n, f). \<forall>co. keeps_types (f co)) (handlers w r p)"
  unfolding handlers_def Let_def
  by (simp add: keeps_intros handler_types)

lemma ServeHTTP_cases:
  obtains resp where "ServeHTTP w r s = (say resp, s)"
  | rt h co f where "find_route (rq_method r) (rq_path r) = Some rt"
      "serve (w_jwt w) (w_time w) (w_secret w) (w_exists w) (Some (as_redis (hs_app s))) (rq_auth r) rt = Inr (h, co)"
      "(h, f) \<in> set (handlers w r (URLParam (rt_pattern rt) (rq_path r)))" "ServeHTTP w r s = f co s"
proof (cases "\<exists>resp. ServeHTTP w r s = (say resp, s)")
  case False
  then obtain rt h co f where "find_route (rq_method r) (rq_path r) = Some rt"
      "serve (w_jwt w) (w_time w) (w_secret w) (w_exists w) (Some (as_redis (hs_app s))) (rq_auth r) rt = Inr (h, co)"
      "map_of (handlers w r (URLParam (rt_pattern rt) (rq_path r))) h = Some f"
    by (auto simp: ServeHTTP_def split: option.splits sum.splits prod.splits)
  moreover from this have "ServeHTTP w r s = f co s" by (simp add: ServeHTTP_def)
  ultimately show ?thesis by (blast intro: that(2) dest: map_of_SomeD)
qed (use that(1) in blast)

lemma ServeHTTP_typed: "hub_sql_frame (mw_hub_sql (w_msg w)) \<Longrightarrow> state_typed s \<Longrightarrow> state_typed (snd (ServeHTTP w r s))"
proof (cases rule: ServeHTTP_cases [of w r s])
  case (2 rt h co f)
  assume "hub_sql_frame (mw_hub_sql (w_msg w))" "state_typed s"
  then show ?thesis using 2 handlers_keep_types [of w r] by (fastforce simp: list_all_iff keeps_types_def)
qed simp

text \<open>Everything that can happen to a running hub; the requests run in worlds of the set \<open>W\<close>.\<close>

inductive hub_evolve :: "('r world \<Rightarrow> bool) \<Rightarrow> 'r hub_state \<Rightarrow> 'r hub_state \<Rightarrow> bool" for W where
  request: "W w \<Longrightarrow> ServeHTTP w r s = (a, s') \<Longrightarrow> hub_evolve W s s'"
| task_callback: "TaskCallback e u req (as_hub (hs_app s)) = (x, h) \<Longrightarrow> hub_evolve W s (set_hub h s)"
| step_callback: "RunStepCallback e sreq (as_hub (hs_app s)) = (m, h) \<Longrightarrow> hub_evolve W s (set_hub h s)"
| doc_callback: "KnowledgeDocCallback e d st cd n (as_hub (hs_app s)) = (x, h) \<Longrightarrow> hub_evolve W s (set_hub h s)"
| timer: "t \<in> set (htimers (as_hub (hs_app s))) \<Longrightarrow> hub_evolve W s (set_hub (watcher_check e t (as_hub (hs_app s))) s)"
| timeout: "t \<in> set (harmed (as_hub (hs_app s))) \<Longrightarrow> hub_evolve W s (set_hub (watcher_update e c t (as_hub (hs_app s))) s)"
| reaper: "hub_evolve W s (set_hub (reaper_tick e (as_hub (hs_app s))) s)"
| streamed: "receive ch (sbus s) = (x, b) \<Longrightarrow> hub_evolve W s (set_hub ((as_hub (hs_app s))\<lparr>hbus := b\<rparr>) s)"
| stream_end: "stream_close sid ch (sbus s) = Some b \<Longrightarrow> hub_evolve W s (set_hub ((as_hub (hs_app s))\<lparr>hbus := b\<rparr>) s)"

inductive hub_reach :: "('r world \<Rightarrow> bool) \<Rightarrow> 'r hub_state \<Rightarrow> 'r hub_state \<Rightarrow> bool" for W s0 where
  start: "hub_reach W s0 s0"
| step: "hub_reach W s0 s \<Longrightarrow> hub_evolve W s s' \<Longrightarrow> hub_reach W s0 s'"

text \<open>What the steps outside the requests do: they keep the types of the tables, and the bus.\<close>

lemma state_typed_set_hub:
  assumes "state_typed s" and "hub_typed (as_hub (hs_app s)) \<Longrightarrow> hub_typed h" and "bus_inv (sbus s) \<Longrightarrow> bus_inv (hbus h)"
  shows "state_typed (set_hub h s)"
  using assms by (auto simp: state_typed_def quiet_def set_hub_def hub_typed_def)

lemma hub_evolve_typed:
  assumes "\<And>w. W w \<Longrightarrow> hub_sql_frame (mw_hub_sql (w_msg w))"
  shows "hub_evolve W s s' \<Longrightarrow> state_typed s \<Longrightarrow> state_typed s'"
proof (induction rule: hub_evolve.induct)
  case (request w r s a s')
  then show ?case using ServeHTTP_typed [OF assms, of w s r] by simp
next
  case (task_callback e u req s x h)
  then show ?case using typed_callbacks(1) [of "as_hub (hs_app s)" e u req] bus_inv_callbacks(1) [of "as_hub (hs_app s)" e u req]
    by (intro state_typed_set_hub) simp_all
next
  case (step_callback e sreq s m h)
  then show ?case using typed_callbacks(2) [of "as_hub (hs_app s)" e sreq] bus_inv_callbacks(2) [of "as_hub (hs_app s)" e sreq]
    by (intro state_typed_set_hub) simp_all
next
  case (doc_callback e d st cd n s x h)
  then show ?case using typed_callbacks(3) [of "as_hub (hs_app s)" e d st cd n] bus_inv_callbacks(3) [of "as_hub (hs_app s)" e d st cd n]
    by (intro state_typed_set_hub) simp_all
next
  case (streamed ch s x b)
  then show ?case using bus_inv_receive [of "sbus s" ch] by (intro state_typed_set_hub) (simp_all add: hub_typed_def)
next
  case (stream_end sid ch s b)
  then show ?case using bus_inv_cancel [of "sbus s" sid ch] by (intro state_typed_set_hub) (auto simp: hub_typed_def stream_close_def)
qed (auto intro!: state_typed_set_hub intro: typed_watcher_check typed_watcher_update typed_reaper_tick bus_inv_watchers)

text \<open>
  The hub when it starts to serve: the tables as the migrations leave them, with the demo workspace
  and no rows, the administrator that \<open>EnsureAdminUser\<close> adds, a new bus and a new manager.
\<close>

definition fresh_platform :: platform where
  "fresh_platform = empty_platform\<lparr>workspaces := [DemoWorkspaceID]\<rparr>"

definition hub_start :: "env \<Rightarrow> string \<Rightarrow> string \<Rightarrow> mysql_config \<Rightarrow> 'r \<Rightarrow> disk \<Rightarrow> 'r hub_state" where
  "hub_start e email pw cfg rd d =
     \<lparr>hs_app = \<lparr>as_hub = \<lparr>hdb = snd (EnsureAdminUser e email pw fresh_platform), hbus = NewMemoryBus, hnats = [], htimers = [],
                           harmed = [], htimeouts = 0\<rparr>, as_mgr = NewManager cfg, as_redis = rd\<rparr>, hs_disk = d, hs_sql = []\<rparr>"

lemma fresh_typed: "platform_typed fresh_platform"
  by (simp add: platform_typed_def users_inv_def fresh_platform_def empty_platform_def)

lemma hub_start_typed: "state_typed (hub_start e email pw cfg rd d)"
  using typed_EnsureAdminUser [OF fresh_typed, of e email pw]
  by (simp add: state_typed_def hub_start_def bus_inv_New mgr_inv_New)

text \<open>
  C6. The state of the hub keeps its types. Whatever requests arrive, with whatever tokens and
  bodies, whichever database calls fail, and however they interleave with callbacks, timeouts, the
  reaper and event streams: in every state the hub can reach the event bus is well formed and every
  connection pool is either cached or closed. And as long as no statement was sent that may touch the
  hub's own tables (SQL that workers or users wrote is executed with the hub's own rights, on
  \<open>a.DB\<close> and on the pools of the datasets), every table is well typed: keys are unique, every role,
  status, kind, level and field type the hub writes is one of its values, and the references that
  \<open>platform_typed\<close> lists have their rows. The hypothesis is what MySQL documents: a statement on rows
  or on one table changes no table it does not name.
\<close>

theorem hub_well_typed:
  assumes "hub_reach W (hub_start e email pw cfg rd d) s" and "\<And>w. W w \<Longrightarrow> hub_sql_frame (mw_hub_sql (w_msg w))"
  shows "bus_inv (sbus s) \<and> mgr_inv (as_mgr (hs_app s))
    \<and> (\<not> list_ex touches_platform (hs_sql s) \<longrightarrow> platform_typed (sdb s))"
proof -
  have "state_typed s" using assms(1) by induction (auto intro: hub_start_typed hub_evolve_typed [OF assms(2)])
  then show ?thesis by (simp add: state_typed_def quiet_def)
qed

section \<open>Safe methods\<close>

text \<open>What a GET request may do: nothing, or subscribe to a session for an event stream.\<close>

definition get_handlers :: "string list" where
  "get_handlers =
    [''telemetry.Handler'', ''Health'', ''Version'', ''ListSessions'', ''ListMessages'', ''SessionStream'', ''ListUsers'', ''ListUpgradeRequests'',
     ''ListDataSources'', ''ListKnowledgeDocs'', ''DownloadKnowledgeDoc'', ''DownloadReport'', ''TaskStatus'', ''ListDatasets'', ''GetDataset'',
     ''ListDatasetTables'', ''GetDatasetTable'', ''ListFields'']"

lemma get_routes: "list_all (\<lambda>rt. (rt_method rt = ''*'' \<or> rt_method rt = ''GET'') = (rt_handler rt \<in> set get_handlers)) Routes"
  by code_simp

definition only_subscribes :: "('r hub_state \<Rightarrow> reply \<times> 'r hub_state) \<Rightarrow> bool" where
  "only_subscribes f \<longleftrightarrow>
     (\<forall>s. snd (f s) = s \<or> (\<exists>sid ch b. Subscribe sid (sbus s) = (ch, b) \<and> f s = (Stream ch, set_hub ((as_hub (hs_app s))\<lparr>hbus := b\<rparr>) s)))"

lemma set_hub_same [simp]: "set_hub (as_hub (hs_app s)) s = s" "set_db (sdb s) s = s"
  by (simp_all add: set_db_def set_hub_def)

lemma only_subscribes_rules [simp]:
  "only_subscribes (reads f)" "only_subscribes (\<lambda>s. (a s, s))" "only_subscribes (on_stream (stream_open e c sid))"
  "only_subscribes (on_db (ListUsers e co))" "only_subscribes (on_db (ListUpgradeRequests e co q))"
  by (auto simp: only_subscribes_def reads_def on_stream_def stream_open_def on_db_def ListUsers_def ListUpgradeRequests_def Let_def
      split: prod.splits sum.splits if_splits)

lemma only_subscribes_claims [simp]: "(\<And>c. only_subscribes (f c)) \<Longrightarrow> only_subscribes (with_claims f co)"
  by (cases co) (simp_all add: only_subscribes_def with_claims_def)

lemma get_handlers_quiet: "list_all (\<lambda>(n, f). n \<in> set get_handlers \<longrightarrow> (\<forall>co. only_subscribes (f co))) (handlers w r p)"
  unfolding handlers_def Let_def by (simp add: get_handlers_def)

lemma find_route_mem: "find_route m path = Some rt \<Longrightarrow> rt \<in> set Routes \<and> (rt_method rt = ''*'' \<or> rt_method rt = m)"
  by (auto simp: find_route_def find_Some_iff route_match_def)

text \<open>
  C33. GET is a safe method. A GET request, whatever its path and token, leaves the whole state of the
  hub as it is (database, files, Redis, pools, bus, timers), except that it may open an event
  stream, which adds one subscription to the bus.
\<close>

theorem GET_is_safe:
  assumes "ServeHTTP w r s = (a, s')" and "rq_method r = ''GET''"
  shows "s' = s \<or> (\<exists>sid ch b. Subscribe sid (sbus s) = (ch, b) \<and> a = Stream ch \<and> s' = set_hub ((as_hub (hs_app s))\<lparr>hbus := b\<rparr>) s)"
proof (cases rule: ServeHTTP_cases [of w r s])
  case (2 rt h co f)
  have rt: "rt \<in> set Routes" "rt_method rt = ''*'' \<or> rt_method rt = ''GET''" using find_route_mem [OF 2(1)] assms(2) by auto
  then have "rt_handler rt \<in> set get_handlers" using get_routes by (simp add: list_all_iff)
  with serve_handler [OF rt(1) 2(2)] have "h \<in> set get_handlers" by simp
  with get_handlers_quiet [of w r] 2(3) have "only_subscribes (f co)" by (fastforce simp: list_all_iff)
  with assms(1) 2(4) show ?thesis unfolding only_subscribes_def by (metis prod.inject prod.collapse)
qed (use assms in simp)

section \<open>What an unprivileged caller can change\<close>

definition admin_part :: "platform \<Rightarrow> _" where
  "admin_part db = (workspaces db, users db, dsources db, datasets db, dperms db, dtables db, tfields db, kdocs db)"

lemma admin_part_exec_log:
  "admin_part (exec_log e k (insert_message m) db) = admin_part db" "admin_part (exec_log e k (insert_run r) db) = admin_part db"
  "admin_part (exec_log e k (\<lambda>d. Inr (update_runs P f d)) db) = admin_part db"
  by (rule exec_log_frame [where F = admin_part]; auto simp: admin_part_def update_runs_def dest!: insert_message_Inr insert_run_Inr)+

lemma admin_part_EnqueueTask: "admin_part (hdb (snd (EnqueueTask e ne c ws sid rid ty p h))) = admin_part (hdb h)"
  by (auto simp: EnqueueTask_def exec_Inr_iff insert_task_Inr admin_part_def startTimeoutWatcher_def Let_def split: sum.splits option.splits)

interpretation frame: message_invariant "\<lambda>h. admin_part (hdb h) = T" "\<lambda>_. True" for T
  by unfold_locales (simp_all add: with_event_def with_db_def admin_part_exec_log admin_part_EnqueueTask)

text \<open>The effect of the handlers anyone can reach: at most one new account, with the lowest role a user can have.\<close>

definition unprivileged :: "'r hub_state \<Rightarrow> 'r hub_state \<Rightarrow> bool" where
  "unprivileged s s' \<longleftrightarrow> hs_disk s' = hs_disk s \<and>
     (\<exists>us. admin_part (sdb s') = admin_part ((sdb s)\<lparr>users := users (sdb s) @ us\<rparr>)
        \<and> length us \<le> 1 \<and> list_all (\<lambda>u. u_role u = ''normal_user'') us)"

definition limited :: "('r hub_state \<Rightarrow> reply \<times> 'r hub_state) \<Rightarrow> bool" where
  "limited f \<longleftrightarrow> (\<forall>s. unprivileged s (snd (f s)))"

lemma unprivileged_same:
  "admin_part (sdb s') = admin_part (sdb s) \<Longrightarrow> hs_disk s' = hs_disk s \<Longrightarrow> unprivileged s s'"
  unfolding unprivileged_def by (rule conjI, assumption, rule exI [of _ "[]"]) simp

lemma limited_on_db: "(\<And>db. admin_part (snd (f db)) = admin_part db) \<Longrightarrow> limited (on_db f)"
  by (simp add: limited_def on_db_def set_db_def set_hub_def case_prod_beta unprivileged_same)

lemma limited_rules [simp]:
  "limited (reads f)" "limited (\<lambda>s. (a s, s))" "limited (on_stream g)" "limited (on_login l)"
  by (simp_all add: limited_def reads_def on_stream_def on_login_def set_hub_def set_redis_def case_prod_beta unprivileged_same)

lemma limited_claims [simp]: "(\<And>c. limited (f c)) \<Longrightarrow> limited (with_claims f co)"
  by (cases co) (simp_all add: limited_def with_claims_def unprivileged_same)

lemma limited_PostMessage:
  assumes "role_level (Claims.Role c) < 2"
  shows "limited (on_app (PostMessage w c trace sid bo))"
  unfolding limited_def
proof
  fix s :: "'a hub_state"
  obtain r a calls where p: "PostMessage w c trace sid bo (hs_app s) = (r, a, calls)" by (metis prod_cases3)
  have "frame.stable T w calls" for T
    using PostMessage_low_role [OF assms p] by (simp add: frame.stable_def with_db_def call_effect_no_writes)
  then show "unprivileged s (snd (on_app (PostMessage w c trace sid bo) s))"
    using frame.PostMessage [OF refl TrueI p] by (simp add: p on_app_def unprivileged_same)
qed

lemma limited_CreateSession [simp]: "limited (on_db (CreateSession e c b))"
  by (rule limited_on_db)
     (auto simp: CreateSession_def exec_Inr_iff admin_part_def split: option.splits sum.splits dest!: insert_session_Inr)

lemma limited_CreateUpgradeRequest [simp]: "limited (on_db (CreateUpgradeRequest e co ub))"
  by (rule limited_on_db)
     (auto simp: CreateUpgradeRequest_def exec_Inr_iff insert_preq_Inr admin_part_def Let_def split: option.splits prod.splits sum.splits)

definition adds_normal_user :: "platform \<Rightarrow> platform \<Rightarrow> bool" where
  "adds_normal_user db db' \<longleftrightarrow> db' = db \<or> (\<exists>u. db' = db\<lparr>users := users db @ [u]\<rparr> \<and> u_role u = ''normal_user'')"

lemma adds_normal_user_rules [simp]:
  "adds_normal_user db db" "adds_normal_user db (snd (create_user e n p pw ''normal_user'' msg ans db))"
  using create_user_cases [of e n p pw "''normal_user''" msg ans db] unfolding adds_normal_user_def insert_user_Inr by blast+

lemma SelfRegister_adds: "adds_normal_user db (snd (SelfRegister e b db))"
  by (simp add: SelfRegister_def Let_def split: option.split prod.split)

lemma limited_SelfRegister [simp]: "limited (on_db (SelfRegister e b))"
  unfolding limited_def
proof
  fix s :: "'a hub_state"
  show "unprivileged s (snd (on_db (SelfRegister e b) s))"
    using SelfRegister_adds [of "sdb s" e b] unfolding adds_normal_user_def
  proof
    assume "\<exists>u. snd (SelfRegister e b (sdb s)) = (sdb s)\<lparr>users := users (sdb s) @ [u]\<rparr> \<and> u_role u = ''normal_user''"
    then obtain u where "snd (SelfRegister e b (sdb s)) = (sdb s)\<lparr>users := users (sdb s) @ [u]\<rparr>" "u_role u = ''normal_user''" by blast
    then show ?thesis unfolding unprivileged_def
      by (auto simp: on_db_def set_db_def set_hub_def case_prod_beta intro!: exI [of _ "[u]"])
  qed (simp add: on_db_def case_prod_beta unprivileged_same)
qed

definition low_claims :: "Claims option \<Rightarrow> bool" where
  "low_claims co \<longleftrightarrow> (\<forall>c. co = Some c \<longrightarrow> role_level (Claims.Role c) < 2)"

lemma limited_post: "low_claims co \<Longrightarrow> limited (with_claims (\<lambda>c. on_app (PostMessage w c (tr c) (sd c) (bo c))) co)"
  by (cases co) (simp_all add: low_claims_def limited_def with_claims_def unprivileged_same limited_PostMessage [unfolded limited_def])

lemma low_handlers_limited:
  "list_all (\<lambda>(n, f). n \<in> set public_handlers \<union> set token_handlers \<longrightarrow> (\<forall>co. low_claims co \<longrightarrow> limited (f co))) (handlers w r p)"
  unfolding handlers_def Let_def by (simp add: public_handlers_def token_handlers_def limited_post)

text \<open>
  C8. Callers without an administrative role cannot change administrative data. A request without a
  token the middleware accepts, or with one whose role is below \<open>normal_user\<close> (visitors, stream
  tokens, unknown roles), leaves the files and the tables of workspaces, users, data sources,
  datasets, permissions, dataset tables, fields and documents as they are, whatever its method,
  path and body; only self-registration may append one account, with the role \<open>normal_user\<close>.
\<close>

theorem unprivileged_requests:
  assumes "ServeHTTP w r s = (a, s')"
    and "\<And>c. Auth (w_jwt w) (w_time w) (w_secret w) (w_exists w) (Some (as_redis (hs_app s))) (rq_auth r) = Inr c
             \<Longrightarrow> role_level (Claims.Role c) < 2"
  shows "unprivileged s s'"
proof (cases rule: ServeHTTP_cases [of w r s])
  case (2 rt h co f)
  have "rt \<in> set Routes" using find_route_mem [OF 2(1)] by simp
  from serve_handler [OF this 2(2)] have "h \<in> set public_handlers \<union> set token_handlers" "low_claims co"
    using assms(2) by (auto simp: low_claims_def handlers_for_def not_le [symmetric] split: if_splits)
  with low_handlers_limited [of w r] 2(3) have "limited (f co)" by (fastforce simp: list_all_iff)
  with assms(1) 2(4) show ?thesis by (metis limited_def snd_conv)
qed (use assms(1) in \<open>simp add: unprivileged_same\<close>)

section \<open>An example\<close>

definition demo_decoders :: decoders where
  "demo_decoders = \<lparr>dc_login = (\<lambda>_. None), dc_self_register = (\<lambda>b. Some (''Ann'', b, ''pw'')), dc_register = (\<lambda>_. None), dc_role = (\<lambda>_. None),
     dc_upgrade = (\<lambda>_. None), dc_review = (\<lambda>_. None),
     dc_session = (\<lambda>_. \<lparr>cs_title = [], cs_data_source = [], cs_dataset = [], cs_query_source = []\<rparr>), dc_message = (\<lambda>_. None),
     dc_source = (\<lambda>_. None), dc_document = (\<lambda>_. None), dc_sql = (\<lambda>_. None), dc_dataset = (\<lambda>_. None), dc_grant = (\<lambda>_. None),
     dc_revoke = (\<lambda>_. None), dc_table = (\<lambda>_. None)\<rparr>"

definition demo_api :: "unit world" where
  "demo_api = \<lparr>w_env = calm_env, w_jwt = demo_jwt JNull, w_time = 0, w_secret = ''k'', w_exists = (\<lambda>_ _. Inr 0), w_limiter = demo_limiter,
     w_keys = demo_secrets, w_data = demo_data_server, w_ai = demo_ai, w_xlsx = demo_excelize, w_msg = demo_world, w_kn = demo_kn ''d1'',
     w_reports = ''reports'', w_unmarshal = (\<lambda>b. Inr (JRaw b)), w_db_up = True, w_redis_up = Some True, w_metrics = JSON StatusOK JNull,
     w_unrouted = (\<lambda>_. JSON StatusNotFound JNull), w_dec = demo_decoders\<rparr>"

definition demo_request :: "string \<Rightarrow> string \<Rightarrow> string \<Rightarrow> http_request" where
  "demo_request m path b = \<lparr>rq_method = m, rq_path = path, rq_auth = \<lparr>hdr_authorization = [], query_token = []\<rparr>, rq_remote = ''10.0.0.1'',
     rq_trace = [], rq_query = (\<lambda>_. []), rq_form = demo_kn_form [], rq_body = b\<rparr>"

definition demo_start :: "unit hub_state" where
  "demo_start = hub_start calm_env ''admin'' ''pw'' \<lparr>Host = ''db'', Port = 3306, RootUser = ''root'', RootPass = []\<rparr> () Map.empty"

lemma demo_routes:
  "find_route ''POST'' ''/v1/auth/self-register'' = Some (open_route ''POST'' ''/v1/auth/self-register'' ''SelfRegister'')"
  "find_route ''GET'' ''/version'' = Some (open_route ''GET'' ''/version'' ''Version'')"
  by code_simp+

lemma demo_register:
  "\<exists>a s'. ServeHTTP demo_api (demo_request ''POST'' ''/v1/auth/self-register'' ''555'') demo_start = (a, s')
     \<and> map u_role (users (sdb s')) = [''super_admin'', ''normal_user''] \<and> hs_sql s' = []"
proof -
  have trim: "TrimSpace ''Ann'' = ''Ann''" "TrimSpace ''555'' = ''555''" by (simp_all add: trim_eval go_str)
  have start: "sdb demo_start = fresh_platform\<lparr>users := [\<lparr>u_id = ''default-id'', u_ws = DemoWorkspaceID, u_email = ''admin'', u_hash = CHR ''$'' # ''pw'',
      u_role = ''super_admin'', u_name = seed_name, u_phone = [], u_created = 0\<rparr>]\<rparr>"
    by (simp add: demo_start_def hub_start_def EnsureAdminUser_def query_row_def exec_def insert_user_def fresh_platform_def empty_platform_def
        demoWorkspaceID_def DemoWorkspaceID_def)
  have "map u_role (users (snd (SelfRegister calm_env (Some (''Ann'', ''555'', ''pw'')) (sdb demo_start)))) = [''super_admin'', ''normal_user'']"
    by (simp add: SelfRegister_def create_user_def trim start count_or_zero_def query_row_def exec_def insert_user_def fresh_platform_def
        empty_platform_def nat_dec.simps Let_def)
  then show ?thesis
    by (simp add: ServeHTTP_def demo_request_def demo_routes serve_def open_route_def handlers_def demo_api_def demo_decoders_def Let_def
        on_db_def set_db_def set_hub_def case_prod_beta) (simp add: demo_start_def hub_start_def)
qed

theorem hub_well_typed_witness:
  "\<exists>s. hub_reach (\<lambda>w. w = demo_api) demo_start s \<and> map u_role (users (sdb s)) = [''super_admin'', ''normal_user'']
     \<and> hs_sql s = [] \<and> platform_typed (sdb s) \<and> bus_inv (sbus s) \<and> mgr_inv (as_mgr (hs_app s))"
proof -
  obtain a s where s: "ServeHTTP demo_api (demo_request ''POST'' ''/v1/auth/self-register'' ''555'') demo_start = (a, s)"
      "map u_role (users (sdb s)) = [''super_admin'', ''normal_user'']" "hs_sql s = []" using demo_register by (elim exE conjE)
  have reach: "hub_reach (\<lambda>w. w = demo_api) demo_start s" by (rule hub_reach.step [OF hub_reach.start hub_evolve.request [OF refl s(1)]])
  have "hub_sql_frame (mw_hub_sql (w_msg w))" if "w = demo_api" for w using that by (simp add: demo_api_def hub_sql_frame_def)
  from hub_well_typed [OF reach [unfolded demo_start_def] this] reach s(2,3) show ?thesis by (intro exI [of _ s]) simp
qed

theorem GET_is_safe_witness:
  "\<exists>s'. ServeHTTP demo_api (demo_request ''GET'' ''/version'' []) demo_start = (say Version, s') \<and> s' = demo_start"
proof -
  obtain s' where "ServeHTTP demo_api (demo_request ''GET'' ''/version'' []) demo_start = (say Version, s')"
    by (simp add: ServeHTTP_def demo_request_def demo_routes serve_def open_route_def handlers_def Let_def reads_def)
  moreover from GET_is_safe [OF this] have "s' = demo_start" by (auto simp: demo_request_def say_def)
  ultimately show ?thesis by blast
qed

theorem unprivileged_requests_witness:
  "\<exists>a s'. ServeHTTP demo_api (demo_request ''POST'' ''/v1/auth/self-register'' ''555'') demo_start = (a, s')
     \<and> map u_role (users (sdb s')) = [''super_admin'', ''normal_user''] \<and> unprivileged demo_start s'"
proof -
  obtain a s where s: "ServeHTTP demo_api (demo_request ''POST'' ''/v1/auth/self-register'' ''555'') demo_start = (a, s)"
      "map u_role (users (sdb s)) = [''super_admin'', ''normal_user'']" "hs_sql s = []" using demo_register by (elim exE conjE)
  have "unprivileged demo_start s"
    by (rule unprivileged_requests [OF s(1)]) (simp add: demo_request_def Auth_def bearer_token_def HasPrefix_def go_str Let_def)
  with s show ?thesis by (intro exI conjI)
qed

end
