(* ===== verification/Sse_Stream.thy ===== *)
theory Sse_Stream
  imports Go_Json Sessions
begin

text \<open>
  The event stream that a browser reads: the loop of \<open>SessionStream\<close>
  (\<open>internal/handlers/handlers.go\<close>) after its subscription, which writes the events it receives to
  the connection. The reference for the other end is the stream interpretation of the WHATWG HTML
  standard (\<open>EventSource\<close>). Together with the bus this gives what a client sees: complete events,
  in order, each one published to its session, wherever the connection breaks.
\<close>

section \<open>The handler\<close>

definition stream_headers :: "(string \<times> string) list" where
  "stream_headers =
    [(''Content-Type'', ''text/event-stream''), (''Cache-Control'', ''no-cache''), (''Connection'', ''keep-alive''), (''X-Accel-Buffering'', ''no'')]"

text \<open>The headers, or an error when the connection cannot be flushed.\<close>

definition stream_begin :: "bool \<Rightarrow> response + (string \<times> string) list" where
  "stream_begin flushable =
     (if flushable then Inr stream_headers else Inl (errJSON StatusInternalServerError ''streaming unsupported''))"

text \<open>The four writes for an event; \<open>json.Encoder.Encode\<close> ends the value with a newline.\<close>

definition event_writes :: "event \<Rightarrow> string list" where
  "event_writes ev = [''event: '' @ ev_type ev @ [newline], ''data: '', json_encode (ev_data ev) @ [newline], [newline]]"

text \<open>\<open>werr k = Some n\<close>: the \<open>k\<close>-th write of the stream fails after \<open>n\<close> bytes.\<close>

fun write_all :: "(nat \<Rightarrow> nat option) \<Rightarrow> nat \<Rightarrow> string list \<Rightarrow> string \<times> bool" where
  "write_all werr k [] = ([], True)"
| "write_all werr k (c # cs) =
     (case werr k of
        Some n \<Rightarrow> (take n c, False)
      | None \<Rightarrow> (case write_all werr (Suc k) cs of (t, fin) \<Rightarrow> (c @ t, fin)))"

text \<open>The outcomes of the \<open>select\<close>: the request ended, or a receive on the channel.\<close>

datatype select = CtxDone | FromBus recv

fun stream_loop :: "(nat \<Rightarrow> nat option) \<Rightarrow> nat \<Rightarrow> select list \<Rightarrow> string" where
  "stream_loop werr k [] = []"
| "stream_loop werr k (CtxDone # xs) = []"
| "stream_loop werr k (FromBus Ended # xs) = []"
| "stream_loop werr k (FromBus Blocked # xs) = stream_loop werr k xs"
| "stream_loop werr k (FromBus (Received ev) # xs) =
     (case write_all werr k (event_writes ev) of
        (t, False) \<Rightarrow> t
      | (t, True) \<Rightarrow> t @ stream_loop werr (k + 4) xs)"

text \<open>The deferred functions: the warning about dropped events, then the end of the subscription.\<close>

definition stream_dropped :: "memory_bus \<Rightarrow> int option" where
  "stream_dropped bus = (let d = TotalDrops bus in if d > 0 then Some d else None)"

section \<open>The reader\<close>

text \<open>The complete lines of a text; a line ends with CR LF, LF or CR.\<close>

fun sse_lines :: "string \<Rightarrow> string \<Rightarrow> string list" where
  "sse_lines acc [] = []"
| "sse_lines acc (c # s) =
     (if c = newline then rev acc # sse_lines [] s
      else if c = CHR 0x0D then
        (case s of
           [] \<Rightarrow> [rev acc]
         | d # s' \<Rightarrow> rev acc # (if d = newline then sse_lines [] s' else sse_lines [] s))
      else sse_lines (c # acc) s)"

definition sse_field :: "string \<Rightarrow> string \<times> string" where
  "sse_field l =
     (let v = drop 1 (dropWhile (\<lambda>c. c \<noteq> CHR '':'') l)
      in (takeWhile (\<lambda>c. c \<noteq> CHR '':'') l, if HasPrefix v '' '' then drop 1 v else v))"

text \<open>
  The type and the data lines collected so far. An empty line dispatches the event, unless it has
  no data; an event that is still incomplete at the end is discarded.
\<close>

fun sse_events :: "string \<Rightarrow> string list \<Rightarrow> string list \<Rightarrow> (string \<times> string) list" where
  "sse_events typ ds [] = []"
| "sse_events typ ds (l # ls) =
     (if l = [] then
        (if ds = [] then sse_events [] [] ls
         else (if typ = [] then ''message'' else typ, Join ds [newline]) # sse_events [] [] ls)
      else (case sse_field l of
              (f, v) \<Rightarrow> if f = ''event'' then sse_events v ds ls
                         else if f = ''data'' then sse_events typ (ds @ [v]) ls
                         else sse_events typ ds ls))"

definition event_source :: "string \<Rightarrow> (string \<times> string) list" where
  "event_source s = sse_events [] [] (sse_lines [] s)"

section \<open>What was written is what is read\<close>

definition event_frame :: "event \<Rightarrow> string" where
  "event_frame ev = concat (event_writes ev)"

definition clean_event :: "event \<Rightarrow> bool" where
  "clean_event ev \<longleftrightarrow> ev_type ev \<noteq> [] \<and> printable (ev_type ev) \<and> json_plain (ev_data ev)"

lemma printable_no_break: "printable s \<Longrightarrow> newline \<notin> set s \<and> CHR 0x0D \<notin> set s"
  by (auto simp: printable_def list_all_iff byte_def)

lemma sse_lines_line: "newline \<notin> set l \<Longrightarrow> CHR 0x0D \<notin> set l \<Longrightarrow> sse_lines acc (l @ newline # s) = (rev acc @ l) # sse_lines [] s"
  by (induction l arbitrary: acc) auto

lemma frame_lines:
  assumes "clean_event ev"
  shows "sse_lines [] (event_frame ev @ s) = [''event: '' @ ev_type ev, ''data: '' @ json_encode (ev_data ev), []] @ sse_lines [] s"
proof -
  have t: "newline \<notin> set (''event: '' @ ev_type ev)" "CHR 0x0D \<notin> set (''event: '' @ ev_type ev)"
    using assms printable_no_break by (auto simp: clean_event_def)
  have d: "newline \<notin> set (''data: '' @ json_encode (ev_data ev))" "CHR 0x0D \<notin> set (''data: '' @ json_encode (ev_data ev))"
    using assms printable_no_break [OF json_encode_printable [OF plain_no_raw]] by (auto simp: clean_event_def)
  have "event_frame ev @ s = (''event: '' @ ev_type ev) @ newline # (''data: '' @ json_encode (ev_data ev)) @ newline # newline # s"
    by (simp add: event_frame_def event_writes_def)
  then show ?thesis unfolding sse_lines_line [OF t] sse_lines_line [OF d] by (simp only: sse_lines_line [OF t] sse_lines_line [OF d]) simp
qed

lemma frame_events:
  assumes "clean_event ev"
  shows "event_source (event_frame ev @ s) = (ev_type ev, json_encode (ev_data ev)) # event_source s"
  using assms unfolding event_source_def frame_lines [OF assms]
  by (simp add: sse_field_def HasPrefix_def clean_event_def Let_def)

lemma frames_events:
  "list_all clean_event evs \<Longrightarrow> event_source (concat (map event_frame evs)) = map (\<lambda>ev. (ev_type ev, json_encode (ev_data ev))) evs"
  by (induction evs) (simp_all add: frame_events, simp add: event_source_def)

section \<open>Broken connections\<close>

lemma sse_lines_prefix: "prefix (sse_lines acc p) (sse_lines acc (p @ q))"
proof (induction acc p rule: sse_lines.induct)
  case (2 acc c s)
  then show ?case by (cases s; cases q) auto
qed simp

lemma sse_events_prefix: "prefix (sse_events t d ls) (sse_events t d (ls @ ls'))"
  by (induction t d ls rule: sse_events.induct) (auto split: prod.splits)

lemma event_source_prefix: "prefix p s \<Longrightarrow> prefix (event_source p) (event_source s)"
proof -
  assume "prefix p s"
  then obtain q where "s = p @ q" by (auto simp: prefix_def)
  then obtain ls where "sse_lines [] s = sse_lines [] p @ ls" using sse_lines_prefix [of "[]" p q] by (auto simp: prefix_def)
  then show ?thesis using sse_events_prefix [of "[]" "[]" "sse_lines [] p" ls] by (simp add: event_source_def)
qed

text \<open>The events the loop takes from the bus.\<close>

fun sel_events :: "select list \<Rightarrow> event list" where
  "sel_events [] = []"
| "sel_events (CtxDone # xs) = []"
| "sel_events (FromBus Ended # xs) = []"
| "sel_events (FromBus Blocked # xs) = sel_events xs"
| "sel_events (FromBus (Received ev) # xs) = ev # sel_events xs"

lemma write_all_prefix:
  "write_all werr k cs = (t, fin) \<Longrightarrow> prefix t (concat cs) \<and> (fin \<longrightarrow> t = concat cs)"
  by (induction werr k cs arbitrary: t fin rule: write_all.induct) (auto split: option.splits prod.splits simp: take_is_prefix prefix_prefix)

lemma write_all_calm: "write_all (\<lambda>_. None) k cs = (concat cs, True)"
  by (induction cs arbitrary: k) auto

lemma stream_loop_prefix: "prefix (stream_loop werr k xs) (concat (map event_frame (sel_events xs)))"
proof (induction werr k xs rule: stream_loop.induct)
  case (5 werr k ev xs)
  obtain t fin where w: "write_all werr k (event_writes ev) = (t, fin)" by force
  note t = write_all_prefix [OF w, folded event_frame_def]
  show ?case
  proof (cases fin)
    case True
    with w t 5 show ?thesis by (simp del: write_all.simps)
  next
    case False
    with w t show ?thesis by (simp add: prefix_prefix del: write_all.simps)
  qed
qed auto

lemma stream_loop_calm: "stream_loop (\<lambda>_. None) k xs = concat (map event_frame (sel_events xs))"
  by (induction "\<lambda>_ :: nat. None :: nat option" k xs rule: stream_loop.induct) (simp_all add: write_all_calm event_frame_def del: write_all.simps)

lemma prefix_mapD: "prefix xs (map f ys) \<Longrightarrow> \<exists>n. xs = map f (take n ys)"
  by (metis prefix_def append_eq_conv_conj take_map)

text \<open>The stream as its client reads it, with the JSON text of each event parsed.\<close>

definition client_view :: "string \<Rightarrow> (string \<times> jtree option) list" where
  "client_view received = map (\<lambda>(t, d). (t, json_read d)) (event_source received)"

definition sent_view :: "event list \<Rightarrow> (string \<times> jtree option) list" where
  "sent_view evs = map (\<lambda>ev. (ev_type ev, Some (json_tree (ev_data ev)))) evs"

lemma client_view_frames:
  assumes "list_all clean_event evs" and "prefix p (concat (map event_frame evs))"
  shows "\<exists>n. client_view p = sent_view (take n evs)"
proof -
  obtain n where n: "event_source p = map (\<lambda>ev. (ev_type ev, json_encode (ev_data ev))) (take n evs)"
    using event_source_prefix [OF assms(2)] unfolding frames_events [OF assms(1)] by (blast dest: prefix_mapD)
  have "\<forall>ev \<in> set (take n evs). json_plain (ev_data ev)"
    using assms(1) by (auto simp: list_all_iff clean_event_def dest: in_set_takeD)
  then show ?thesis
    by (intro exI [of _ n]) (simp add: client_view_def sent_view_def n json_read_encode)
qed

lemma client_view_all: "list_all clean_event evs \<Longrightarrow> client_view (concat (map event_frame evs)) = sent_view evs"
  unfolding client_view_def sent_view_def frames_events
  by (auto simp: list_all_iff clean_event_def json_read_encode)

text \<open>
  C12. What a browser sees. From a subscription on, as long as it is not cancelled, whatever happens on
  the bus and wherever the connection breaks (a write may fail after any number of bytes, and the
  client may have received any prefix of what was written), the events a client dispatches, with
  their data parsed, are a subsequence, in order and unaltered, of the events published to its
  session; and they are all of them when nothing failed, everything was read from the channel and
  at most 32 events were published.
\<close>

theorem client_sees_published:
  assumes "bus_inv b" and "Subscribe sid b = (ch, b0)" and "bus_run ops b0 = Some (b', r)" and "OpCancel sid ch \<notin> set ops"
    and "list_all clean_event (pubs sid ops)" and "prefix (sel_events sels) (recvs ch r)"
    and "prefix received (stream_loop werr 0 sels)"
  shows "\<exists>evs. subseq evs (pubs sid ops) \<and> client_view received = sent_view evs
     \<and> (werr = (\<lambda>_. None) \<and> received = stream_loop werr 0 sels \<and> sel_events sels = recvs ch r \<and> buf b' ch = []
         \<and> length (pubs sid ops) \<le> chan_cap \<longrightarrow> evs = pubs sid ops)"
proof -
  have b0: "b0 = snd (Subscribe sid b)" and ch: "ch = next_chan b"
    using assms(2) Subscribe_fields(1) [of sid b] by (simp_all add: prod_eq_iff)
  have "bus_inv b0" "ch \<in> set (sub_list b0 sid)" "buf b0 ch = []" using assms(1) unfolding b0 ch by (simp_all add: inv_rules)
  from bus_run_delivery [OF this(1,2) assms(3,4)] this(3)
  have sub: "subseq (recvs ch r @ buf b' ch) (pubs sid ops)" and all: "length (pubs sid ops) \<le> chan_cap \<Longrightarrow> recvs ch r @ buf b' ch = pubs sid ops"
    by simp_all
  have "subseq (sel_events sels) (recvs ch r @ buf b' ch)" using assms(6) by (metis prefix_imp_subseq prefix_prefix)
  with sub have taken: "subseq (sel_events sels) (pubs sid ops)" by (rule subseq_order.trans [rotated])
  have "set (sel_events sels) \<subseteq> set (pubs sid ops)" using list_emb_set [OF taken] by blast
  then have clean: "list_all clean_event (sel_events sels)" using assms(5) by (auto simp: list_all_iff)
  show ?thesis
  proof (cases "werr = (\<lambda>_. None) \<and> received = stream_loop werr 0 sels \<and> sel_events sels = recvs ch r \<and> buf b' ch = [] \<and> length (pubs sid ops) \<le> chan_cap")
    case True
    with all have "sel_events sels = pubs sid ops" by simp
    with True clean show ?thesis by (intro exI [of _ "pubs sid ops"]) (simp add: stream_loop_calm client_view_all)
  next
    case False
    have "prefix received (concat (map event_frame (sel_events sels)))"
      using assms(7) stream_loop_prefix by (rule prefix_order.trans)
    then obtain n where "client_view received = sent_view (take n (sel_events sels))" using client_view_frames [OF clean] by blast
    moreover have "subseq (take n (sel_events sels)) (pubs sid ops)"
      using taken by (meson prefix_imp_subseq subseq_order.trans take_is_prefix)
    ultimately show ?thesis using False by blast
  qed
qed

theorem client_sees_published_witness:
  "let e = \<lparr>ev_type = ''result'', ev_data = JObj [(''rows'', JInt 2)]\<rparr>; ops = [OpPublish ''s'' e, OpReceive 0];
       sels = [FromBus (Received e)]; werr = (\<lambda>_. None)
   in bus_inv NewMemoryBus
      \<and> (\<exists>b' r. bus_run ops (snd (Subscribe ''s'' NewMemoryBus)) = Some (b', r) \<and> buf b' 0 = [] \<and> recvs 0 r = [e])
      \<and> clean_event e \<and> client_view (stream_loop werr 0 sels) = sent_view [e]"
proof -
  let ?e = "\<lparr>ev_type = ''result'', ev_data = JObj [(''rows'', JInt 2)]\<rparr>"
  let ?ops = "[OpPublish ''s'' ?e, OpReceive 0]" and ?sels = "[FromBus (Received ?e)]"
  have sub: "Subscribe ''s'' NewMemoryBus = (0, snd (Subscribe ''s'' NewMemoryBus))"
    by (simp add: Subscribe_def NewMemoryBus_def)
  have run: "\<exists>b' r. bus_run ?ops (snd (Subscribe ''s'' NewMemoryBus)) = Some (b', r) \<and> buf b' 0 = [] \<and> recvs 0 r = [?e]"
  proof -
    have "case bus_run ?ops (snd (Subscribe ''s'' NewMemoryBus)) of None \<Rightarrow> False | Some (b', r) \<Rightarrow> buf b' 0 = [] \<and> recvs 0 r = [?e]"
      by code_simp
    then show ?thesis by (auto split: option.splits)
  qed
  then obtain b' r where r: "bus_run ?ops (snd (Subscribe ''s'' NewMemoryBus)) = Some (b', r)" "buf b' 0 = []" "recvs 0 r = [?e]"
    by blast
  have clean: "clean_event ?e" by code_simp
  have "client_view (stream_loop (\<lambda>_. None) 0 ?sels) = sent_view [?e]"
    using client_sees_published [OF bus_inv_New sub r(1), of ?sels "stream_loop (\<lambda>_. None) 0 ?sels" "\<lambda>_. None"] r clean
    by (simp add: chan_cap_def del: stream_loop.simps)
  with run clean bus_inv_New show ?thesis unfolding Let_def by blast
qed

end
