(* ===== verification/Telemetry.thy ===== *)
theory Telemetry
  imports Complex_Main Http
begin

text \<open>
  Observability: the metrics of \<open>internal/telemetry/metrics.go\<close> and the tracing of
  \<open>internal/otelsetup/otel.go\<close>. The Prometheus and OpenTelemetry libraries are not part of the
  program: what the hub asks of them is a sequence of calls, a value of \<open>prom_call\<close>. The rules of
  Prometheus that the code relies on, since the library panics when they are broken, are
  \<open>registrable\<close> (a metric name is registered once) and \<open>call_ok\<close> (a call names a registered
  metric of the right kind and gives one value per label).
\<close>

section \<open>The collectors\<close>

datatype metric_kind = Counter | Histogram "rat list option"

record collector =
  m_name :: string
  m_help :: string
  m_kind :: metric_kind
  m_labels :: "string list"

definition httpRequests :: collector where
  "httpRequests = \<lparr>m_name = ''hub_http_requests_total'', m_help = ''Total HTTP requests'', m_kind = Counter,
     m_labels = [''code'', ''method'', ''path'']\<rparr>"

text \<open>\<open>None\<close>: the default buckets of the library.\<close>

definition httpDuration :: collector where
  "httpDuration = \<lparr>m_name = ''hub_http_request_duration_seconds'', m_help = ''HTTP request duration'', m_kind = Histogram None,
     m_labels = [''method'', ''path'']\<rparr>"

definition nl2sqlDuration :: collector where
  "nl2sqlDuration = \<lparr>m_name = ''hub_nl2sql_duration_seconds'', m_help = ''NL2SQL gRPC call duration in seconds'',
     m_kind = Histogram (Some [1 / 10, 1 / 2, 1, 2, 5, 10, 30]), m_labels = []\<rparr>"

definition agentPipelineTasks :: collector where
  "agentPipelineTasks = \<lparr>m_name = ''hub_agent_pipeline_tasks_total'', m_help = ''Total number of agent pipeline tasks submitted'',
     m_kind = Counter, m_labels = []\<rparr>"

definition taskTimeoutCounter :: collector where
  "taskTimeoutCounter = \<lparr>m_name = ''hub_task_timeout_total'', m_help = ''Total number of async tasks that timed out'', m_kind = Counter, m_labels = []\<rparr>"

definition tokenRevocationFailures :: collector where
  "tokenRevocationFailures = \<lparr>m_name = ''hub_token_revocation_failures_total'',
     m_help = ''Total number of JWT revocation check failures (Redis unavailable etc.)'', m_kind = Counter, m_labels = []\<rparr>"

text \<open>The accessors other packages would use.\<close>

definition NL2SQLDuration :: collector where
  "NL2SQLDuration = nl2sqlDuration"

definition AgentPipelineTasks :: collector where
  "AgentPipelineTasks = agentPipelineTasks"

text \<open>\<open>prometheus.MustRegister\<close>: a panic (\<open>None\<close>) on a name that is taken.\<close>

fun registrable :: "collector list \<Rightarrow> collector list \<Rightarrow> collector list option" where
  "registrable reg [] = Some reg"
| "registrable reg (c # cs) = (if m_name c \<in> m_name ` set reg then None else registrable (reg @ [c]) cs)"

definition telemetry_init :: "collector list \<Rightarrow> collector list option" where
  "telemetry_init reg = registrable reg [httpRequests, httpDuration, nl2sqlDuration, agentPipelineTasks]"

text \<open>The registry of the process: the collectors of this package and those of \<open>async\<close> and \<open>auth\<close>.\<close>

definition metrics_registry :: "collector list" where
  "metrics_registry = [taskTimeoutCounter, tokenRevocationFailures, httpRequests, httpDuration, nl2sqlDuration, agentPipelineTasks]"

section \<open>The middleware\<close>

datatype prom_call = Inc string "string list" | Observe string "string list" int

fun call_ok :: "collector list \<Rightarrow> prom_call \<Rightarrow> bool" where
  "call_ok reg (Inc n ls) = (\<exists>c \<in> set reg. m_name c = n \<and> m_kind c = Counter \<and> length ls = length (m_labels c))"
| "call_ok reg (Observe n ls d) = (\<exists>c \<in> set reg. m_name c = n \<and> m_kind c \<noteq> Counter \<and> length ls = length (m_labels c))"

text \<open>
  The path label: the pattern chi reports after routing (\<open>None\<close> without a route context), never the
  path itself.
\<close>

definition metric_route :: "string option \<Rightarrow> string" where
  "metric_route pattern = (case pattern of None \<Rightarrow> ''unknown'' | Some p \<Rightarrow> if p \<noteq> [] then p else ''unknown'')"

text \<open>
  What the middleware records after the handler has answered with \<open>code\<close>, the status its wrapped
  response writer saw; \<open>elapsed\<close> is the duration in nanoseconds, which the library gets in seconds.
\<close>

definition PrometheusMiddleware :: "nat \<Rightarrow> string \<Rightarrow> string option \<Rightarrow> int \<Rightarrow> prom_call list" where
  "PrometheusMiddleware code m pattern elapsed =
     [Inc (m_name httpRequests) [nat_dec code, m, metric_route pattern],
      Observe (m_name httpDuration) [m, metric_route pattern] elapsed]"

lemmas collector_defs = httpRequests_def httpDuration_def nl2sqlDuration_def agentPipelineTasks_def taskTimeoutCounter_def tokenRevocationFailures_def

text \<open>The registration never panics, in whichever order the packages are initialised.\<close>

lemma telemetry_init_total:
  "telemetry_init [taskTimeoutCounter, tokenRevocationFailures] = Some metrics_registry"
  "registrable (the (telemetry_init [])) [taskTimeoutCounter, tokenRevocationFailures] \<noteq> None"
  by (simp_all add: telemetry_init_def metrics_registry_def collector_defs)

text \<open>Every request is counted once and timed once, with calls the library accepts.\<close>

lemma PrometheusMiddleware_ok: "list_all (call_ok metrics_registry) (PrometheusMiddleware code m pattern elapsed)"
  by (simp add: PrometheusMiddleware_def metrics_registry_def collector_defs)

text \<open>The label values of a request are bounded by the routing table, not by the paths clients send.\<close>

lemma metric_labels_bounded:
  assumes "Inc n ls \<in> set (PrometheusMiddleware code m pattern elapsed)"
  shows "\<exists>p. ls = [nat_dec code, m, p] \<and> (p = ''unknown'' \<or> pattern = Some p)"
  using assms by (auto simp: PrometheusMiddleware_def metric_route_def split: option.splits)

section \<open>Tracing\<close>

datatype propagator = TraceContext | Baggage

text \<open>The global tracer: the endpoint of its exporter, when it has one, and its propagators.\<close>

record tracing =
  tr_exporter :: "string option"
  tr_propagators :: "propagator list"

text \<open>
  \<open>otelsetup.Init\<close>; \<open>new_exporter\<close> is the OTLP exporter of the library. An error leaves the global
  tracer as it was.
\<close>

definition otel_Init :: "(string \<Rightarrow> string) \<Rightarrow> (string \<Rightarrow> err) \<Rightarrow> err \<times> tracing option" where
  "otel_Init env new_exporter =
     (let ep = env ''HUB_OTEL_EXPORTER_ENDPOINT'' in
      if ep \<noteq> [] then
        (case new_exporter ep of
           Some m \<Rightarrow> (Some m, None)
         | None \<Rightarrow> (None, Some \<lparr>tr_exporter = Some ep, tr_propagators = [TraceContext, Baggage]\<rparr>))
      else (None, Some \<lparr>tr_exporter = None, tr_propagators = [TraceContext, Baggage]\<rparr>))"

lemma otel_Init_total: "env ''HUB_OTEL_EXPORTER_ENDPOINT'' = [] \<Longrightarrow> fst (otel_Init env new_exporter) = None"
  by (simp add: otel_Init_def)

lemma otel_Init_propagates:
  "otel_Init env new_exporter = (None, Some t) \<Longrightarrow> tr_propagators t = [TraceContext, Baggage]"
  by (auto simp: otel_Init_def Let_def split: if_splits option.splits)

end
