(* ===== verification/Config.thy ===== *)
theory Config
  imports Go_Strings
begin

text \<open>
  Configuration: \<open>internal/config/config.go\<close>. The environment is a function from names to
  values, the empty text standing for an unset variable as \<open>os.Getenv\<close> has it;
  \<open>time.ParseDuration\<close> and \<open>os.TempDir\<close> are arguments. Durations are nanoseconds.
  \<open>strconv.ParseInt(v, 10, 32)\<close> is written out.
\<close>

record config =
  HTTPAddr :: string
  GRPCAddr :: string
  RedisAddr :: string
  JWTSecret :: string
  SeedEmail :: string
  SeedPassword :: string
  NL2SQLTarget :: string
  LLMBaseURL :: string
  LLMModel :: string
  LLMAPIKey :: string
  LLMTimeout :: int
  ApprovalTTL :: int
  QueryMaxRows :: int
  QueryTimeout :: int
  SchemaCacheTTL :: int
  SchemaMaxTables :: int
  SchemaMaxColumnsPerTable :: int
  DBEncryptionKey :: string
  ReportsDir :: string
  KnowledgeFilesDir :: string
  OTelExporterEndpoint :: string
  Env :: string
  NATSURL :: string
  RateLimitFailClosed :: bool
  GRPCCACert :: string
  GRPCServerCert :: string
  GRPCServerKey :: string
  GRPCClientCert :: string
  GRPCClientKey :: string
  MySQLHost :: string
  MySQLPort :: int
  MySQLRootUser :: string
  MySQLRootPass :: string
  MySQLPlatformDB :: string

type_synonym osenv = "string \<Rightarrow> string"

definition getenv :: "osenv \<Rightarrow> string \<Rightarrow> string \<Rightarrow> string" where
  "getenv Getenv key def = (let v = Getenv key in if v = [] then def else v)"

definition mustDur :: "(string \<Rightarrow> int res) \<Rightarrow> osenv \<Rightarrow> string \<Rightarrow> int \<Rightarrow> int" where
  "mustDur ParseDuration Getenv key def =
     (let v = Getenv key in
      if v = [] then def else (case ParseDuration v of Inl _ \<Rightarrow> def | Inr d \<Rightarrow> d))"

text \<open>An optional sign, digits, and a value of 32 bits.\<close>

definition ParseInt32 :: "string \<Rightarrow> int res" where
  "ParseInt32 s =
     (let neg = (s \<noteq> [] \<and> hd s = CHR ''-'');
          ds = (if s \<noteq> [] \<and> (hd s = CHR ''-'' \<or> hd s = CHR ''+'') then tl s else s);
          n = (if neg then - int (dec_val ds) else int (dec_val ds))
      in
      if ds = [] \<or> \<not> list_all is_digit ds then Inl ''invalid syntax''
      else if n < - (2 ^ 31) \<or> n \<ge> 2 ^ 31 then Inl ''value out of range''
      else Inr n)"

definition mustInt32 :: "osenv \<Rightarrow> string \<Rightarrow> int \<Rightarrow> int" where
  "mustInt32 Getenv key def =
     (let v = Getenv key in
      if v = [] then def else (case ParseInt32 v of Inl _ \<Rightarrow> def | Inr n \<Rightarrow> n))"

definition config_errors :: "config \<Rightarrow> string list" where
  "config_errors c =
     (if length (JWTSecret c) < 16 then [''HUB_JWT_SECRET must be >= 16 bytes''] else [])
     @ (if HTTPAddr c \<noteq> [] \<and> \<not> Contains (HTTPAddr c) '':'' then [''HUB_HTTP_ADDR must include port (e.g. :8080)''] else [])
     @ (if GRPCAddr c \<noteq> [] \<and> \<not> Contains (GRPCAddr c) '':'' then [''HUB_GRPC_ADDR must include port (e.g. :9090)''] else [])
     @ (if RedisAddr c \<noteq> [] \<and> \<not> Contains (RedisAddr c) '':'' then [''HUB_REDIS_ADDR must include port (e.g. localhost:6379)''] else [])
     @ (if QueryTimeout c \<le> 0 then [''HUB_QUERY_TIMEOUT must be > 0''] else [])
     @ (if QueryMaxRows c \<le> 0 then [''HUB_QUERY_MAX_ROWS must be > 0''] else [])
     @ (if DBEncryptionKey c = [] then [''HUB_DB_ENCRYPTION_KEY is required''] else [])
     @ (if SchemaCacheTTL c < 0 then [''HUB_SCHEMA_CACHE_TTL must be >= 0''] else [])
     @ (if SchemaMaxTables c \<le> 0 then [''HUB_SCHEMA_MAX_TABLES must be > 0''] else [])
     @ (if SchemaMaxColumnsPerTable c \<le> 0 then [''HUB_SCHEMA_MAX_COLUMNS_PER_TABLE must be > 0''] else [])
     @ (if Env c \<noteq> ''development'' \<and> Env c \<noteq> ''staging'' \<and> Env c \<noteq> ''production''
        then [''HUB_ENV must be one of: development, staging, production''] else [])
     @ (if LLMAPIKey c \<noteq> [] \<and> length (LLMAPIKey c) < 8 then [''HUB_LLM_API_KEY looks too short (< 8 chars)''] else [])"

text \<open>\<open>errors.Join\<close>: nothing when there is no error, otherwise one message per line.\<close>

definition Validate :: "config \<Rightarrow> err" where
  "Validate c = (if config_errors c = [] then None else Some (Join (config_errors c) [newline]))"

abbreviation "Sec \<equiv> (1000000000 :: int)"

definition Load :: "(string \<Rightarrow> int res) \<Rightarrow> string \<Rightarrow> osenv \<Rightarrow> config res" where
  "Load ParseDuration TempDir Getenv =
     (let sec = Getenv ''HUB_JWT_SECRET''; dbEncKey = Getenv ''HUB_DB_ENCRYPTION_KEY'' in
      if sec = [] then Inl ''HUB_JWT_SECRET is required''
      else if dbEncKey = [] then Inl ''HUB_DB_ENCRYPTION_KEY is required (32-byte hex-encoded key)''
      else Inr
        \<lparr>HTTPAddr = getenv Getenv ''HUB_HTTP_ADDR'' '':8080'',
         GRPCAddr = getenv Getenv ''HUB_GRPC_ADDR'' '':9090'',
         RedisAddr = getenv Getenv ''HUB_REDIS_ADDR'' ''localhost:6379'',
         JWTSecret = sec,
         SeedEmail = getenv Getenv ''HUB_SEED_EMAIL'' ''admin@demo.local'',
         SeedPassword = getenv Getenv ''HUB_SEED_PASSWORD'' ''changeme'',
         NL2SQLTarget = getenv Getenv ''HUB_NL2SQL_TARGET'' ''localhost:50051'',
         LLMBaseURL = getenv Getenv ''HUB_LLM_BASE_URL'' ''https://api.openai.com/v1'',
         LLMModel = getenv Getenv ''HUB_LLM_MODEL'' ''gpt-4o-mini'',
         LLMAPIKey = Getenv ''HUB_LLM_API_KEY'',
         LLMTimeout = mustDur ParseDuration Getenv ''HUB_LLM_TIMEOUT'' (60 * Sec),
         ApprovalTTL = mustDur ParseDuration Getenv ''HUB_APPROVAL_TTL'' (24 * 3600 * Sec),
         QueryMaxRows = mustInt32 Getenv ''HUB_QUERY_MAX_ROWS'' 500,
         QueryTimeout = mustDur ParseDuration Getenv ''HUB_QUERY_TIMEOUT'' (30 * Sec),
         SchemaCacheTTL = mustDur ParseDuration Getenv ''HUB_SCHEMA_CACHE_TTL'' (300 * Sec),
         SchemaMaxTables = mustInt32 Getenv ''HUB_SCHEMA_MAX_TABLES'' 50,
         SchemaMaxColumnsPerTable = mustInt32 Getenv ''HUB_SCHEMA_MAX_COLUMNS_PER_TABLE'' 100,
         DBEncryptionKey = dbEncKey,
         ReportsDir = getenv Getenv ''HUB_REPORTS_DIR'' (TempDir @ ''/hub-reports/''),
         KnowledgeFilesDir = getenv Getenv ''HUB_KNOWLEDGE_FILES_DIR'' ''/data/knowledge-files'',
         OTelExporterEndpoint = Getenv ''HUB_OTEL_EXPORTER_ENDPOINT'',
         Env = getenv Getenv ''HUB_ENV'' ''development'',
         NATSURL = getenv Getenv ''HUB_NATS_URL'' ''nats://localhost:4222'',
         RateLimitFailClosed = (Getenv ''HUB_RATELIMIT_FAIL_CLOSED'' = ''true''),
         GRPCCACert = Getenv ''HUB_GRPC_CA_CERT'',
         GRPCServerCert = Getenv ''HUB_GRPC_SERVER_CERT'',
         GRPCServerKey = Getenv ''HUB_GRPC_SERVER_KEY'',
         GRPCClientCert = Getenv ''HUB_GRPC_CLIENT_CERT'',
         GRPCClientKey = Getenv ''HUB_GRPC_CLIENT_KEY'',
         MySQLHost = getenv Getenv ''HUB_MYSQL_HOST'' ''localhost'',
         MySQLPort = mustInt32 Getenv ''HUB_MYSQL_PORT'' 3306,
         MySQLRootUser = getenv Getenv ''HUB_MYSQL_ROOT_USER'' ''root'',
         MySQLRootPass = Getenv ''HUB_MYSQL_ROOT_PASSWORD'',
         MySQLPlatformDB = getenv Getenv ''HUB_MYSQL_PLATFORM_DB'' ''hub_platform''\<rparr>)"

section \<open>Lemmas\<close>

lemma ParseInt32_range: "ParseInt32 s = Inr n \<Longrightarrow> - (2 ^ 31) \<le> n \<and> n < 2 ^ 31"
  by (auto simp: ParseInt32_def Let_def split: if_splits)

lemma mustInt32_range:
  "- (2 ^ 31) \<le> def \<Longrightarrow> def < 2 ^ 31 \<Longrightarrow> - (2 ^ 31) \<le> mustInt32 g k def \<and> mustInt32 g k def < 2 ^ 31"
  by (auto simp: mustInt32_def Let_def split: sum.splits dest: ParseInt32_range)

lemma ParseInt32_int_dec: "- (2 ^ 31) \<le> n \<Longrightarrow> n < 2 ^ 31 \<Longrightarrow> ParseInt32 (int_dec n) = Inr n"
proof -
  assume r: "- (2 ^ 31) \<le> n" "n < 2 ^ 31"
  have plus: "\<not> is_digit CHR ''+''" by (simp add: is_digit_def byte_def)
  have hd: "hd (nat_dec k) \<noteq> CHR ''-'' \<and> hd (nat_dec k) \<noteq> CHR ''+''" for k
    using nat_dec_digits [of k] nat_dec_nonempty [of k] minus_not_digit plus by (cases "nat_dec k") auto
  show ?thesis
    using r hd nat_dec_digits by (cases "n < 0") (auto simp: ParseInt32_def int_dec_def Let_def)
qed

lemma Validate_None_iff:
  "Validate c = None \<longleftrightarrow>
     16 \<le> length (JWTSecret c) \<and> (HTTPAddr c = [] \<or> Contains (HTTPAddr c) '':'')
     \<and> (GRPCAddr c = [] \<or> Contains (GRPCAddr c) '':'') \<and> (RedisAddr c = [] \<or> Contains (RedisAddr c) '':'')
     \<and> 0 < QueryTimeout c \<and> 0 < QueryMaxRows c \<and> DBEncryptionKey c \<noteq> [] \<and> 0 \<le> SchemaCacheTTL c
     \<and> 0 < SchemaMaxTables c \<and> 0 < SchemaMaxColumnsPerTable c
     \<and> Env c \<in> {''development'', ''staging'', ''production''}
     \<and> (LLMAPIKey c = [] \<or> 8 \<le> length (LLMAPIKey c))"
  unfolding Validate_def config_errors_def by (simp add: not_le not_less)

lemma Load_int32:
  assumes "Load PD tmp g = Inr c"
  shows "QueryMaxRows c < 2 ^ 31 \<and> SchemaMaxTables c < 2 ^ 31 \<and> SchemaMaxColumnsPerTable c < 2 ^ 31"
  using assms mustInt32_range [of 500 g "''HUB_QUERY_MAX_ROWS''"] mustInt32_range [of 50 g "''HUB_SCHEMA_MAX_TABLES''"]
    mustInt32_range [of 100 g "''HUB_SCHEMA_MAX_COLUMNS_PER_TABLE''"]
  by (auto simp: Load_def Let_def split: if_splits)

definition minimal_env :: "string \<Rightarrow> string \<Rightarrow> osenv" where
  "minimal_env sec key k = (if k = ''HUB_JWT_SECRET'' then sec else if k = ''HUB_DB_ENCRYPTION_KEY'' then key else [])"

lemma minimal_env_simps:
  "minimal_env sec key ''HUB_JWT_SECRET'' = sec" "minimal_env sec key ''HUB_DB_ENCRYPTION_KEY'' = key"
  "k \<noteq> ''HUB_JWT_SECRET'' \<Longrightarrow> k \<noteq> ''HUB_DB_ENCRYPTION_KEY'' \<Longrightarrow> minimal_env sec key k = []"
  by (simp_all add: minimal_env_def)

lemma default_addresses: "Contains '':8080'' '':''" "Contains '':9090'' '':''" "Contains ''localhost:6379'' '':''"
  by (simp_all add: Contains_iff sublist_Cons_right)

text \<open>
  The built-in defaults are a valid configuration: with only the two required variables set,
  \<open>Load\<close> succeeds, and \<open>Validate\<close> then complains exactly if the secret has fewer than 16
  bytes; without one of the two variables \<open>Load\<close> fails.
\<close>

theorem Load_defaults:
  "if sec = [] \<or> key = [] then isl (Load PD tmp (minimal_env sec key))
   else \<exists>c. Load PD tmp (minimal_env sec key) = Inr c \<and> (Validate c = None \<longleftrightarrow> 16 \<le> length sec)"
proof (cases "sec = [] \<or> key = []")
  case True
  then show ?thesis by (auto simp: Load_def minimal_env_simps Let_def)
next
  case False
  then show ?thesis
    by (simp add: Load_def minimal_env_simps Let_def getenv_def mustDur_def mustInt32_def Validate_None_iff default_addresses)
qed

end
