(* ===== verification/Migrate.thy ===== *)
theory Migrate
  imports Go_Strings "HOL-Library.List_Lexorder"
begin

text \<open>
  Schema migrations: \<open>internal/migrate/migrate.go\<close>. The embedded directory is a list of
  entries; the state is the table \<open>schema_migrations\<close> and two logs: the scripts that MySQL executed
  to their end and the scripts it answered with an error after it had carried out a part of them.
  What MySQL decides is in \<open>mig_env\<close>: the errors of creating and of reading the table, after how
  many rows the reading breaks off (\<open>rows.Err\<close> is not asked), whether a row cannot be scanned,
  and for each file the errors of executing it, whether a part of a failing one took effect, and
  the error of recording it.
\<close>

record mig_file =
  mf_name :: string
  mf_dir :: bool
  mf_content :: string

record mig_env =
  me_create :: err
  me_query :: err
  me_cut :: "nat option"
  me_scan :: err
  me_exec :: "string \<Rightarrow> err"
  me_partly :: "string \<Rightarrow> bool"
  me_record :: "string \<Rightarrow> err"

record mig_state =
  versions :: "string list"
  executed :: "string list"
  partly :: "string list"

abbreviation no_migrations :: mig_state where
  "no_migrations \<equiv> \<lparr>versions = [], executed = [], partly = []\<rparr>"

definition migration_names :: "mig_file list \<Rightarrow> mig_file list" where
  "migration_names entries = sort_key (\<lambda>f. map byte (mf_name f)) (filter (\<lambda>f. \<not> mf_dir f \<and> HasSuffix (mf_name f) ''.sql'') entries)"

text \<open>The loop; the table has \<open>version\<close> as its primary key.\<close>

fun up_loop :: "mig_env \<Rightarrow> string set \<Rightarrow> mig_file list \<Rightarrow> mig_state \<Rightarrow> err \<times> mig_state" where
  "up_loop e applied [] s = (None, s)"
| "up_loop e applied (f # fs) s =
     (let name = mf_name f; sql = TrimSpace (mf_content f) in
      if name \<in> applied \<or> sql = [] then up_loop e applied fs s
      else (case me_exec e name of
              Some m \<Rightarrow> (Some (''migration '' @ name @ '': '' @ m),
                         if me_partly e name then s\<lparr>partly := partly s @ [name]\<rparr> else s)
            | None \<Rightarrow>
                (let s1 = s\<lparr>executed := executed s @ [name]\<rparr>;
                     rec = (if me_record e name \<noteq> None then me_record e name
                            else if name \<in> set (versions s) then Some ''Duplicate entry'' else None)
                 in case rec of
                      Some m \<Rightarrow> (Some (''record migration '' @ name @ '': '' @ m), s1)
                    | None \<Rightarrow> up_loop e applied fs (s1\<lparr>versions := versions s @ [name]\<rparr>))))"

definition Up :: "mig_env \<Rightarrow> mig_file list \<Rightarrow> mig_state \<Rightarrow> err \<times> mig_state" where
  "Up e entries s =
     (case me_create e of
        Some m \<Rightarrow> (Some (''create schema_migrations: '' @ m), s)
      | None \<Rightarrow>
          (case me_query e of
             Some m \<Rightarrow> (Some (''query schema_migrations: '' @ m), s)
           | None \<Rightarrow>
               (let rows = (case me_cut e of None \<Rightarrow> versions s | Some n \<Rightarrow> take n (versions s)) in
                if me_scan e \<noteq> None \<and> rows \<noteq> [] then (me_scan e, s)
                else up_loop e (set rows) (migration_names entries) s)))"

section \<open>Properties\<close>

text \<open>The scripts there are, in order.\<close>

definition scripts :: "mig_file list \<Rightarrow> string list" where
  "scripts entries = map mf_name (filter (\<lambda>f. TrimSpace (mf_content f) \<noteq> []) (migration_names entries))"

text \<open>A sequence of starts of the hub: what each of them answered, and the state at the end.\<close>

fun starts :: "mig_file list \<Rightarrow> mig_env list \<Rightarrow> mig_state \<Rightarrow> err list \<times> mig_state" where
  "starts entries [] s = ([], s)"
| "starts entries (e # es) s =
     (let (r, s1) = Up e entries s; (rs, s2) = starts entries es s1 in (r # rs, s2))"

text \<open>The start failed at script \<open>x\<close>: in executing it, or in recording it after it was executed.\<close>

definition exec_failed :: "string \<Rightarrow> err \<Rightarrow> bool" where
  "exec_failed x r \<longleftrightarrow> (case r of None \<Rightarrow> False | Some m \<Rightarrow> HasPrefix m (''migration '' @ x @ '': ''))"

definition record_failed :: "string \<Rightarrow> err \<Rightarrow> bool" where
  "record_failed x r \<longleftrightarrow> (case r of None \<Rightarrow> False | Some m \<Rightarrow> HasPrefix m (''record migration '' @ x @ '': ''))"

text \<open>Whatever ran, all scripts before it had run.\<close>

definition in_order :: "string list \<Rightarrow> string list \<Rightarrow> bool" where
  "in_order S l \<longleftrightarrow> (\<forall>i < length l. \<exists>j < length S. l ! i = S ! j \<and> set (take j S) \<subseteq> set (take i l))"

lemma filter_not_taken: "distinct (map f xs) \<Longrightarrow> filter (\<lambda>x. f x \<notin> set (take k (map f xs))) xs = drop k xs"
proof (induction xs arbitrary: k)
  case (Cons x xs)
  show ?case
  proof (cases k)
    case (Suc k')
    have "f y \<noteq> f x" if "y \<in> set xs" for y using that Cons.prems by (metis distinct.simps(2) imageI list.set_map list.simps(9))
    then have "filter (\<lambda>y. f y \<noteq> f x \<and> f y \<notin> set (take k' (map f xs))) xs = filter (\<lambda>y. f y \<notin> set (take k' (map f xs))) xs"
      by (intro filter_cong) auto
    with Cons Suc show ?thesis by simp
  qed simp
qed simp

lemma up_loop_applied:
  "up_loop e applied fs s = up_loop e applied (filter (\<lambda>f. mf_name f \<notin> applied \<and> TrimSpace (mf_content f) \<noteq> []) fs) s"
  by (induction e applied fs s rule: up_loop.induct) (auto simp: Let_def split: option.splits)

text \<open>
  The loop over scripts the table was not read to contain: none of them is in the table, or the
  first one is, because the reading broke off before it.
\<close>

lemma up_loop_rest:
  "distinct (map mf_name fs) \<Longrightarrow> mf_name ` set fs \<inter> applied = {} \<Longrightarrow> list_all (\<lambda>f. TrimSpace (mf_content f) \<noteq> []) fs
    \<Longrightarrow> mf_name ` set fs \<inter> set (versions s) = {} \<or> (fs \<noteq> [] \<and> mf_name (hd fs) \<in> set (versions s))
    \<Longrightarrow> up_loop e applied fs s = (r, s')
    \<Longrightarrow> \<exists>n \<le> length fs. versions s' = versions s @ take n (map mf_name fs)
         \<and> (mf_name ` set fs \<inter> set (versions s) = {} \<or> n = 0)
         \<and> (r = None \<and> n = length fs \<and> executed s' = executed s @ take n (map mf_name fs) \<and> partly s' = partly s
          \<or> r \<noteq> None \<and> executed s' = executed s @ take n (map mf_name fs)
             \<and> (partly s' = partly s \<or> (\<exists>x. exec_failed x r \<and> partly s' = partly s @ [x]))
          \<or> r \<noteq> None \<and> n < length fs \<and> record_failed (map mf_name fs ! n) r
             \<and> executed s' = executed s @ take n (map mf_name fs) @ [map mf_name fs ! n] \<and> partly s' = partly s)"
proof (induction fs arbitrary: s)
  case Nil
  then show ?case by auto
next
  case (Cons f fs)
  let ?s1 = "s\<lparr>executed := executed s @ [mf_name f], versions := versions s @ [mf_name f]\<rparr>"
  consider (exec) m where "me_exec e (mf_name f) = Some m"
    | (rec) m where "me_exec e (mf_name f) = None"
        "(if me_record e (mf_name f) \<noteq> None then me_record e (mf_name f)
          else if mf_name f \<in> set (versions s) then Some ''Duplicate entry'' else None) = Some m"
    | (ok) "me_exec e (mf_name f) = None" "me_record e (mf_name f) = None" "mf_name f \<notin> set (versions s)"
    by (cases "me_exec e (mf_name f)"; cases "me_record e (mf_name f)"; cases "mf_name f \<in> set (versions s)") auto
  then show ?case
  proof cases
    case exec
    with Cons.prems have "r = Some (''migration '' @ mf_name f @ '': '' @ m)"
        "s' = (if me_partly e (mf_name f) then s\<lparr>partly := partly s @ [mf_name f]\<rparr> else s)" by (auto simp: Let_def)
    then show ?thesis by (intro exI [of _ 0]) (auto simp: exec_failed_def HasPrefix_def)
  next
    case rec
    with Cons.prems have "r = Some (''record migration '' @ mf_name f @ '': '' @ m)" "s' = s\<lparr>executed := executed s @ [mf_name f]\<rparr>"
      by (auto simp: Let_def split: if_splits)
    then show ?thesis by (intro exI [of _ 0]) (auto simp: record_failed_def HasPrefix_def)
  next
    case ok
    have free: "mf_name ` set (f # fs) \<inter> set (versions s) = {}" using Cons.prems(4) ok(3) by auto
    have "up_loop e applied fs ?s1 = (r, s')" using Cons.prems(2,3,5) ok by (auto simp: Let_def split: if_splits)
    moreover have "mf_name ` set fs \<inter> set (versions ?s1) = {}" using Cons.prems(1) free by auto
    ultimately obtain n where n: "n \<le> length fs" "versions s' = versions ?s1 @ take n (map mf_name fs)"
         "r = None \<and> n = length fs \<and> executed s' = executed ?s1 @ take n (map mf_name fs) \<and> partly s' = partly ?s1
          \<or> r \<noteq> None \<and> executed s' = executed ?s1 @ take n (map mf_name fs)
             \<and> (partly s' = partly ?s1 \<or> (\<exists>x. exec_failed x r \<and> partly s' = partly ?s1 @ [x]))
          \<or> r \<noteq> None \<and> n < length fs \<and> record_failed (map mf_name fs ! n) r
             \<and> executed s' = executed ?s1 @ take n (map mf_name fs) @ [map mf_name fs ! n] \<and> partly s' = partly ?s1"
      using Cons.IH [of ?s1] Cons.prems(1-3) by auto
    have pre: "take (Suc n) (map mf_name (f # fs)) = mf_name f # take n (map mf_name fs)" "map mf_name (f # fs) ! Suc n = map mf_name fs ! n"
      by simp_all
    show ?thesis
    proof (rule exI [of _ "Suc n"], unfold pre, intro conjI)
      show "Suc n \<le> length (f # fs)" "versions s' = versions s @ mf_name f # take n (map mf_name fs)"
          "mf_name ` set (f # fs) \<inter> set (versions s) = {} \<or> Suc n = 0"
        using n(1,2) free by simp_all
    qed (use n(3) in \<open>elim disjE conjE; simp\<close>)
  qed
qed

text \<open>One start continues where the table ends; a cut read makes it repeat one recorded script, whose record fails.\<close>

lemma scripts_distinct: "distinct (map mf_name entries) \<Longrightarrow> distinct (scripts entries)"
  unfolding scripts_def migration_names_def by (auto simp: distinct_map intro: inj_on_subset)

lemma Up_step:
  assumes "distinct (map mf_name entries)" and "versions s = take k (scripts entries)" and "k \<le> length (scripts entries)"
    and "Up e entries s = (r, s')"
  shows "\<exists>n. k + n \<le> length (scripts entries) \<and> versions s' = take (k + n) (scripts entries)
         \<and> (r = None \<and> k + n = length (scripts entries) \<and> executed s' = executed s @ take n (drop k (scripts entries)) \<and> partly s' = partly s
          \<or> r \<noteq> None \<and> executed s' = executed s @ take n (drop k (scripts entries))
             \<and> (partly s' = partly s \<or> (\<exists>x. exec_failed x r \<and> partly s' = partly s @ [x]))
          \<or> r \<noteq> None \<and> (\<exists>j \<le> k + n. j < length (scripts entries) \<and> record_failed (scripts entries ! j) r
             \<and> executed s' = executed s @ take n (drop k (scripts entries)) @ [scripts entries ! j]) \<and> partly s' = partly s)"
proof (cases "s' = s \<and> r \<noteq> None")
  case True
  with assms show ?thesis by (intro exI [of _ 0]) auto
next
  case False
  let ?nonblank = "\<lambda>f. TrimSpace (mf_content f) \<noteq> []" and ?S = "scripts entries"
  let ?fs = "filter ?nonblank (migration_names entries)"
  define j where "j = (case me_cut e of None \<Rightarrow> k | Some n \<Rightarrow> min n k)"
  have all: "map mf_name ?fs = ?S" by (simp add: scripts_def)
  have d: "distinct ?S" by (rule scripts_distinct [OF assms(1)])
  have "up_loop e (set (take j ?S)) (migration_names entries) s = (r, s')"
    using False assms(2,4) by (auto simp: Up_def Let_def j_def split: option.splits if_splits)
  moreover have "filter (\<lambda>f. mf_name f \<notin> set (take j ?S) \<and> ?nonblank f) (migration_names entries) = drop j ?fs"
  proof -
    have "filter (\<lambda>f. mf_name f \<notin> set (take j ?S) \<and> ?nonblank f) (migration_names entries)
        = filter (\<lambda>f. mf_name f \<notin> set (take j (map mf_name ?fs))) ?fs"
      by (simp add: all conj_commute)
    also have "\<dots> = drop j ?fs" using d all by (intro filter_not_taken) simp
    finally show ?thesis .
  qed
  ultimately have rest: "up_loop e (set (take j ?S)) (drop j ?fs) s = (r, s')"
    using up_loop_applied [of e "set (take j ?S)" "migration_names entries" s] by simp
  have names: "map mf_name (drop j ?fs) = drop j ?S" unfolding all [symmetric] drop_map ..
  have nset: "mf_name ` set (drop j ?fs) = set (drop j ?S)" unfolding names [symmetric] by simp
  have nlen: "length (drop j ?fs) = length ?S - j" using names by (metis length_drop length_map)
  have jk: "j \<le> k" by (simp add: j_def split: option.splits)
  have apart: "set (drop i ?S) \<inter> set (take i ?S) = {}" for i
    using d by (metis append_take_drop_id disjoint_iff distinct_append)
  have first: "set (drop j ?S) \<inter> set (versions s) = {} \<or> (drop j ?S \<noteq> [] \<and> hd (drop j ?S) \<in> set (versions s))"
  proof (cases "j = k")
    case True
    then show ?thesis using apart assms(2) by simp
  next
    case False
    with jk have "j < k" by simp
    with assms(2,3) have "hd (drop j ?S) = versions s ! j" "j < length (versions s)" by (simp_all add: hd_drop_conv_nth)
    with \<open>j < k\<close> assms(3) show ?thesis by simp
  qed
  have hd: "drop j ?S \<noteq> [] \<Longrightarrow> mf_name (hd (drop j ?fs)) = hd (drop j ?S)" unfolding names [symmetric] by (simp add: hd_map)
  have nb: "list_all ?nonblank (drop j ?fs)" by (auto simp: list_all_iff dest: in_set_dropD)
  have ne: "drop j ?S \<noteq> [] \<longleftrightarrow> drop j ?fs \<noteq> []" using names by (metis list.map_disc_iff)
  have free: "j = k" if "set (drop j ?S) \<inter> set (versions s) = {}"
  proof (rule ccontr)
    assume "j \<noteq> k"
    with jk assms(2,3) have "?S ! j \<in> set (drop j ?S)" "?S ! j \<in> set (versions s)"
      by (auto simp: in_set_conv_nth intro: exI [of _ 0]) (metis le_neq_implies_less less_le_trans min.absorb2 nth_take)
    with that show False by blast
  qed
  have uniq: "distinct (map mf_name (drop j ?fs))" unfolding names using d by (rule distinct_drop)
  have unread: "mf_name ` set (drop j ?fs) \<inter> set (take j ?S) = {}" unfolding nset by (rule apart)
  have start: "mf_name ` set (drop j ?fs) \<inter> set (versions s) = {} \<or> (drop j ?fs \<noteq> [] \<and> mf_name (hd (drop j ?fs)) \<in> set (versions s))"
    using first hd ne unfolding nset by metis
  obtain n where n: "n \<le> length ?S - j" "versions s' = versions s @ take n (drop j ?S)"
      "set (drop j ?S) \<inter> set (versions s) = {} \<or> n = 0"
      "r = None \<and> n = length ?S - j \<and> executed s' = executed s @ take n (drop j ?S) \<and> partly s' = partly s
        \<or> r \<noteq> None \<and> executed s' = executed s @ take n (drop j ?S)
           \<and> (partly s' = partly s \<or> (\<exists>x. exec_failed x r \<and> partly s' = partly s @ [x]))
        \<or> r \<noteq> None \<and> n < length ?S - j \<and> record_failed (drop j ?S ! n) r
           \<and> executed s' = executed s @ take n (drop j ?S) @ [drop j ?S ! n] \<and> partly s' = partly s"
    using up_loop_rest [OF uniq unread nb start rest] unfolding names nset nlen by (elim exE conjE) (rule that; assumption)
  have same: "take n (drop j ?S) = take n (drop k ?S)" using n(3) free by auto
  have le: "k + n \<le> length ?S" using n(1,3) free assms(3) by auto
  have ver: "versions s' = take (k + n) ?S" unfolding n(2) same assms(2) take_add ..
  have fin: "r = None \<Longrightarrow> k + n = length ?S" using n(3,4) free jk le assms(3) first ne nlen by fastforce
  have again: "n < length ?S - j \<Longrightarrow> j + n \<le> k + n \<and> j + n < length ?S \<and> drop j ?S ! n = ?S ! (j + n)" using jk by simp
  show ?thesis
    by (rule exI [of _ n]) (use n(4) [unfolded same] le ver fin again in metis)
qed

text \<open>What holds after any starts: \<open>rs\<close> are their answers.\<close>

definition migrations_inv :: "string list \<Rightarrow> err list \<Rightarrow> mig_state \<Rightarrow> nat \<Rightarrow> bool" where
  "migrations_inv S rs s k \<longleftrightarrow>
     k \<le> length S \<and> versions s = take k S \<and> set (take k S) \<subseteq> set (executed s) \<and> in_order S (executed s)
     \<and> (\<forall>x. count_list (executed s) x \<le> of_bool (x \<in> set (take k S)) + length (filter (record_failed x) rs))
     \<and> (\<forall>x. count_list (partly s) x \<le> length (filter (exec_failed x) rs))
     \<and> ((\<forall>r \<in> set rs. \<forall>x \<in> set S. \<not> record_failed x r) \<longrightarrow> executed s = take k S)
     \<and> (None \<in> set rs \<longrightarrow> k = length S)"

lemma in_order_snoc: "in_order S l \<Longrightarrow> j < length S \<Longrightarrow> set (take j S) \<subseteq> set l \<Longrightarrow> in_order S (l @ [S ! j])"
  unfolding in_order_def by (auto simp: nth_append less_Suc_eq)

lemma in_order_next:
  "in_order S l \<Longrightarrow> set (take k S) \<subseteq> set l \<Longrightarrow> k + n \<le> length S \<Longrightarrow> in_order S (l @ take n (drop k S))"
proof (induction n)
  case (Suc n)
  then have "in_order S ((l @ take n (drop k S)) @ [S ! (k + n)])"
    by (intro in_order_snoc) (auto simp: take_add)
  with Suc.prems show ?case by (simp add: take_Suc_conv_app_nth)
qed simp

lemma count_distinct: "distinct xs \<Longrightarrow> count_list xs x = of_bool (x \<in> set xs)"
  by (induction xs) auto

lemma count_next:
  assumes "distinct S" and "k + n \<le> length S"
  shows "count_list (take n (drop k S)) x + of_bool (x \<in> set (take k S)) = (of_bool (x \<in> set (take (k + n) S)) :: nat)"
proof -
  have "count_list (take (k + n) S) x = of_bool (x \<in> set (take (k + n) S))" for n
    using assms(1) by (intro count_distinct) simp
  from this [of n] this [of 0] show ?thesis by (simp add: take_add)
qed

lemma migrations_step:
  assumes "distinct (map mf_name entries)" and "migrations_inv (scripts entries) rs s k" and "Up e entries s = (r, s')"
  shows "\<exists>k'. migrations_inv (scripts entries) (rs @ [r]) s' k'"
proof -
  let ?S = "scripts entries"
  note I = assms(2) [unfolded migrations_inv_def]
  have d: "distinct ?S" by (rule scripts_distinct [OF assms(1)])
  have kle: "k \<le> length ?S" and ver: "versions s = take k ?S" using I by blast+
  obtain n where n: "k + n \<le> length ?S" "versions s' = take (k + n) ?S"
     "r = None \<and> k + n = length ?S \<and> executed s' = executed s @ take n (drop k ?S) \<and> partly s' = partly s
      \<or> r \<noteq> None \<and> executed s' = executed s @ take n (drop k ?S) \<and> (partly s' = partly s \<or> (\<exists>x. exec_failed x r \<and> partly s' = partly s @ [x]))
      \<or> r \<noteq> None \<and> (\<exists>j \<le> k + n. j < length ?S \<and> record_failed (?S ! j) r
           \<and> executed s' = executed s @ take n (drop k ?S) @ [?S ! j]) \<and> partly s' = partly s"
    using Up_step [OF assms(1) ver kle assms(3)] by (elim exE conjE) (rule that; assumption)
  have new: "in_order ?S (executed s @ take n (drop k ?S))" "set (take (k + n) ?S) \<subseteq> set (executed s @ take n (drop k ?S))"
    using I n(1) by (auto intro!: in_order_next simp: take_add)
  have none: "None \<in> set rs \<Longrightarrow> k + n = length ?S" using I n(1) by auto
  have clean: "(\<forall>r \<in> set rs. \<forall>x \<in> set ?S. \<not> record_failed x r) \<Longrightarrow> executed s = take k ?S" using I by blast
  have cnt: "count_list (executed s @ take n (drop k ?S)) x \<le> of_bool (x \<in> set (take (k + n) ?S)) + length (filter (record_failed x) rs)" for x
  proof -
    have "count_list (executed s) x \<le> of_bool (x \<in> set (take k ?S)) + length (filter (record_failed x) rs)" using I by blast
    then show ?thesis using count_next [OF d n(1), of x] by simp
  qed
  have grow: "length (filter P rs) \<le> length (filter P (rs @ [r]))" for P by simp
  have part: "count_list (partly s') x \<le> length (filter (exec_failed x) (rs @ [r]))" for x
  proof -
    have "count_list (partly s) x \<le> length (filter (exec_failed x) rs)" using I by blast
    then show ?thesis using n(3) by auto
  qed
  from n(3) consider
      (plain) "executed s' = executed s @ take n (drop k ?S)" "r = None \<Longrightarrow> k + n = length ?S"
    | (again) j where "j \<le> k + n" "j < length ?S" "record_failed (?S ! j) r" "r \<noteq> None"
        "executed s' = (executed s @ take n (drop k ?S)) @ [?S ! j]"
    by (metis append_assoc)
  then have rest: "in_order ?S (executed s') \<and> set (take (k + n) ?S) \<subseteq> set (executed s')
      \<and> (\<forall>x. count_list (executed s') x \<le> of_bool (x \<in> set (take (k + n) ?S)) + length (filter (record_failed x) (rs @ [r])))
      \<and> ((\<forall>r \<in> set (rs @ [r]). \<forall>x \<in> set ?S. \<not> record_failed x r) \<longrightarrow> executed s' = take (k + n) ?S)
      \<and> (None \<in> set (rs @ [r]) \<longrightarrow> k + n = length ?S)"
  proof cases
    case plain
    have "count_list (executed s') x \<le> of_bool (x \<in> set (take (k + n) ?S)) + length (filter (record_failed x) (rs @ [r]))" for x
      using order_trans [OF cnt [of x] add_left_mono [OF grow]] unfolding plain(1) .
    moreover have "(\<forall>r \<in> set (rs @ [r]). \<forall>x \<in> set ?S. \<not> record_failed x r) \<longrightarrow> executed s' = take (k + n) ?S"
      using clean unfolding plain(1) by (auto simp: take_add)
    ultimately show ?thesis using new plain none by auto
  next
    case again
    have "set (take j ?S) \<subseteq> set (executed s @ take n (drop k ?S))"
      using new(2) set_take_subset_set_take [OF again(1), of ?S] by blast
    then have "in_order ?S (executed s')" unfolding again(5) using new(1) again(2) by (intro in_order_snoc) auto
    moreover have "count_list (executed s') x \<le> of_bool (x \<in> set (take (k + n) ?S)) + length (filter (record_failed x) (rs @ [r]))" for x
      using cnt [of x] again(3) unfolding again(5) by auto
    moreover have "?S ! j \<in> set ?S" using again(2) by simp
    ultimately show ?thesis using new(2) none again by auto
  qed
  then have "migrations_inv ?S (rs @ [r]) s' (k + n)" unfolding migrations_inv_def using n(1,2) part by blast
  then show ?thesis ..
qed

lemma starts_inv:
  assumes "distinct (map mf_name entries)"
  shows "migrations_inv (scripts entries) rs0 s0 k0 \<Longrightarrow> starts entries es s0 = (rs, s) \<Longrightarrow> \<exists>k. migrations_inv (scripts entries) (rs0 @ rs) s k"
proof (induction es arbitrary: rs0 s0 k0 rs)
  case (Cons e es)
  obtain r s1 where u: "Up e entries s0 = (r, s1)" by fastforce
  obtain rs1 where st: "starts entries es s1 = (rs1, s)" and rs: "rs = r # rs1" using Cons.prems(2) u by (auto split: prod.splits)
  obtain k1 where "migrations_inv (scripts entries) (rs0 @ [r]) s1 k1" using migrations_step [OF assms Cons.prems(1) u] by blast
  from Cons.IH [OF this st] show ?case by (simp add: rs)
qed auto

lemma migrations_inv_empty: "migrations_inv S [] no_migrations 0"
  by (simp add: migrations_inv_def in_order_def)

lemma in_order_subset: "in_order S l \<Longrightarrow> set l \<subseteq> set S"
  unfolding in_order_def by (metis in_set_conv_nth subsetI)

text \<open>A start that succeeds after earlier ones.\<close>

lemma starts_then_Up:
  assumes "distinct (map mf_name entries)" and "starts entries es no_migrations = (rs, ms)" and "Up e entries ms = (None, ms')"
  shows "versions ms' = scripts entries \<and> set (executed ms') = set (scripts entries)
    \<and> ((\<forall>r \<in> set rs. \<forall>x \<in> set (scripts entries). \<not> record_failed x r) \<longrightarrow> executed ms' = scripts entries)"
proof -
  obtain k where "migrations_inv (scripts entries) rs ms k"
    using starts_inv [OF assms(1) migrations_inv_empty assms(2)] by auto
  then obtain k' where inv: "migrations_inv (scripts entries) (rs @ [None]) ms' k'"
    using migrations_step [OF assms(1) _ assms(3)] by blast
  have "\<not> record_failed x None" for x by (simp add: record_failed_def)
  with inv in_order_subset [of "scripts entries" "executed ms'"] show ?thesis unfolding migrations_inv_def by auto
qed

text \<open>
  C16. Migrations, over any number of starts of the hub on an empty database, whatever fails in
  them, the reading and the writing of \<open>schema_migrations\<close> included: the table always lists a
  prefix of the scripts in the order of their names; a script only runs after all scripts before
  it have run; every recorded script was executed, and no script was executed more often than once
  plus the number of starts that answered that recording it failed (a script that is executed and
  not recorded runs again at the next start, and so does a recorded one when the reading of the
  table breaks off); a script is left half executed at most as often as a start answered that it
  failed; as long as no start failed to record, the scripts executed are exactly those in the
  table, each once and in order; and once a start has succeeded the table lists all of them.
\<close>

theorem Up_exactly_once:
  assumes "distinct (map mf_name entries)" and "starts entries es no_migrations = (rs, s)"
  shows "prefix (versions s) (scripts entries) \<and> in_order (scripts entries) (executed s) \<and> set (versions s) \<subseteq> set (executed s)
    \<and> (\<forall>x. count_list (executed s) x \<le> of_bool (x \<in> set (versions s)) + length (filter (record_failed x) rs))
    \<and> (\<forall>x. count_list (partly s) x \<le> length (filter (exec_failed x) rs))
    \<and> ((\<forall>r \<in> set rs. \<forall>x \<in> set (scripts entries). \<not> record_failed x r) \<longrightarrow> executed s = versions s \<and> distinct (executed s))
    \<and> (None \<in> set rs \<longrightarrow> versions s = scripts entries)"
proof -
  obtain k where "migrations_inv (scripts entries) rs s k"
    using starts_inv [OF assms(1) migrations_inv_empty assms(2)] by auto
  with scripts_distinct [OF assms(1)] show ?thesis unfolding migrations_inv_def by (auto simp: take_is_prefix)
qed

definition demo_files :: "mig_file list" where
  "demo_files = [\<lparr>mf_name = ''2.sql'', mf_dir = False, mf_content = ''B''\<rparr>, \<lparr>mf_name = ''migrate.go'', mf_dir = False, mf_content = ''package''\<rparr>,
     \<lparr>mf_name = ''1.sql'', mf_dir = False, mf_content = ''A''\<rparr>]"

definition demo_mig :: "(string \<Rightarrow> err) \<Rightarrow> (string \<Rightarrow> err) \<Rightarrow> mig_env" where
  "demo_mig f g = \<lparr>me_create = None, me_query = None, me_cut = None, me_scan = None, me_exec = f, me_partly = (\<lambda>_. True), me_record = g\<rparr>"

lemma demo_names:
  "migration_names demo_files = [\<lparr>mf_name = ''1.sql'', mf_dir = False, mf_content = ''A''\<rparr>, \<lparr>mf_name = ''2.sql'', mf_dir = False, mf_content = ''B''\<rparr>]"
  by (simp add: migration_names_def demo_files_def HasSuffix_def suffix_def byte_def)

lemmas demo_Up_eval = Up_def demo_mig_def demo_names trim_eval Let_def

text \<open>
  Four starts: the record of the first script fails, so the second start runs it again and then
  stops in the middle of the second script; the third start runs it; the fourth has nothing to do.
\<close>

theorem Up_exactly_once_witness:
  "\<exists>rs s. starts demo_files [demo_mig (\<lambda>_. None) (\<lambda>_. Some ''lost''), demo_mig (\<lambda>n. if n = ''2.sql'' then Some ''syntax'' else None) (\<lambda>_. None),
        demo_mig (\<lambda>_. None) (\<lambda>_. None), demo_mig (\<lambda>_. None) (\<lambda>_. None)] no_migrations = (rs, s)
     \<and> executed s = [''1.sql'', ''1.sql'', ''2.sql''] \<and> partly s = [''2.sql''] \<and> versions s = scripts demo_files"
proof -
  let ?lost = "demo_mig (\<lambda>_. None) (\<lambda>_. Some ''lost'')" and ?bad = "demo_mig (\<lambda>n. if n = ''2.sql'' then Some ''syntax'' else None) (\<lambda>_. None)"
    and ?good = "demo_mig (\<lambda>_. None) (\<lambda>_. None)"
  let ?s1 = "\<lparr>versions = [], executed = [''1.sql''], partly = []\<rparr>"
  let ?s2 = "\<lparr>versions = [''1.sql''], executed = [''1.sql'', ''1.sql''], partly = [''2.sql'']\<rparr>"
  let ?s3 = "\<lparr>versions = [''1.sql'', ''2.sql''], executed = [''1.sql'', ''1.sql'', ''2.sql''], partly = [''2.sql'']\<rparr>"
  have "Up ?lost demo_files no_migrations = (Some ''record migration 1.sql: lost'', ?s1)"
      "Up ?bad demo_files ?s1 = (Some ''migration 2.sql: syntax'', ?s2)"
      "Up ?good demo_files ?s2 = (None, ?s3)" "Up ?good demo_files ?s3 = (None, ?s3)"
    by (simp_all add: demo_Up_eval)
  then obtain rs s where st: "starts demo_files [?lost, ?bad, ?good, ?good] no_migrations = (rs, s)" and
      log: "executed s = [''1.sql'', ''1.sql'', ''2.sql'']" "partly s = [''2.sql'']" "None \<in> set rs"
    by simp
  have "versions s = scripts demo_files"
    using Up_exactly_once [OF _ st] log(3) by (simp add: demo_files_def)
  with st log show ?thesis by blast
qed

end
