(* ===== verification/Worker.thy ===== *)
theory Worker
  imports Go_Strings
begin

text \<open>
  The client of the Python worker: \<open>internal/worker/nl2sql.go\<close>. The packages \<open>crypto/tls\<close>,
  \<open>crypto/x509\<close> and gRPC are parameters: loading a key pair, reading the file of the
  authority, adding its certificates to a pool, and dialling. A call is the metadata and the
  request that go over the wire; the otel propagator is the parameter \<open>inject\<close>, which adds
  headers to the metadata.
\<close>

section \<open>Dialling\<close>

record dial_opts =
  Addr :: string
  ClientCert :: string
  ClientKey :: string
  CACert :: string

datatype creds = Insecure | MutualTLS string string string

record tls_world =
  load_pair :: "string \<Rightarrow> string \<Rightarrow> err"
  read_file :: "string \<Rightarrow> string res"
  append_pem :: "string \<Rightarrow> bool"
  grpc_dial :: "string \<Rightarrow> creds \<Rightarrow> err"

text \<open>
  The result is an error, or a connection and its client, or neither: \<open>(nil, nil, nil)\<close>.
\<close>

datatype dial_result = DialFailed string | Dialled creds | DialledNothing

definition DialNL2SQL :: "tls_world \<Rightarrow> dial_opts \<Rightarrow> dial_result" where
  "DialNL2SQL w opts =
     (let dial = (\<lambda>c. case grpc_dial w (Addr opts) c of Some m \<Rightarrow> DialFailed m | None \<Rightarrow> Dialled c) in
      if ClientCert opts \<noteq> [] \<and> ClientKey opts \<noteq> [] \<and> CACert opts \<noteq> [] then
        (case load_pair w (ClientCert opts) (ClientKey opts) of
           Some m \<Rightarrow> DialFailed m
         | None \<Rightarrow>
             (case read_file w (CACert opts) of
                Inl m \<Rightarrow> DialFailed m
              | Inr caPEM \<Rightarrow>
                  if \<not> append_pem w caPEM then DialledNothing
                  else dial (MutualTLS (ClientCert opts) (ClientKey opts) (CACert opts))))
      else dial Insecure)"

section \<open>Metadata and requests\<close>

type_synonym metadata = "(string \<times> string list) list"

text \<open>Keys are stored in lower case (\<open>metadata.MD\<close>).\<close>

definition carrier_Get :: "metadata \<Rightarrow> string \<Rightarrow> string" where
  "carrier_Get md key = (case map_of md (ToLower key) of Some (v # _) \<Rightarrow> v | _ \<Rightarrow> [])"

definition carrier_Set :: "string \<Rightarrow> string \<Rightarrow> metadata \<Rightarrow> metadata" where
  "carrier_Set key v md = (ToLower key, [v]) # filter (\<lambda>(k, _). k \<noteq> ToLower key) md"

definition carrier_Keys :: "metadata \<Rightarrow> string list" where
  "carrier_Keys md = map fst md"

datatype worker_request =
    GenerateSQLRequest string string string string string
  | RunAgentPipelineRequest string string string string string
  | RAGSearchRequest string string string int
  | IndexDocumentRequest string string string string string
  | HealthRequest

type_synonym wire_call = "metadata \<times> worker_request"

text \<open>\<open>metadata.Pairs\<close>, \<open>NewOutgoingContext\<close> and \<open>injectTraceContext\<close>.\<close>

definition injectTraceContext :: "(metadata \<Rightarrow> metadata) \<Rightarrow> metadata option \<Rightarrow> metadata" where
  "injectTraceContext inject outgoing = inject (case outgoing of None \<Rightarrow> [] | Some md \<Rightarrow> md)"

definition traced :: "(metadata \<Rightarrow> metadata) \<Rightarrow> string \<Rightarrow> metadata" where
  "traced inject traceID = injectTraceContext inject (Some [(''x-trace-id'', [traceID])])"

definition GenerateSQL :: "(metadata \<Rightarrow> metadata) \<Rightarrow> string \<Rightarrow> string \<Rightarrow> string \<Rightarrow> string \<Rightarrow> string \<Rightarrow> wire_call" where
  "GenerateSQL inject traceID sessionID userMessage schemaJSON dialect =
     (traced inject traceID, GenerateSQLRequest traceID sessionID userMessage schemaJSON dialect)"

definition RunAgentPipeline :: "(metadata \<Rightarrow> metadata) \<Rightarrow> string \<Rightarrow> string \<Rightarrow> string \<Rightarrow> string \<Rightarrow> string \<Rightarrow> wire_call" where
  "RunAgentPipeline inject traceID sessionID runID userMessage schemaJSON =
     (traced inject traceID, RunAgentPipelineRequest traceID sessionID runID userMessage schemaJSON)"

definition RAGSearch :: "(metadata \<Rightarrow> metadata) \<Rightarrow> string \<Rightarrow> string \<Rightarrow> string \<Rightarrow> int \<Rightarrow> wire_call" where
  "RAGSearch inject traceID workspaceID question topK = (traced inject traceID, RAGSearchRequest traceID workspaceID question topK)"

definition IndexDocument :: "(metadata \<Rightarrow> metadata) \<Rightarrow> string \<Rightarrow> string \<Rightarrow> string \<Rightarrow> string \<Rightarrow> string \<Rightarrow> wire_call" where
  "IndexDocument inject traceID workspaceID docID title textContent =
     (traced inject traceID, IndexDocumentRequest traceID workspaceID docID title textContent)"

definition Health_call :: "metadata \<Rightarrow> wire_call" where
  "Health_call outgoing = (outgoing, HealthRequest)"

section \<open>Properties\<close>

lemma carrier_Get_Set: "carrier_Get (carrier_Set k v md) k' = (if ToLower k' = ToLower k then v else carrier_Get md k')"
proof -
  have "map_of (filter (\<lambda>(x, _). x \<noteq> ToLower k) md) y = map_of md y" if "y \<noteq> ToLower k" for y
    using that by (induction md) auto
  then show ?thesis by (auto simp: carrier_Get_def carrier_Set_def)
qed

text \<open>A propagator that only sets headers of its own keeps the trace id of the call.\<close>

lemma traced_keeps_id:
  assumes "\<And>k. k \<in> set ks \<Longrightarrow> ToLower k \<noteq> ''x-trace-id''"
  shows "carrier_Get (traced (\<lambda>md. foldl (\<lambda>md k. carrier_Set k (val k) md) md ks) traceID) ''x-trace-id'' = traceID"
proof -
  have low: "ToLower ''x-trace-id'' = ''x-trace-id''" by (simp add: go_str)
  have "carrier_Get (foldl (\<lambda>md k. carrier_Set k (val k) md) md ks) ''x-trace-id'' = carrier_Get md ''x-trace-id''" for md
    using assms
  proof (induction ks arbitrary: md)
    case (Cons k ks)
    have "ToLower k \<noteq> ''x-trace-id''" using Cons.prems [of k] by simp
    then have "carrier_Get (carrier_Set k (val k) md) ''x-trace-id'' = carrier_Get md ''x-trace-id''" by (simp add: carrier_Get_Set low)
    with Cons show ?case by simp
  qed simp
  then show ?thesis by (simp add: traced_def injectTraceContext_def carrier_Get_def low)
qed

text \<open>With the three paths configured the connection is never an insecure one.\<close>

lemma DialNL2SQL_creds:
  "DialNL2SQL w opts = Dialled c \<Longrightarrow>
   c = (if ClientCert opts \<noteq> [] \<and> ClientKey opts \<noteq> [] \<and> CACert opts \<noteq> []
        then MutualTLS (ClientCert opts) (ClientKey opts) (CACert opts) else Insecure)"
  by (auto simp: DialNL2SQL_def Let_def split: if_splits option.splits sum.splits)

text \<open>A file of the authority without a certificate gives neither a connection nor an error.\<close>

lemma DialNL2SQL_nothing:
  "DialNL2SQL w opts = DialledNothing \<longleftrightarrow>
     ClientCert opts \<noteq> [] \<and> ClientKey opts \<noteq> [] \<and> CACert opts \<noteq> [] \<and> load_pair w (ClientCert opts) (ClientKey opts) = None
     \<and> (\<exists>pem. read_file w (CACert opts) = Inr pem \<and> \<not> append_pem w pem)"
  by (auto simp: DialNL2SQL_def Let_def split: option.splits sum.splits)

end
