(* ===== verification/Redis_Bus.thy ===== *)
theory Redis_Bus
  imports Ssebus Go_Json
begin

text \<open>
  The second implementation of the event bus in \<open>internal/ssebus/bus.go\<close>: \<open>RedisBus\<close>, which
  sends events through Redis Pub/Sub, and the choice between the two. Redis, \<open>json.Unmarshal\<close> of
  an event and the errors of \<open>json.Marshal\<close> are parameters. A subscription is a goroutine that moves messages from the client
  library's channel (\<open>rs_in\<close>) to the channel of the subscriber (\<open>rs_buf\<close>, capacity 32); its
  steps interleave with deliveries, receives and the cancellation.
\<close>

definition redisChannelName :: "string \<Rightarrow> string" where
  "redisChannelName sessionID = ''hub:sse:'' @ sessionID"

text \<open>The text of an event: a struct with two fields.\<close>

definition event_json :: "event \<Rightarrow> string" where
  "event_json ev = json_struct [(''type'', json_string (ev_type ev)), (''data'', json_encode (ev_data ev))]"

text \<open>\<open>Publish\<close>: the PUBLISH command that is sent; an error of either call is only logged.\<close>

definition RedisPublish :: "(event \<Rightarrow> err) \<Rightarrow> string \<Rightarrow> event \<Rightarrow> (string \<times> string) option" where
  "RedisPublish marshal_err sessionID ev =
     (case marshal_err ev of Some _ \<Rightarrow> None | None \<Rightarrow> Some (redisChannelName sessionID, event_json ev))"

record redis_sub =
  rs_in :: "string list"
  rs_in_closed :: bool
  rs_buf :: "event list"
  rs_closed :: bool
  rs_cancelled :: bool
  rs_running :: bool

text \<open>\<open>Subscribe\<close>; the argument is the error of the confirmation.\<close>

definition RedisSubscribe :: "err \<Rightarrow> redis_sub" where
  "RedisSubscribe confirm =
     (case confirm of
        Some _ \<Rightarrow> \<lparr>rs_in = [], rs_in_closed = False, rs_buf = [], rs_closed = True, rs_cancelled = True, rs_running = False\<rparr>
      | None \<Rightarrow> \<lparr>rs_in = [], rs_in_closed = False, rs_buf = [], rs_closed = False, rs_cancelled = False, rs_running = True\<rparr>)"

text \<open>
  One round of the goroutine's loop. When both cases of the \<open>select\<close> are ready Go picks
  either, which \<open>pick_done\<close> decides; when none is ready the goroutine waits.
\<close>

definition redis_forward :: "(string \<Rightarrow> event res) \<Rightarrow> bool \<Rightarrow> redis_sub \<Rightarrow> redis_sub" where
  "redis_forward unmarshal pick_done s =
     (if \<not> rs_running s then s
      else if rs_cancelled s \<and> (pick_done \<or> rs_in s = [] \<and> \<not> rs_in_closed s) then s\<lparr>rs_running := False\<rparr>
      else (case rs_in s of
              [] \<Rightarrow> if rs_in_closed s then s\<lparr>rs_running := False\<rparr> else s
            | payload # rest \<Rightarrow>
                (case unmarshal payload of
                   Inl _ \<Rightarrow> s\<lparr>rs_in := rest\<rparr>
                 | Inr ev \<Rightarrow>
                     if length (rs_buf s) < chan_cap then s\<lparr>rs_in := rest, rs_buf := rs_buf s @ [ev]\<rparr>
                     else s\<lparr>rs_in := rest\<rparr>)))"

definition redis_cancel :: "redis_sub \<Rightarrow> redis_sub" where
  "redis_cancel s = s\<lparr>rs_cancelled := True\<rparr>"

definition RedisTotalDrops :: int where
  "RedisTotalDrops = 0"

datatype bus_kind = UseMemory | UseRedis

text \<open>\<open>NewBus\<close>: the variable \<open>SSE_DRIVER\<close>, whether there is a client, and the error of \<open>Ping\<close>.\<close>

definition NewBus :: "string \<Rightarrow> bool \<Rightarrow> err \<Rightarrow> bus_kind" where
  "NewBus driver rdb ping =
     (if driver = ''redis'' \<and> rdb then (if ping \<noteq> None then UseMemory else UseRedis) else UseMemory)"

section \<open>Runs of a subscription\<close>

datatype rs_op = RsDeliver string | RsClose | RsForward bool | RsCancel | RsReceive

fun rs_apply :: "(string \<Rightarrow> event res) \<Rightarrow> rs_op \<Rightarrow> redis_sub \<Rightarrow> redis_sub \<times> event list" where
  "rs_apply um (RsDeliver p) s = (s\<lparr>rs_in := rs_in s @ [p]\<rparr>, [])"
| "rs_apply um RsClose s = (s\<lparr>rs_in_closed := True\<rparr>, [])"
| "rs_apply um (RsForward d) s = (redis_forward um d s, [])"
| "rs_apply um RsCancel s = (redis_cancel s, [])"
| "rs_apply um RsReceive s = (case rs_buf s of [] \<Rightarrow> (s, []) | ev # evs \<Rightarrow> (s\<lparr>rs_buf := evs\<rparr>, [ev]))"

fun rs_run :: "(string \<Rightarrow> event res) \<Rightarrow> rs_op list \<Rightarrow> redis_sub \<Rightarrow> redis_sub \<times> event list" where
  "rs_run um [] s = (s, [])"
| "rs_run um (x # xs) s = (let (s1, r1) = rs_apply um x s; (s2, r2) = rs_run um xs s1 in (s2, r1 @ r2))"

fun delivered :: "rs_op list \<Rightarrow> string list" where
  "delivered [] = []"
| "delivered (RsDeliver p # xs) = p # delivered xs"
| "delivered (_ # xs) = delivered xs"

definition decode_all :: "(string \<Rightarrow> event res) \<Rightarrow> string list \<Rightarrow> event list" where
  "decode_all um ps = concat (map (\<lambda>p. case um p of Inl _ \<Rightarrow> [] | Inr ev \<Rightarrow> [ev]) ps)"

lemma decode_all_simps [simp]:
  "decode_all um [] = []" "decode_all um (p # ps) = (case um p of Inl _ \<Rightarrow> [] | Inr ev \<Rightarrow> [ev]) @ decode_all um ps"
  "decode_all um (ps @ qs) = decode_all um ps @ decode_all um qs"
  by (simp_all add: decode_all_def)

lemma delivered_Cons: "delivered (x # xs) = delivered [x] @ delivered xs"
  by (cases x) auto

lemma subseq_append_both: "subseq a b \<Longrightarrow> subseq c d \<Longrightarrow> subseq (a @ c) (b @ d)"
  by (rule list_emb_append_mono)

lemma subseq_skip: "subseq (xs @ ys) (xs @ x # ys)"
  by (rule subseq_append_both) auto

text \<open>What is received, buffered and still to be forwarded, in one line; forwarding only drops.\<close>

definition in_flight :: "(string \<Rightarrow> event res) \<Rightarrow> redis_sub \<Rightarrow> event list" where
  "in_flight um s = rs_buf s @ decode_all um (rs_in s)"

lemma rs_apply_flight:
  assumes "rs_apply um x s = (s', r)"
  shows "subseq (r @ in_flight um s') (in_flight um s @ decode_all um (delivered [x]))
         \<and> (length (rs_buf s) \<le> chan_cap \<longrightarrow> length (rs_buf s') \<le> chan_cap)"
  using assms
  by (cases x) (auto simp: in_flight_def redis_forward_def redis_cancel_def subseq_skip split: if_splits list.splits sum.splits)

lemma rs_run_flight:
  "rs_run um xs s = (s', r) \<Longrightarrow> length (rs_buf s) \<le> chan_cap
   \<Longrightarrow> subseq (r @ in_flight um s') (in_flight um s @ decode_all um (delivered xs)) \<and> length (rs_buf s') \<le> chan_cap"
proof (induction xs arbitrary: s r)
  case (Cons x xs)
  obtain s1 r1 r2 where st: "rs_apply um x s = (s1, r1)" "rs_run um xs s1 = (s', r2)" "r = r1 @ r2"
    using Cons.prems(1) by (auto split: prod.splits)
  note one = rs_apply_flight [OF st(1)]
  with Cons.IH [OF st(2)] Cons.prems(2)
  have IH: "subseq (r2 @ in_flight um s') (in_flight um s1 @ decode_all um (delivered xs))" "length (rs_buf s') \<le> chan_cap" by auto
  have "subseq (r1 @ (r2 @ in_flight um s')) (r1 @ (in_flight um s1 @ decode_all um (delivered xs)))"
    by (rule subseq_append_both [OF subseq_order.order_refl IH(1)])
  also have "subseq (r1 @ (in_flight um s1 @ decode_all um (delivered xs))) (in_flight um s @ decode_all um (delivered [x]) @ decode_all um (delivered xs))"
    unfolding append_assoc [symmetric] by (rule subseq_append_both [OF conjunct1 [OF one] subseq_order.order_refl])
  finally show ?case using IH(2) st(3) delivered_Cons [of x xs] by simp
qed simp

lemma redisChannelName_inj: "redisChannelName a = redisChannelName b \<longleftrightarrow> a = b"
  by (simp add: redisChannelName_def)

lemma decode_all_subseq: "subseq ps qs \<Longrightarrow> subseq (decode_all um ps) (decode_all um qs)"
  by (induction rule: list_emb.induct) (auto intro: subseq_append_both list_emb_append2 split: sum.splits)

text \<open>The commands that a list of publications sends, and the events of one session.\<close>

definition commands :: "(event \<Rightarrow> err) \<Rightarrow> (string \<times> event) list \<Rightarrow> (string \<times> string) list" where
  "commands merr pub = concat (map (\<lambda>(sid, ev). case RedisPublish merr sid ev of None \<Rightarrow> [] | Some c \<Rightarrow> [c]) pub)"

definition session_events :: "string \<Rightarrow> (string \<times> event) list \<Rightarrow> event list" where
  "session_events sid pub = map snd (filter (\<lambda>(s, _). s = sid) pub)"

lemma commands_Cons [simp]:
  "commands merr ((s, ev) # pub) = (case RedisPublish merr s ev of None \<Rightarrow> [] | Some c \<Rightarrow> [c]) @ commands merr pub"
  by (simp add: commands_def)

text \<open>
  What two events must agree on to be the same for a client: the type, and the data as JSON. Values
  that survive the way through \<open>any\<close> in Go: strings are valid UTF-8, the keys of an object are
  distinct, and integers are exact as \<open>float64\<close>.
\<close>

definition event_view :: "event \<Rightarrow> string \<times> jtree" where
  "event_view ev = (ev_type ev, json_tree (ev_data ev))"

definition event_tree :: "event \<Rightarrow> jtree" where
  "event_tree ev = TObj [(''type'', TStr (ev_type ev)), (''data'', json_tree (ev_data ev))]"

primrec json_exact :: "json \<Rightarrow> bool" where
  "json_exact JNull = True"
| "json_exact (JBool b) = True"
| "json_exact (JInt i) = (\<bar>i\<bar> \<le> 2 ^ 53)"
| "json_exact (JStr s) = True"
| "json_exact (JArr vs) = list_all id (map json_exact vs)"
| "json_exact (JObj kvs) = (distinct (map fst kvs) \<and> list_all snd (map (map_prod id json_exact) kvs))"
| "json_exact (JRaw s) = False"

definition exact_event :: "event \<Rightarrow> bool" where
  "exact_event ev \<longleftrightarrow> utf8_ok (ev_type ev) \<and> json_plain (ev_data ev) \<and> json_exact (ev_data ev)"

lemma json_read_event: "exact_event ev \<Longrightarrow> json_read (event_json ev) = Some (event_tree ev)"
proof -
  assume ev: "exact_event ev"
  then have fields: "after_value r \<longrightarrow> parse_value (json_string (ev_type ev) @ r) = Some (TStr (ev_type ev), r)"
      "after_value r \<longrightarrow> parse_value (json_encode (ev_data ev) @ r) = Some (json_tree (ev_data ev), r)" for r
    by (simp_all add: exact_event_def utf8_ok_def parse_string parse_json_encode)
  have "utf8_ok ''type''" "utf8_ok ''data''" by (simp_all add: utf8_ok_def byte_def)
  with fields have "parse_value (event_json ev @ []) = Some (event_tree ev, [])"
    using parse_fields [of "[(''type'', json_string (ev_type ev), TStr (ev_type ev)), (''data'', json_encode (ev_data ev), json_tree (ev_data ev))]" "[]"]
    by (simp add: event_json_def event_tree_def)
  then show ?thesis by (simp add: json_read_def)
qed

text \<open>A decoder of events: the text of an event gives an event that no client can tell from it.\<close>

definition decodes_events :: "(string \<Rightarrow> event res) \<Rightarrow> bool" where
  "decodes_events um \<longleftrightarrow> (\<forall>p ev. exact_event ev \<longrightarrow> json_read p = Some (event_tree ev) \<longrightarrow> (\<exists>ev'. um p = Inr ev' \<and> event_view ev' = event_view ev))"

lemma decode_commands:
  assumes "decodes_events um" and "list_all (\<lambda>(s, ev). exact_event ev) pub"
  shows "subseq (map event_view (decode_all um (map snd (filter (\<lambda>(ch, _). ch = redisChannelName sid) (commands merr pub)))))
    (map event_view (session_events sid pub))"
  using assms(2)
proof (induction pub)
  case (Cons p pub)
  obtain s ev where p: "p = (s, ev)" by fastforce
  then obtain ev' where "um (event_json ev) = Inr ev'" "event_view ev' = event_view ev"
    using Cons.prems assms(1) json_read_event unfolding decodes_events_def by fastforce
  then show ?case
    using Cons by (cases "s = sid"; cases "merr ev") (auto simp: p RedisPublish_def session_events_def redisChannelName_inj)
qed (simp add: commands_def session_events_def)

text \<open>
  C26. Delivery through Redis. Let \<open>json.Unmarshal\<close> decode the texts of events, and let Redis deliver
  to the channel of a session, in order and at most once, messages published to that channel.
  However deliveries, the forwarding goroutine, the cancellation and the receives interleave, what
  the subscriber received and what is buffered for it is, as JSON, a subsequence of the events
  published to its session: nothing of another session, nothing twice, nothing altered or out of
  order; and the buffer never exceeds 32.
\<close>

theorem redis_delivery:
  assumes "decodes_events um" and "list_all (\<lambda>(s, ev). exact_event ev) pub"
    and "subseq (delivered ops) (map snd (filter (\<lambda>(ch, _). ch = redisChannelName sid) (commands merr pub)))"
    and "rs_run um ops (RedisSubscribe confirm) = (s', r)"
  shows "subseq (map event_view (r @ rs_buf s')) (map event_view (session_events sid pub)) \<and> length (rs_buf s') \<le> chan_cap"
proof -
  have new: "rs_buf (RedisSubscribe confirm) = []" "in_flight um (RedisSubscribe confirm) = []"
    by (simp_all add: RedisSubscribe_def in_flight_def split: option.splits)
  have "subseq (r @ rs_buf s') (r @ in_flight um s')"
    using subseq_append_both [OF subseq_order.order_refl [of "r @ rs_buf s'"] list_emb_Nil [of _ "decode_all um (rs_in s')"]]
    by (simp add: in_flight_def)
  also have "subseq (r @ in_flight um s') (decode_all um (delivered ops))" using rs_run_flight [OF assms(4)] new by simp
  finally have "subseq (map event_view (r @ rs_buf s')) (map event_view (decode_all um (delivered ops)))" by (rule subseq_map)
  also have "subseq (map event_view (decode_all um (delivered ops)))
      (map event_view (decode_all um (map snd (filter (\<lambda>(ch, _). ch = redisChannelName sid) (commands merr pub)))))"
    using decode_all_subseq [OF assms(3)] by (rule subseq_map)
  also have "subseq (map event_view (decode_all um (map snd (filter (\<lambda>(ch, _). ch = redisChannelName sid) (commands merr pub)))))
      (map event_view (session_events sid pub))"
    using assms(1,2) by (rule decode_commands)
  finally show ?thesis using rs_run_flight [OF assms(4)] new by simp
qed

section \<open>A decoder\<close>

text \<open>Reading a tree back into a value.\<close>

definition num_value :: "string \<Rightarrow> int" where
  "num_value s = (if HasPrefix s ''-'' then - int (dec_val (tl s)) else int (dec_val s))"

primrec tree_json :: "jtree \<Rightarrow> json" where
  "tree_json TNull = JNull"
| "tree_json (TBool b) = JBool b"
| "tree_json (TNum s) = JInt (num_value s)"
| "tree_json (TStr s) = JStr s"
| "tree_json (TArr vs) = JArr (map tree_json vs)"
| "tree_json (TObj kvs) = JObj (map (map_prod id tree_json) kvs)"

fun tree_event :: "jtree \<Rightarrow> event res" where
  "tree_event (TObj [(_, TStr t), (_, d)]) = Inr \<lparr>ev_type = t, ev_data = tree_json d\<rparr>"
| "tree_event _ = Inl ''invalid''"

definition read_event :: "string \<Rightarrow> event res" where
  "read_event p = (case json_read p of None \<Rightarrow> Inl ''invalid'' | Some t \<Rightarrow> tree_event t)"

lemma num_value_int_dec: "num_value (int_dec i) = i"
proof -
  have "\<not> HasPrefix (nat_dec n) ''-''" for n
    using nat_dec_hd [of n] minus_not_digit by (cases "nat_dec n") (auto simp: HasPrefix_def)
  then show ?thesis by (auto simp: num_value_def int_dec_def HasPrefix_def)
qed

lemma json_tree_back: "no_raw v \<Longrightarrow> json_tree (tree_json (json_tree v)) = json_tree v"
proof (induction v)
  case (JArr vs)
  then show ?case by (auto simp: list_all_iff)
next
  case (JObj kvs)
  let ?s = "sort_key key_order kvs"
  have tree: "json_tree (JObj kvs) = TObj (map (map_prod id json_tree) ?s)" unfolding json_tree.simps sort_key_map_prod ..
  have same: "map (map_prod id json_tree) (map (map_prod id tree_json) (map (map_prod id json_tree) ?s)) = map (map_prod id json_tree) ?s"
    using JObj by (fastforce simp: list_all_iff)
  have sorted: "sort_key key_order ?s = ?s" by (rule sort_key_id_if_sorted) simp
  show ?case unfolding tree tree_json.simps json_tree.simps sort_key_map_prod sorted by (simp only: same)
qed (simp_all add: num_value_int_dec)

lemma decodes_read_event: "decodes_events read_event"
  by (auto simp: decodes_events_def read_event_def event_tree_def event_view_def exact_event_def json_tree_back plain_no_raw)

theorem redis_delivery_witness:
  "\<exists>e r s'. e = \<lparr>ev_type = ''result'', ev_data = JObj [(''rows'', JInt 2)]\<rparr>
     \<and> rs_run read_event [RsDeliver (event_json e), RsForward False, RsReceive, RsCancel, RsForward True] (RedisSubscribe None) = (s', r)
     \<and> r = [e] \<and> subseq (map event_view (r @ rs_buf s')) (map event_view (session_events ''s'' [(''t'', e), (''s'', e)]))"
proof -
  let ?e = "\<lparr>ev_type = ''result'', ev_data = JObj [(''rows'', JInt 2)]\<rparr>"
  let ?ops = "[RsDeliver (event_json ?e), RsForward False, RsReceive, RsCancel, RsForward True]" and ?pub = "[(''t'', ?e), (''s'', ?e)]"
  have ex: "list_all (\<lambda>(s, ev). exact_event ev) ?pub" by code_simp
  have "read_event (event_json ?e) = Inr ?e" by code_simp
  then have run: "rs_run read_event ?ops (RedisSubscribe None) = (fst (rs_run read_event ?ops (RedisSubscribe None)), [?e])"
    by (simp add: RedisSubscribe_def redis_forward_def redis_cancel_def chan_cap_def)
  have d: "subseq (delivered ?ops) (map snd (filter (\<lambda>(ch, _). ch = redisChannelName ''s'') (commands (\<lambda>_. None) ?pub)))"
    by (simp add: commands_def RedisPublish_def redisChannelName_def)
  from redis_delivery [OF decodes_read_event ex d run] run show ?thesis by blast
qed

end
