(* ===== verification/Startup.thy ===== *)
theory Startup
  imports Telemetry Config Migrate Seed Worker Redis_Bus Async_Task Nl2sqlexec Mysqlmgr Llm
begin

text \<open>
  The process: \<open>main\<close> in \<open>cmd/api/main.go\<close>. \<open>boot\<close> performs the steps up to the point where
  both servers run, in the order of the source; \<open>zl.Fatal\<close> ends the process, so it is the value
  \<open>Fatal\<close>, with whatever the earlier steps did to the database. \<open>hub_main\<close> adds what ends the
  service, a listener that fails in its goroutine or a signal, and the shutdown with its deferred
  calls. What comes from outside is in \<open>boot_world\<close> and \<open>shutdown_world\<close>. Informational logging
  is left out.
\<close>

record boot_world =
  bw_getenv :: osenv
  bw_ParseDuration :: "string \<Rightarrow> int res"
  bw_TempDir :: string
  bw_logger :: err
  bw_sql_open :: "string \<Rightarrow> err"
  bw_mig :: mig_env
  bw_files :: "mig_file list"
  bw_seed :: env
  bw_tls :: tls_world
  bw_nats :: "string \<Rightarrow> err"
  bw_ping :: "string \<Rightarrow> err"
  bw_generate :: "input \<Rightarrow> go_error + gen_response"
  bw_exporter :: "string \<Rightarrow> err"
  bw_listen :: "string \<Rightarrow> err"

record app =
  ap_cfg :: config
  ap_worker :: "creds option"
  ap_bus :: bus_kind
  ap_async :: async_client
  ap_exec :: executor
  ap_llm :: llm_client
  ap_mgr :: manager
  ap_tracing :: tracing
  ap_grpc :: creds

datatype boot_result = Fatal string | Running app

definition platform_dsn :: "config \<Rightarrow> string" where
  "platform_dsn c = MySQLRootUser c @ '':'' @ MySQLRootPass c @ ''@tcp('' @ MySQLHost c @ '':'' @ int_dec (MySQLPort c) @ '')/'' @ MySQLPlatformDB c
     @ ''?charset=utf8mb4&parseTime=true&loc=Local''"

text \<open>The credentials of the internal gRPC server.\<close>

definition server_creds :: "tls_world \<Rightarrow> config \<Rightarrow> string + creds" where
  "server_creds w c =
     (if GRPCServerCert c \<noteq> [] \<and> GRPCServerKey c \<noteq> [] \<and> GRPCCACert c \<noteq> [] then
        (case load_pair w (GRPCServerCert c) (GRPCServerKey c) of
           Some _ \<Rightarrow> Inl ''load grpc server cert''
         | None \<Rightarrow>
             (case read_file w (GRPCCACert c) of
                Inl _ \<Rightarrow> Inl ''read grpc ca cert''
              | Inr pem \<Rightarrow>
                  if \<not> append_pem w pem then Inl ''failed to parse CA certificate''
                  else Inr (MutualTLS (GRPCServerCert c) (GRPCServerKey c) (GRPCCACert c))))
      else Inr Insecure)"

text \<open>The objects \<open>main\<close> builds once the database is ready and the worker was dialled.\<close>

definition mk_app :: "boot_world \<Rightarrow> config \<Rightarrow> creds option \<Rightarrow> tracing \<Rightarrow> creds \<Rightarrow> app" where
  "mk_app w cfg worker tr grpc =
     \<lparr>ap_cfg = cfg, ap_worker = worker,
      ap_bus = NewBus (bw_getenv w ''SSE_DRIVER'') True (bw_ping w (RedisAddr cfg)),
      ap_async = SetBus True (NewClient (bw_nats w (NATSURL cfg) = None)),
      ap_exec = NewExecutor (bw_generate w) (QueryMaxRows cfg),
      ap_llm = \<lparr>BaseURL = LLMBaseURL cfg, APIKey = LLMAPIKey cfg, MaxRetries = 0\<rparr>,
      ap_mgr = NewManager \<lparr>Host = MySQLHost cfg, Port = MySQLPort cfg, RootUser = MySQLRootUser cfg, RootPass = MySQLRootPass cfg\<rparr>,
      ap_tracing = tr, ap_grpc = grpc\<rparr>"

text \<open>From the dialled worker on.\<close>

definition boot_servers :: "boot_world \<Rightarrow> config \<Rightarrow> creds option \<Rightarrow> boot_result" where
  "boot_servers w cfg worker =
     (case otel_Init (bw_getenv w) (bw_exporter w) of
        (None, Some tr) \<Rightarrow>
          (case server_creds (bw_tls w) cfg of
             Inl m \<Rightarrow> Fatal m
           | Inr grpc \<Rightarrow>
               if bw_listen w (GRPCAddr cfg) \<noteq> None then Fatal ''grpc listen''
               else Running (mk_app w cfg worker tr grpc))
      | _ \<Rightarrow> Fatal ''otel'')"

definition boot :: "boot_world \<Rightarrow> mig_state \<times> platform \<Rightarrow> boot_result \<times> mig_state \<times> platform" where
  "boot w s =
     (if bw_logger w \<noteq> None then (Fatal ''failed to initialize logger'', s)
      else (case Load (bw_ParseDuration w) (bw_TempDir w) (bw_getenv w) of
              Inl _ \<Rightarrow> (Fatal ''config'', s)
            | Inr cfg \<Rightarrow>
                if Validate cfg \<noteq> None then (Fatal ''config validation'', s)
                else if bw_sql_open w (platform_dsn cfg) \<noteq> None then (Fatal ''mysql connect'', s)
                else (case Up (bw_mig w) (bw_files w) (fst s) of
                        (Some _, ms) \<Rightarrow> (Fatal ''migrate'', ms, snd s)
                      | (None, ms) \<Rightarrow>
                          (case EnsureAdminUser (bw_seed w) (SeedEmail cfg) (SeedPassword cfg) (snd s) of
                             (Some _, db) \<Rightarrow> (Fatal ''seed admin'', ms, db)
                           | (None, db) \<Rightarrow>
                               (case DialNL2SQL (bw_tls w) \<lparr>Addr = NL2SQLTarget cfg, ClientCert = GRPCClientCert cfg,
                                        ClientKey = GRPCClientKey cfg, CACert = GRPCCACert cfg\<rparr> of
                                  DialFailed _ \<Rightarrow> (Fatal ''nl2sql dial'', ms, db)
                                | Dialled c \<Rightarrow> (boot_servers w cfg (Some c), ms, db)
                                | DialledNothing \<Rightarrow> (boot_servers w cfg None, ms, db))))))"

section \<open>The end of the process\<close>

text \<open>The results of the library calls of the shutdown; a timeout is in nanoseconds.\<close>

record shutdown_world =
  sd_http :: "int \<Rightarrow> err"
  sd_otel :: "int \<Rightarrow> err"
  sd_conn :: "creds option \<Rightarrow> err"
  sd_redis :: err
  sd_sync :: err

datatype closing = GracefulStop | HttpShutdown int | OtelShutdown int | ConnClose | RedisClose | DbClose | LogSync | Warned string

definition warn :: "string \<Rightarrow> err \<Rightarrow> closing list" where
  "warn m e = (case e of None \<Rightarrow> [] | Some _ \<Rightarrow> [Warned m])"

text \<open>The deferred calls of \<open>main\<close>, in the order they run; the two that release contexts have no effect.\<close>

definition main_deferred :: "shutdown_world \<Rightarrow> app \<Rightarrow> closing list" where
  "main_deferred d a =
     [ConnClose] @ warn ''grpc conn close'' (sd_conn d (ap_worker a))
     @ [RedisClose] @ warn ''redis close'' (sd_redis d)
     @ [DbClose]
     @ [LogSync] @ warn ''zap sync'' (sd_sync d)"

text \<open>After the signal.\<close>

definition main_shutdown :: "shutdown_world \<Rightarrow> app \<Rightarrow> closing list" where
  "main_shutdown d a =
     [GracefulStop]
     @ [HttpShutdown (15 * 1000000000)] @ warn ''http server shutdown'' (sd_http d (15 * 1000000000))
     @ [OtelShutdown (5 * 1000000000)] @ warn ''otel shutdown'' (sd_otel d (5 * 1000000000))
     @ main_deferred d a"

text \<open>
  What happens first once both servers run: \<open>ListenAndServe\<close> of the HTTP server fails, \<open>Serve\<close> of the
  gRPC server fails, or a signal arrives. The first two are \<open>zl.Fatal\<close> in a goroutine, which ends
  the process without its deferred calls.
\<close>

datatype serve_end = HttpFails | GrpcFails | Signal

datatype main_end = Exited string | Returned "closing list"

definition hub_main :: "boot_world \<Rightarrow> shutdown_world \<Rightarrow> serve_end \<Rightarrow> mig_state \<times> platform \<Rightarrow> main_end \<times> mig_state \<times> platform" where
  "hub_main w d ended s =
     (case boot w s of
        (Fatal m, s') \<Rightarrow> (Exited m, s')
      | (Running a, s') \<Rightarrow>
          ((case ended of
              HttpFails \<Rightarrow> Exited ''http listen''
            | GrpcFails \<Rightarrow> Exited ''grpc serve''
            | Signal \<Rightarrow> Returned (main_shutdown d a)), s'))"

section \<open>Properties\<close>

text \<open>
  The shutdown, whatever fails in it: everything \<open>main\<close> opened is closed once, the servers before
  the tracer and before the connections they use, with bounded waits for HTTP requests and traces;
  and only a signal to a running hub leads there.
\<close>

definition is_warning :: "closing \<Rightarrow> bool" where
  "is_warning c \<longleftrightarrow> (case c of Warned _ \<Rightarrow> True | _ \<Rightarrow> False)"

lemma hub_main_closes:
  assumes "hub_main w d ended s = (Returned cs, s')"
  shows "filter (\<lambda>c. \<not> is_warning c) cs
       = [GracefulStop, HttpShutdown (15 * 1000000000), OtelShutdown (5 * 1000000000), ConnClose, RedisClose, DbClose, LogSync]
    \<and> ended = Signal \<and> (\<exists>a. boot w s = (Running a, s'))"
  using assms
  by (auto simp: hub_main_def main_shutdown_def main_deferred_def warn_def is_warning_def
           split: prod.splits boot_result.splits serve_end.splits option.splits)


text \<open>What a running hub has behind it.\<close>

lemma boot_Running:
  assumes "boot w s = (Running a, ms, db)"
  shows "\<exists>cfg tr grpc. Load (bw_ParseDuration w) (bw_TempDir w) (bw_getenv w) = Inr cfg \<and> Validate cfg = None
    \<and> Up (bw_mig w) (bw_files w) (fst s) = (None, ms)
    \<and> EnsureAdminUser (bw_seed w) (SeedEmail cfg) (SeedPassword cfg) (snd s) = (None, db)
    \<and> (ap_worker a = None \<or> DialNL2SQL (bw_tls w) \<lparr>Addr = NL2SQLTarget cfg, ClientCert = GRPCClientCert cfg,
                                        ClientKey = GRPCClientKey cfg, CACert = GRPCCACert cfg\<rparr> = Dialled (the (ap_worker a)))
    \<and> server_creds (bw_tls w) cfg = Inr grpc \<and> a = mk_app w cfg (ap_worker a) tr grpc"
  using assms
  by (auto simp: boot_def boot_servers_def mk_app_def split: if_splits sum.splits prod.splits option.splits dial_result.splits)

lemma server_creds_Inr:
  "server_creds w c = Inr g \<Longrightarrow>
   g = (if GRPCServerCert c \<noteq> [] \<and> GRPCServerKey c \<noteq> [] \<and> GRPCCACert c \<noteq> []
        then MutualTLS (GRPCServerCert c) (GRPCServerKey c) (GRPCCACert c) else Insecure)"
  by (auto simp: server_creds_def split: if_splits option.splits sum.splits)

text \<open>
  C23. A hub that runs is ready, after any earlier starts on a database whose migrations began empty,
  whatever failed in them. Its configuration passed validation. The table of the migrations lists
  every script, in order, and each of them was executed, exactly once if no start failed to record
  one. Its administrator is there: either an account with the configured address existed, and the
  start left the accounts as they were (whatever the role of that account is now), or the start
  added one, with that address, the configured password and the role \<open>super_admin\<close>. Queries are
  limited to between one and \<open>2^31 - 1\<close> rows, tasks time out after two minutes and report on the
  event bus, and with certificates configured neither the internal server nor the worker connection
  is insecure. The names of the embedded scripts are distinct, as file names are.
\<close>

theorem boot_ready:
  assumes "boot w (ms, db) = (Running a, ms', db')" and "distinct (map mf_name (bw_files w))"
    and "starts (bw_files w) es no_migrations = (rs, ms)"
  shows "Validate (ap_cfg a) = None
    \<and> versions ms' = scripts (bw_files w) \<and> set (executed ms') = set (scripts (bw_files w))
    \<and> ((\<forall>r \<in> set rs. \<forall>x \<in> set (scripts (bw_files w)). \<not> record_failed x r) \<longrightarrow> executed ms' = scripts (bw_files w))
    \<and> ((\<exists>u \<in> set (users db). u_ws u = demoWorkspaceID \<and> u_email u = SeedEmail (ap_cfg a)) \<and> db' = db
       \<or> (\<exists>u. u_ws u = demoWorkspaceID \<and> u_email u = SeedEmail (ap_cfg a) \<and> u_role u = ''super_admin''
            \<and> bcrypt_gen (bw_seed w) (SeedPassword (ap_cfg a)) = Inr (u_hash u) \<and> db' = db\<lparr>users := users db @ [u]\<rparr>))
    \<and> 0 < maxRows (ap_exec a) \<and> maxRows (ap_exec a) < 2 ^ 31
    \<and> ac_timeout (ap_async a) = 120 * 1000000000 \<and> ac_bus (ap_async a)
    \<and> (ap_grpc a = Insecure \<longleftrightarrow> GRPCServerCert (ap_cfg a) = [] \<or> GRPCServerKey (ap_cfg a) = [] \<or> GRPCCACert (ap_cfg a) = [])
    \<and> (ap_worker a = Some Insecure \<longrightarrow> GRPCClientCert (ap_cfg a) = [] \<or> GRPCClientKey (ap_cfg a) = [] \<or> GRPCCACert (ap_cfg a) = [])"
proof -
  obtain cfg tr grpc where b: "Load (bw_ParseDuration w) (bw_TempDir w) (bw_getenv w) = Inr cfg" "Validate cfg = None"
      "Up (bw_mig w) (bw_files w) ms = (None, ms')" "EnsureAdminUser (bw_seed w) (SeedEmail cfg) (SeedPassword cfg) db = (None, db')"
      "ap_worker a = None \<or> DialNL2SQL (bw_tls w) \<lparr>Addr = NL2SQLTarget cfg, ClientCert = GRPCClientCert cfg, ClientKey = GRPCClientKey cfg, CACert = GRPCCACert cfg\<rparr> = Dialled (the (ap_worker a))"
      "server_creds (bw_tls w) cfg = Inr grpc" "a = mk_app w cfg (ap_worker a) tr grpc"
    using boot_Running [OF assms(1)] by auto
  note mig = starts_then_Up [OF assms(2,3) b(3)]
  have rows: "0 < QueryMaxRows cfg" "QueryMaxRows cfg < 2 ^ 31" using b(2) Load_int32 [OF b(1)] by (auto simp: Validate_None_iff)
  have grpc: "grpc = Insecure \<longleftrightarrow> GRPCServerCert cfg = [] \<or> GRPCServerKey cfg = [] \<or> GRPCCACert cfg = []"
    using server_creds_Inr [OF b(6)] by (simp split: if_splits)
  have worker: "ap_worker a = Some Insecure \<longrightarrow> GRPCClientCert cfg = [] \<or> GRPCClientKey cfg = [] \<or> GRPCCACert cfg = []"
    using b(5) DialNL2SQL_creds by (fastforce split: if_splits)
  note admin = EnsureAdminUser_done [OF b(4)]
  have "ap_cfg a = cfg" "ap_exec a = NewExecutor (bw_generate w) (QueryMaxRows cfg)" "ap_grpc a = grpc"
      "ap_async a = SetBus True (NewClient (bw_nats w (NATSURL cfg) = None))"
    using arg_cong [OF b(7), of ap_cfg] arg_cong [OF b(7), of ap_exec] arg_cong [OF b(7), of ap_grpc] arg_cong [OF b(7), of ap_async]
    by (simp_all add: mk_app_def)
  then show ?thesis using b(2) mig rows grpc worker admin
    by (simp add: NewExecutor_def NewClient_def SetBus_def) blast
qed

section \<open>An example\<close>

definition demo_boot :: boot_world where
  "demo_boot = \<lparr>bw_getenv = minimal_env ''0123456789abcdef'' ''key'', bw_ParseDuration = (\<lambda>_. Inl ''bad''), bw_TempDir = ''/tmp'', bw_logger = None,
     bw_sql_open = (\<lambda>_. None), bw_mig = demo_mig (\<lambda>_. None) (\<lambda>_. None), bw_files = demo_files, bw_seed = calm_env,
     bw_tls = \<lparr>load_pair = (\<lambda>_ _. None), read_file = Inr, append_pem = (\<lambda>_. True), grpc_dial = (\<lambda>_ _. None)\<rparr>,
     bw_nats = (\<lambda>_. Some ''no server''), bw_ping = (\<lambda>_. None), bw_generate = (\<lambda>_. Inl (PlainErr ''no worker'')),
     bw_exporter = (\<lambda>_. None), bw_listen = (\<lambda>_. None)\<rparr>"

lemma demo_config:
  "\<exists>cfg. Load (\<lambda>_. Inl ''bad'') ''/tmp'' (minimal_env ''0123456789abcdef'' ''key'') = Inr cfg \<and> Validate cfg = None
     \<and> GRPCServerCert cfg = [] \<and> GRPCClientCert cfg = []"
  by (simp add: Load_def minimal_env_simps Let_def getenv_def mustDur_def mustInt32_def Validate_None_iff default_addresses)

lemma demo_Up: "\<exists>ms. Up (demo_mig (\<lambda>_. None) (\<lambda>_. None)) demo_files no_migrations = (None, ms)"
  by (simp add: demo_Up_eval)

theorem boot_ready_witness:
  "\<exists>a ms' db'. boot demo_boot (no_migrations, empty_platform\<lparr>workspaces := [demoWorkspaceID]\<rparr>) = (Running a, ms', db')
     \<and> executed ms' = scripts demo_files \<and> ap_grpc a = Insecure \<and> map u_role (users db') = [''super_admin'']"
proof -
  let ?s = "(no_migrations, empty_platform\<lparr>workspaces := [demoWorkspaceID]\<rparr>)"
  obtain cfg where c: "Load (\<lambda>_. Inl ''bad'') ''/tmp'' (minimal_env ''0123456789abcdef'' ''key'') = Inr cfg" "Validate cfg = None"
      "GRPCServerCert cfg = []" "GRPCClientCert cfg = []"
    using demo_config by blast
  obtain ms where ms: "Up (demo_mig (\<lambda>_. None) (\<lambda>_. None)) demo_files no_migrations = (None, ms)" using demo_Up by blast
  obtain db where db: "EnsureAdminUser calm_env (SeedEmail cfg) (SeedPassword cfg) (empty_platform\<lparr>workspaces := [demoWorkspaceID]\<rparr>) = (None, db)"
    by (simp add: EnsureAdminUser_def query_row_def exec_def insert_user_def empty_platform_def)
  obtain a where run: "boot demo_boot ?s = (Running a, ms, db)" "ap_cfg a = cfg"
    using c ms db by (simp add: boot_def demo_boot_def boot_servers_def otel_Init_def minimal_env_def server_creds_def DialNL2SQL_def mk_app_def Let_def)
  have d: "distinct (map mf_name (bw_files demo_boot))" by (simp add: demo_boot_def demo_files_def)
  from boot_ready [OF run(1) d, of "[]" "[]"] run c(3) show ?thesis by (auto simp: demo_boot_def empty_platform_def)
qed

end
