(* ===== verification/Spec2Isabelle.thy ===== *)
theory Spec2Isabelle
  imports Hub_Api Sse_Stream Startup
begin

text \<open>
  \<^bold>\<open>DataFlowAgentHub: a verification development for the Go program under \<open>src/\<close>.\<close>

  \<^bold>\<open>The program.\<close> The hub is an HTTP API in front of a platform database (MySQL), of one MySQL
  database per dataset, of Redis, of NATS and of Python workers reached over gRPC. A user signs in,
  opens a chat session on a dataset, a data source or the knowledge base, and posts questions. The
  hub has a worker turn a question into SQL, checks the SQL, runs it, stores the answer and
  publishes events on a bus that streams them to the browser; long questions become tasks that a
  worker finishes with a callback. Administrators manage users, datasets, tables, data sources and
  documents, import files, and have a SQL terminal.

  \<^bold>\<open>How Go is modelled.\<close> A function is an Isabelle function on the same data: a struct is a
  \<open>record\<close>, an enumeration a \<open>datatype\<close>, a string or \<open>[]byte\<close> a list of bytes (\<open>string\<close>),
  \<open>(T, error)\<close> is \<open>string + 'a\<close>, \<open>error\<close> is \<open>string option\<close>. A handler takes the state it works on
  and returns the answer and the new state, on every branch of the source. The platform database is
  a record of tables (\<open>Platform_Db\<close>). Whatever is decided outside the repository is an
  argument: the errors and defaults of MySQL, the ids and the clock (\<open>env\<close>), dataset servers and
  pools, Redis, NATS, gRPC, bcrypt, the signature of tokens, the AES permutation on one block,
  the decoding of JSON into Go types, excelize, chi, the file system's errors. A theorem that needs
  something of them has it as a named hypothesis, and a witness shows a concrete case. The order in
  which Go ranges over a map is an argument too. Of the Go library, \<open>strings\<close>, \<open>path/filepath\<close>,
  \<open>encoding/hex\<close>, \<open>encoding/csv\<close>, the texts that \<open>encoding/json\<close> writes, base64, SHA-256,
  Galois/Counter Mode and time formats are written out. The whole hub is one machine
  (\<open>Hub_Api.hub_evolve\<close>): a step is a request, a callback of a worker, an event of a timeout watcher
  or a tick of the reaper. One request is one step, except where the interleaving matters: tasks and
  their timeouts (\<open>Grpcserver.hub_step\<close>), the event bus (\<open>bus_run\<close>), a stream whose connection
  breaks in the middle of an event (\<open>stream_loop\<close>) and the Redis subscription (\<open>rs_run\<close>).

  \<^bold>\<open>Theories, sources and results.\<close>
  \<^item> \<open>Prelude\<close>, \<open>Unicode_Case\<close>, \<open>Go_Strings\<close>, \<open>Go_Path\<close>, \<open>Go_Files\<close>, \<open>Sha256\<close>, \<open>Http\<close>, \<open>Go_Json\<close>:
    shared lemmas and the parts of the Go library the hub uses, JSON values and answers, the writer of
    \<open>encoding/json\<close> and a reader after RFC 8259 that undoes it.
  \<^item> \<open>Sqlrun\<close>, \<open>Sql_Lexer\<close>, \<open>Sql_Gate\<close> (\<open>internal/sqlrun\<close>): the lexer and the classification of SQL, its
    permission table and its execution. The byte-indexed lexer refines a one-pass automaton, the
    read-only check accepts exactly the texts without a write keyword in code position, and the
    permission table agrees with the role order.
  \<^item> \<open>Rbac\<close>, \<open>Auth\<close>, \<open>Routes\<close> (\<open>internal/rbac\<close>, \<open>internal/auth\<close>, \<open>internal/middleware\<close>,
    \<open>handlers.Routes\<close>): roles, tokens, revocation, and the routing table. Tokens round trip, revoked
    tokens are refused, no two routes overlap, and the handlers each role reaches are exactly
    those of the role matrix. The locale \<open>router\<close> is what the table needs of chi.
  \<^item> \<open>Platform_Db\<close>, \<open>Seed\<close>, \<open>Users\<close>, \<open>Sessions\<close> (\<open>internal/seed\<close>, \<open>handlers/auth.go\<close>,
    \<open>handlers/handlers.go\<close>): users, permission requests, sign-in and sessions. The tables stay well
    formed over all request sequences, nobody gains a role without a super administrator, and
    sessions stay in their workspace.
  \<^item> \<open>Ssebus\<close>, \<open>Redis_Bus\<close>, \<open>Sse_Stream\<close> (\<open>internal/ssebus\<close>, \<open>SessionStream\<close>): both buses and the
    stream to the browser. No run of the memory bus panics, a subscriber receives a subsequence of
    what was published to its session, and so does an \<open>EventSource\<close> that reads the bytes of the
    stream up to wherever they end; completeness is stated while at most as many events were
    published as the channel holds. The locale \<open>sse_bus\<close> is the Go interface \<open>Bus\<close>, interpreted by
    the memory bus.
  \<^item> \<open>Async_Task\<close>, \<open>Grpcserver\<close> (\<open>internal/async\<close>, \<open>internal/grpcserver\<close>): tasks, their timeouts, the
    reaper and the callbacks of the workers, interleaved by an inductive step relation: a task that
    ended never changes again.
  \<^item> \<open>Nl2sqlexec\<close>, \<open>Worker\<close>, \<open>Messages\<close> (\<open>internal/nl2sqlexec\<close>, \<open>internal/worker\<close>,
    \<open>handlers/messages.go\<close>): from a question to its answer. The executor sends at most one checked
    statement, and every run that a message starts ends or waits for a queued task.
  \<^item> \<open>Mysqlmgr\<close>, \<open>Datasets\<close>, \<open>Tables\<close>, \<open>Data\<close>, \<open>Sql_File\<close>, \<open>Csv\<close>, \<open>Llm\<close> (\<open>internal/mysqlmgr\<close>,
    \<open>handlers/datasets.go\<close>, \<open>tables.go\<close>, \<open>data.go\<close>, \<open>internal/llm\<close>): pools, datasets, their tables and
    permissions, file import with its AI check, and the terminal. Every pool is cached or closed,
    access is enforced, statements are guarded and go to the open pool of the right dataset, a
    written CSV table is read back, and the chat client stops. The locale \<open>pool_source\<close> is the
    contract of the operations that hand out a pool, interpreted by \<open>Connect\<close>, by \<open>pool_for\<close> and by
    the terminal's \<open>getDatasetPool\<close>.
  \<^item> \<open>Datasources\<close>, \<open>Hub_Crypto\<close>, \<open>Schema_Discovery\<close>, \<open>Ratelimit\<close> (\<open>handlers/datasources.go\<close>,
    \<open>internal/crypto\<close>, \<open>internal/schema\<close>, \<open>internal/ratelimit\<close>): external sources and their encrypted
    credentials, schemas and their cache, the sliding window.
  \<^item> \<open>Knowledge\<close>, \<open>Reports\<close> (\<open>handlers/knowledge.go\<close>, \<open>reports.go\<close>, \<open>tasks.go\<close>): documents, reports and
    task states. Uploaded bytes are what is downloaded, and reports stay in their directory.
  \<^item> \<open>Config\<close>, \<open>Migrate\<close>, \<open>Telemetry\<close>, \<open>Startup\<close> (\<open>internal/config\<close>, \<open>internal/migrate\<close>,
    \<open>internal/telemetry\<close>, \<open>internal/otelsetup\<close>, \<open>cmd/api/main.go\<close>): the process. Over any starts,
    with any failures, migrations run in order and at most once more than their recording failed;
    a hub that runs is ready, and after a signal everything \<open>main\<close> opened is closed.
    Metrics and tracing are the calls the hub makes of their libraries.
  \<^item> \<open>Db_Typing\<close>, \<open>Hub_Api\<close> (\<open>handlers.Routes\<close> with all handlers): the hub as one machine. In every
    reachable state the bus and the pools keep their invariants, and as long as no SQL that workers
    or users wrote may have touched the hub's own tables (the ghost log \<open>hs_sql\<close>), the tables are well
    typed: keys are unique, enumerated columns have one of their values, and the references that
    \<open>platform_typed\<close> lists have their rows; \<open>Db_Typing\<close> also names the references the code does not
    keep. Requests with the method \<open>GET\<close> do not change the stored data, and callers without a role
    change only what the role matrix leaves to them. The locale \<open>message_invariant\<close> is what a property
    of the state needs for \<open>PostMessage\<close> to keep it, interpreted by the pool invariant, by the typing
    and by a frame property.
  \<^item> This theory: properties of messages together with the other components.

  \<^bold>\<open>SQL that the program does not contain.\<close> Workers and users write SQL, and the hub executes it on
  \<open>a.DB\<close> (sessions without a dataset, \<open>messages.go\<close>) and on the pools of the datasets, which connect to
  the same server as its root user. What such a statement does to the tables of the hub is the
  argument \<open>mw_hub_sql\<close> of the world: it is applied where the statement is executed.
  \<open>touches_platform\<close> says of a text whether it may change them (it contains the name of one of the
  hub's tables or a comment that MySQL executes, or is not of a kind that works on one table), and
  \<open>hub_sql_frame\<close> is the law that a text that does not touch them leaves them alone. The definitions
  of databases and tables that the hub itself writes for datasets carry names it generated, and
  are not passed through \<open>mw_hub_sql\<close>.

  \<^bold>\<open>Loops and bounds.\<close> Every loop is a total function: structural recursion over the rows, statements
  or retries, or a proved measure (the lexer, the CSV reader, comment removal, trimming). No
  definition uses fuel. Widths are kept where they matter: 32-bit configuration values, 32-bit and
  128-bit words in the cryptography, the rounding of scores to \<open>float64\<close>; counters that Go holds in
  64 bits (dropped events, affected rows) are unbounded here.

  \<^bold>\<open>Theorems about defects.\<close> Some theorems state what the code does where it does not do what it
  means to: \<open>sessions_bypass_dataset_access\<close>, \<open>dataset_tasks_invisible\<close>,
  \<open>review_can_remove_last_super_admin\<close>, \<open>table_endpoints_unchecked\<close>, \<open>EnqueueTask_no_row\<close>,
  \<open>late_callback_completes_run\<close>, \<open>source_queries_hit_hub\<close>, \<open>DialNL2SQL_nothing\<close>,
  \<open>CreateDatasetTable_orphan\<close>, \<open>grant_to_nobody\<close>, \<open>deleted_users_keep_permissions\<close>.

  \<^bold>\<open>Boundaries.\<close> Texts are compared byte by byte. MySQL compares the columns of the hub without
  regard to case (\<open>utf8mb4_unicode_ci\<close> in \<open>001_init.sql\<close>): an insertion that it refuses as a duplicate
  of another spelling is a \<open>db_err\<close> of the call, but an id or an address that a client sends in
  another spelling than the stored one finds no row here. Dates in tokens are whole seconds, as the hub writes them; a
  fraction in a foreign token is not represented.

  \<^bold>\<open>Not modelled.\<close> Logging, except where it is all a failure leads to; the middleware \<open>Recoverer\<close>
  and \<open>Timeout\<close> of chi; the generated gRPC code; the web frontend and the Python services. Timeouts of
  contexts appear as errors of the calls they bound. Two requests that run at the same time are
  interleaved only in the components named above.
\<close>

section \<open>Messages and tasks\<close>

lemma EnqueueTask_appends:
  assumes "EnqueueTask e ne ac ws sid rid ty p h = (Inr x, h')"
  shows "\<exists>t. tasks (hdb h') = tasks (hdb h) @ [t] \<and> t_id t \<notin> t_id ` set (tasks (hdb h)) \<and> t_ws t = ws
           \<and> t_session t = nullif sid \<and> t_run t = nullif rid \<and> t_status t = ''queued''"
  using assms by (auto simp: EnqueueTask_def startTimeoutWatcher_def exec_Inr_iff insert_task_Inr Let_def split: sum.splits option.splits)

text \<open>An accepted message of a dataset session was handed to the agents, as a task of the workspace \<open>workspace\<close>.\<close>

lemma enqueue_accepted:
  assumes "enqueue_pipeline w ws sid rid b j s = (r, s', calls)" and "status r = StatusAccepted"
  shows "\<exists>t. tasks (hdb (as_hub s')) = tasks (hdb (as_hub s)) @ [t] \<and> t_id t \<notin> t_id ` set (tasks (hdb (as_hub s))) \<and> t_ws t = ws
           \<and> t_session t = nullif sid \<and> t_run t = nullif rid \<and> t_status t = ''queued''"
proof -
  obtain q h' where q: "EnqueueTask (mw_task_env w) (mw_nats_err w) (mw_async w) ws sid rid ''agent_pipeline''
             (JObj [(''user_message'', JStr (mb_text b)), (''schema_json'', JStr j)]) (as_hub s) = (q, h')" by fastforce
  with assms show ?thesis using EnqueueTask_appends
    by (cases q) (fastforce simp: enqueue_pipeline_def fail_run_def)+
qed

lemma not_accepted:
  "status (fst (finish_ok w rid sid res calls s)) = StatusOK" "fst (fail_run w rid sid msg code r calls s) = r"
  by (simp_all add: finish_ok_def fail_run_def split: prod.split)

lemma dataset_accepted:
  assumes "postMessageToDataset w c sid rid b trace ds s = (r, s', calls)" and "status r = StatusAccepted"
  shows "\<exists>j m. enqueue_pipeline w ''workspace'' sid rid b j (s\<lparr>as_mgr := m\<rparr>) = (r, s', calls)"
proof -
  have "status (fst (postMessageToDataset w c sid rid b trace ds s)) = StatusAccepted
      \<longrightarrow> (\<exists>j m. postMessageToDataset w c sid rid b trace ds s = enqueue_pipeline w ''workspace'' sid rid b j (s\<lparr>as_mgr := m\<rparr>))"
    unfolding postMessageToDataset_def Let_def
    by (auto simp: not_accepted split: sum.split prod.split option.split go_error.split)
  with assms show ?thesis by (metis fst_conv)
qed

text \<open>
  C40. Tasks of dataset sessions are lost. When a message to a dataset session is answered 202, exactly
  one task was stored, queued for the run of the message, and its workspace is literally named
  \<open>workspace\<close>, not the caller's. \<open>TaskStatus\<close> looks in the workspace of whoever asks, so for every
  caller of any other workspace, the one who posted the message and everyone else, and whatever the
  database does, every id that did not belong to an older task is answered 404: the id of the new
  task, and also the one in the answer.
\<close>

theorem dataset_tasks_invisible:
  assumes "postMessageToDataset w c sid rid b trace ds s = (r, s', calls)" and "status r = StatusAccepted"
  shows "\<exists>t. tasks (hdb (as_hub s')) = tasks (hdb (as_hub s)) @ [t] \<and> t_ws t = ''workspace'' \<and> t_run t = nullif rid \<and> t_status t = ''queued''
    \<and> t_id t \<notin> t_id ` set (tasks (hdb (as_hub s)))
    \<and> (\<forall>c2 e um i. WorkspaceID c2 \<noteq> ''workspace'' \<and> i \<notin> t_id ` set (tasks (hdb (as_hub s)))
          \<longrightarrow> TaskStatus e um c2 i (hdb (as_hub s')) = errJSON StatusNotFound ''task not found'')"
proof -
  obtain j m where q: "enqueue_pipeline w ''workspace'' sid rid b j (s\<lparr>as_mgr := m\<rparr>) = (r, s', calls)"
    using dataset_accepted [OF assms] by blast
  from enqueue_accepted [OF q assms(2)] obtain t where t: "tasks (hdb (as_hub s')) = tasks (hdb (as_hub s)) @ [t]"
      "t_id t \<notin> t_id ` set (tasks (hdb (as_hub s)))" "t_ws t = ''workspace''" "t_run t = nullif rid" "t_status t = ''queued''" by auto
  have "TaskStatus e um c2 i (hdb (as_hub s')) = errJSON StatusNotFound ''task not found''"
    if "WorkspaceID c2 \<noteq> ''workspace''" "i \<notin> t_id ` set (tasks (hdb (as_hub s)))" for c2 e um i
  proof -
    have "filter (\<lambda>t. t_id t = i \<and> t_ws t = WorkspaceID c2) (tasks (hdb (as_hub s'))) = []"
      using that t(1,3) by (auto simp: filter_empty_conv)
    then show ?thesis by (simp add: TaskStatus_def query_row_def split: option.splits)
  qed
  with t show ?thesis by blast
qed

definition demo_task_world :: "unit msg_world" where
  "demo_task_world = demo_world\<lparr>mw_task_env := calm_env\<lparr>ret_row := (\<lambda>_. Some ''default-id'')\<rparr>\<rparr>"

definition demo_pipeline_msg :: msg_body where
  "demo_pipeline_msg = \<lparr>mb_text = ''total?'', mb_workflow = ''agent_pipeline''\<rparr>"

lemma demo_pipeline:
  "\<exists>s' t. postMessageToDataset demo_task_world demo_viewer ''s1'' ''r1'' demo_pipeline_msg [] ''d1'' (demo_app demo_chat_db)
       = (JSON StatusAccepted (JObj [(''run_id'', JStr ''r1''), (''task_id'', JStr ''default-id''), (''status'', JStr ''pending_async'')]), s', [])
     \<and> tasks (hdb (as_hub s')) = [t] \<and> t_id t = ''default-id''"
proof -
  obtain j where schema: "resolveDatasetSchema demo_task_world ''d1'' (hdb (as_hub (demo_app demo_chat_db))) = Inr j"
    by (simp add: demo_task_world_def resolveDatasetSchema_def query_def rows_next_def scan_fails_def rows_Err_def list_ex_iff ToJSON_def Let_def)
  obtain m where pool: "pool_for calm_server ''d1'' ''ds_1'' demo_mgr = (Inr 0, m)"
    by (simp add: pool_for_def GetPool_def demo_mgr_def NewManager_def Connect_def calm_server_def Let_def)
  have pipe: "useAgentPipeline demo_pipeline_msg"
    by (simp add: useAgentPipeline_def demo_pipeline_msg_def trim_eval go_str Let_def)
  obtain h where task: "EnqueueTask (calm_env\<lparr>ret_row := (\<lambda>_. Some ''default-id'')\<rparr>) (mw_nats_err demo_world) (mw_async demo_world) ''workspace'' ''s1'' ''r1'' ''agent_pipeline''
             (JObj [(''user_message'', JStr ''total?''), (''schema_json'', JStr j)]) (as_hub (demo_app demo_chat_db)) = (Inr ''default-id'', h)"
    by (simp add: EnqueueTask_def exec_def insert_task_def demo_app_def demo_chat_db_def demo_ds_db_def empty_platform_def Let_def)
  obtain t where t: "tasks (hdb h) = [t]" "t_id t = ''default-id''"
    using EnqueueTask_row [OF task] by (auto simp: queued_row_def demo_app_def demo_chat_db_def demo_ds_db_def empty_platform_def)
  have "datasets (hdb (as_hub (demo_app demo_chat_db))) = [demo_dataset]" "as_mgr (demo_app demo_chat_db) = demo_mgr"
    by (simp_all add: demo_app_def demo_chat_db_def demo_ds_db_def)
  then show ?thesis using pool pipe task t schema
    by (simp add: postMessageToDataset_def enqueue_pipeline_def demo_task_world_def query_row_def demo_dataset_def demo_pipeline_msg_def Let_def)
qed

text \<open>The viewer who posts, and a super administrator of the same workspace.\<close>

theorem dataset_tasks_invisible_witness:
  "\<exists>r s'. postMessageToDataset demo_task_world demo_viewer ''s1'' ''r1'' demo_pipeline_msg [] ''d1'' (demo_app demo_chat_db) = (r, s', [])
     \<and> status r = StatusAccepted \<and> t_id ` set (tasks (hdb (as_hub s'))) = {''default-id''}
     \<and> TaskStatus calm_env (\<lambda>b. Inr (JRaw b)) demo_viewer ''default-id'' (hdb (as_hub s')) = errJSON StatusNotFound ''task not found''
     \<and> TaskStatus calm_env (\<lambda>b. Inr (JRaw b)) (demo_super ''a'') ''default-id'' (hdb (as_hub s')) = errJSON StatusNotFound ''task not found''"
proof -
  obtain r s' t where p: "postMessageToDataset demo_task_world demo_viewer ''s1'' ''r1'' demo_pipeline_msg [] ''d1'' (demo_app demo_chat_db) = (r, s', [])"
      "status r = StatusAccepted" "tasks (hdb (as_hub s')) = [t]" "t_id t = ''default-id''"
    using demo_pipeline by fastforce
  have "WorkspaceID demo_viewer \<noteq> ''workspace''" "WorkspaceID (demo_super ''a'') \<noteq> ''workspace''"
    by (simp_all add: demo_viewer_def demo_ws_def demo_super_def DemoWorkspaceID_def demoWorkspaceID_def)
  moreover have "''default-id'' \<notin> t_id ` set (tasks (hdb (as_hub (demo_app demo_chat_db))))"
    by (simp add: demo_app_def demo_chat_db_def demo_ds_db_def empty_platform_def)
  ultimately show ?thesis using dataset_tasks_invisible [OF p(1,2)] p by (intro exI [of _ r] exI [of _ s']) auto
qed

section \<open>External data sources\<close>

text \<open>
  The statements of a session with an external data source are sent to the database of the hub
  itself (\<open>None\<close>), although their schema was read from the data source.
\<close>

definition hub_calls :: "'r msg_result \<Rightarrow> bool" where
  "hub_calls res \<longleftrightarrow> fst ` set (snd (snd res)) \<subseteq> {None}"

lemma hub_calls_rules:
  "hub_calls (fail_run w rid sid msg code r (map (Pair None) calls) s)" "hub_calls (fail_run w rid sid msg code r [] s)"
  "hub_calls (finish_ok w rid sid res (map (Pair None) calls) s)" "hub_calls (r, s, [])"
  by (auto simp: hub_calls_def fail_run_def finish_ok_def split: prod.splits)

lemma enqueue_hub_calls: "hub_calls (enqueue_pipeline w ws sid rid b j s)"
  by (simp add: enqueue_pipeline_def hub_calls_rules split: prod.splits sum.splits)

lemma source_queries_hit_hub: "hub_calls (postMessageToSource w c sid rid b trace s)"
  unfolding postMessageToSource_def Let_def
  by (simp add: hub_calls_rules enqueue_hub_calls split: sum.split prod.split option.split go_error.split)

end
